(* ===== verification/OrdMap.thy ===== *)
theory OrdMap
  imports Prelude "HOL-Library.List_Lexorder" "HOL-Library.Char_ord"
begin

text \<open>
  \<open>std::collections::BTreeMap\<close> as its in-order list of entries: strictly increasing
  keys. \<open>serde_json::Map\<close> is the same structure (the crate is used without its
  \<open>preserve_order\<close> feature). The locale states what clients may rely on.
\<close>

type_synonym ('k, 'v) bmap = "('k \<times> 'v) list"

abbreviation bm_keys :: "('k, 'v) bmap \<Rightarrow> 'k list" where
  "bm_keys m \<equiv> map fst m"

abbreviation bm_values :: "('k, 'v) bmap \<Rightarrow> 'v list" where
  "bm_values m \<equiv> map snd m"

definition bm_inv :: "('k :: linorder, 'v) bmap \<Rightarrow> bool" where
  "bm_inv m \<longleftrightarrow> sorted_wrt (<) (bm_keys m)"

definition bm_empty :: "('k, 'v) bmap" where
  "bm_empty = []"

fun bm_get :: "('k, 'v) bmap \<Rightarrow> 'k \<Rightarrow> 'v option" where
  "bm_get [] k = None"
| "bm_get ((a, v) # m) k = (if a = k then Some v else bm_get m k)"

fun bm_insert :: "'k :: linorder \<Rightarrow> 'v \<Rightarrow> ('k, 'v) bmap \<Rightarrow> ('k, 'v) bmap" where
  "bm_insert k v [] = [(k, v)]"
| "bm_insert k v ((a, w) # m) =
     (if k < a then (k, v) # (a, w) # m
      else if k = a then (k, v) # m
      else (a, w) # bm_insert k v m)"

fun bm_remove :: "'k \<Rightarrow> ('k, 'v) bmap \<Rightarrow> ('k, 'v) bmap" where
  "bm_remove k [] = []"
| "bm_remove k ((a, w) # m) = (if a = k then m else (a, w) # bm_remove k m)"

text \<open>\<open>*m.entry(k).or_insert(d)\<close> read and written back through \<open>f\<close>.\<close>

definition bm_update :: "'k :: linorder \<Rightarrow> 'v \<Rightarrow> ('v \<Rightarrow> 'v) \<Rightarrow> ('k, 'v) bmap \<Rightarrow> ('k, 'v) bmap" where
  "bm_update k d f m = bm_insert k (f (case bm_get m k of None \<Rightarrow> d | Some v \<Rightarrow> v)) m"

text \<open>\<open>m.entry(k).or_insert(v)\<close> for its effect alone: the first value stays.\<close>

definition bm_or_insert :: "'k :: linorder \<Rightarrow> 'v \<Rightarrow> ('k, 'v) bmap \<Rightarrow> ('k, 'v) bmap" where
  "bm_or_insert k v m = bm_update k v id m"

section \<open>The interface\<close>

locale ordered_map =
  fixes empty :: "'m"
    and insert_m :: "'k :: linorder \<Rightarrow> 'v \<Rightarrow> 'm \<Rightarrow> 'm"
    and remove_m :: "'k \<Rightarrow> 'm \<Rightarrow> 'm"
    and get :: "'m \<Rightarrow> 'k \<Rightarrow> 'v option"
    and keys :: "'m \<Rightarrow> 'k list"
    and inv :: "'m \<Rightarrow> bool"
  assumes get_empty: "get empty k = None"
    and get_insert: "get (insert_m k v m) j = (if j = k then Some v else get m j)"
    and get_remove: "inv m \<Longrightarrow> get (remove_m k m) j = (if j = k then None else get m j)"
    and keys_get: "inv m \<Longrightarrow> k \<in> set (keys m) \<longleftrightarrow> get m k \<noteq> None"
    and keys_sorted: "inv m \<Longrightarrow> sorted_wrt (<) (keys m)"
    and inv_empty: "inv empty"
    and inv_insert: "inv m \<Longrightarrow> inv (insert_m k v m)"
    and inv_remove: "inv m \<Longrightarrow> inv (remove_m k m)"
begin

lemma keys_distinct: "inv m \<Longrightarrow> distinct (keys m)"
  using keys_sorted strict_sorted_iff by blast

lemma keys_insert: "inv m \<Longrightarrow> set (keys (insert_m k v m)) = insert k (set (keys m))"
  using keys_get inv_insert by (auto simp: get_insert set_eq_iff)

lemma keys_remove: "inv m \<Longrightarrow> set (keys (remove_m k m)) = set (keys m) - {k}"
  using keys_get inv_remove by (auto simp: get_remove set_eq_iff)

lemma length_insert:
  assumes "inv m"
  shows "length (keys (insert_m k v m)) = (if get m k = None then 1 else 0) + length (keys m)"
proof -
  have "length (keys (insert_m k v m)) = card (insert k (set (keys m)))"
    using keys_insert [OF assms] keys_distinct [OF inv_insert [OF assms]] distinct_card by metis
  also have "\<dots> = (if get m k = None then 1 else 0) + card (set (keys m))"
    using keys_get [OF assms, of k] by (auto simp: insert_absorb)
  finally show ?thesis using distinct_card [OF keys_distinct [OF assms]] by simp
qed

lemma length_remove:
  assumes "inv m" and "get m k \<noteq> None"
  shows "length (keys (remove_m k m)) = length (keys m) - 1"
proof -
  have "length (keys (remove_m k m)) = card (set (keys m) - {k})"
    using keys_remove [OF assms(1)] keys_distinct [OF inv_remove [OF assms(1)]] distinct_card by metis
  also have "\<dots> = card (set (keys m)) - 1" using keys_get assms by simp
  finally show ?thesis using distinct_card [OF keys_distinct [OF assms(1)]] by simp
qed

lemma insert_fold_get:
  "get (fold (\<lambda>(k, v). insert_m k v) kvs empty) k = map_of (rev kvs) k"
proof (induction kvs rule: rev_induct)
  case Nil
  then show ?case by (simp add: get_empty)
next
  case (snoc kv kvs)
  then show ?case by (cases kv) (simp add: get_insert)
qed

end

lemma set_keys_insert [simp]: "set (bm_keys (bm_insert k v m)) = insert k (set (bm_keys m))"
  by (induction m rule: bm_insert.induct) auto

lemma fst_set_insert [simp]: "fst ` set (bm_insert k v m) = insert k (fst ` set m)"
  using set_keys_insert [of k v m] by simp

lemma bm_get_insert [simp]: "bm_get (bm_insert k v m) j = (if j = k then Some v else bm_get m j)"
  by (induction k v m rule: bm_insert.induct) auto

lemma bm_get_None: "bm_get m k = None \<longleftrightarrow> k \<notin> set (bm_keys m)"
  by (induction m k rule: bm_get.induct) auto

lemma bm_get_Some_mem: "bm_get m k = Some v \<Longrightarrow> (k, v) \<in> set m"
  by (induction m k rule: bm_get.induct) (auto split: if_splits)

lemma bm_get_mem: "bm_inv m \<Longrightarrow> (k, v) \<in> set m \<Longrightarrow> bm_get m k = Some v"
  by (induction m k rule: bm_get.induct) (force simp: bm_inv_def)+

lemma set_keys_remove_subset: "set (bm_keys (bm_remove k m)) \<subseteq> set (bm_keys m)"
  by (induction m rule: bm_remove.induct) auto

lemma bm_inv_remove: "bm_inv m \<Longrightarrow> bm_inv (bm_remove k m)"
proof (induction m)
  case (Cons x m)
  then show ?case using set_keys_remove_subset [of k m]
    by (cases x) (fastforce simp: bm_inv_def)
qed (simp add: bm_inv_def)

lemma bm_inv_insert [simp]: "bm_inv m \<Longrightarrow> bm_inv (bm_insert k v m)"
proof (induction m rule: bm_insert.induct)
  case (2 k v a w m)
  have "bm_inv m" using 2 by (simp add: bm_inv_def)
  moreover have "\<forall>x \<in> set (bm_keys m). a < x" using 2 by (simp add: bm_inv_def)
  ultimately show ?case using 2 set_keys_insert [of k v m] unfolding bm_inv_def by auto
qed (simp add: bm_inv_def)

lemma bm_get_remove: "bm_inv m \<Longrightarrow> bm_get (bm_remove k m) j = (if j = k then None else bm_get m j)"
proof (induction m)
  case (Cons x m)
  have m: "bm_inv m" and f: "\<forall>y \<in> set (bm_keys m). fst x < y"
    using Cons.prems by (auto simp: bm_inv_def)
  show ?case
  proof (cases "fst x = k")
    case True
    then have "bm_get m k = None" using f by (auto simp: bm_get_None)
    then show ?thesis using True by (cases x) auto
  next
    case False
    then show ?thesis using Cons.IH [OF m] by (cases x) auto
  qed
qed simp

interpretation bm: ordered_map bm_empty bm_insert bm_remove bm_get bm_keys bm_inv
proof unfold_locales
  fix m :: "('a, 'b) bmap" and k :: 'a
  show "(k \<in> set (bm_keys m)) = (bm_get m k \<noteq> None)" by (simp add: bm_get_None)
  assume "bm_inv m"
  then show "sorted_wrt (<) (bm_keys m)" by (simp add: bm_inv_def)
  then show "bm_get (bm_remove k m) j = (if j = k then None else bm_get m j)" for j
    using \<open>bm_inv m\<close> by (simp add: bm_get_remove)
  show "bm_inv (bm_insert k v m)" for v using \<open>bm_inv m\<close> by simp
  show "bm_inv (bm_remove k m)" using \<open>bm_inv m\<close> by (rule bm_inv_remove)
qed (simp_all add: bm_empty_def bm_inv_def)

lemma bm_get_update: "bm_get (bm_update k d f m) j =
    (if j = k then Some (f (case bm_get m k of None \<Rightarrow> d | Some v \<Rightarrow> v)) else bm_get m j)"
  by (simp add: bm_update_def)

lemma bm_inv_update [simp]: "bm_inv m \<Longrightarrow> bm_inv (bm_update k d f m)"
  by (simp add: bm_update_def)

lemma bm_inv_empty [simp]: "bm_inv bm_empty"
  by (rule bm.inv_empty)

lemma bm_get_empty [simp]: "bm_get bm_empty k = None"
  by (simp add: bm_empty_def)

lemma bm_get_or_insert: "bm_get (bm_or_insert k v m) j =
    (if j = k then Some (case bm_get m k of None \<Rightarrow> v | Some w \<Rightarrow> w) else bm_get m j)"
  by (simp add: bm_or_insert_def bm_get_update)

end
