(* ===== verification/Text.thy ===== *)
theory Text
  imports Prelude "HOL-Library.Char_ord" "HOL-Library.List_Lexorder"
begin

text \<open>
  Rust's \<open>str\<close> and \<open>String\<close> as byte strings, with the methods of the standard
  library the program calls. A \<open>char\<close> here is one byte; whitespace and letter case
  are those of ASCII, which is where the byte view and Rust's Unicode view agree:
  every string the program itself builds (metric ids, commands, flags) is ASCII.
  Strings are ordered bytewise, as \<open>Ord for str\<close> orders them.
\<close>

section \<open>Prefixes, suffixes, substrings\<close>

definition starts_with :: "string \<Rightarrow> string \<Rightarrow> bool" where
  "starts_with p s \<longleftrightarrow> take (length p) s = p"

definition ends_with :: "string \<Rightarrow> string \<Rightarrow> bool" where
  "ends_with p s \<longleftrightarrow> starts_with (rev p) (rev s)"

definition strip_prefix :: "string \<Rightarrow> string \<Rightarrow> string option" where
  "strip_prefix p s = (if starts_with p s then Some (drop (length p) s) else None)"

definition strip_suffix :: "string \<Rightarrow> string \<Rightarrow> string option" where
  "strip_suffix p s = (if ends_with p s then Some (take (length s - length p) s) else None)"

definition trim_matches :: "char \<Rightarrow> string \<Rightarrow> string" where
  "trim_matches c s = rev (dropWhile (\<lambda>d. d = c) (rev (dropWhile (\<lambda>d. d = c) s)))"

fun str_contains :: "string \<Rightarrow> string \<Rightarrow> bool" where
  "str_contains [] p = (p = [])"
| "str_contains (c # s) p = (starts_with p (c # s) \<or> str_contains s p)"

lemma starts_with_append: "starts_with p s \<longleftrightarrow> (\<exists>t. s = p @ t)"
  unfolding starts_with_def by (metis append_eq_conv_conj append_take_drop_id)

lemma starts_with_self_append [simp]: "starts_with p (p @ t)"
  by (simp add: starts_with_def)

lemma starts_with_Nil [simp]: "starts_with [] s"
  by (simp add: starts_with_def)

lemma starts_with_Cons [simp]:
  "starts_with (a # p) (b # s) \<longleftrightarrow> a = b \<and> starts_with p s"
  "\<not> starts_with (a # p) []"
  by (auto simp: starts_with_def)

lemma ends_with_append: "ends_with p s \<longleftrightarrow> (\<exists>t. s = t @ p)"
proof -
  have "ends_with p s \<longleftrightarrow> (\<exists>t. rev s = rev p @ t)" by (simp add: ends_with_def starts_with_append)
  also have "\<dots> \<longleftrightarrow> (\<exists>t. s = t @ p)" by (metis rev_append rev_rev_ident)
  finally show ?thesis .
qed

lemma str_contains_iff: "str_contains s p \<longleftrightarrow> (\<exists>a b. s = a @ p @ b)"
proof (induction s)
  case Nil
  then show ?case by simp
next
  case (Cons c s)
  have "(\<exists>a b. c # s = a @ p @ b) \<longleftrightarrow> (\<exists>b. c # s = p @ b) \<or> (\<exists>a b. s = a @ p @ b)"
    by (auto simp: Cons_eq_append_conv)
  then show ?case by (simp add: Cons.IH starts_with_append)
qed

section \<open>Characters\<close>

text \<open>ASCII whitespace, as \<open>split_whitespace\<close> and \<open>trim\<close> see it: TAB, LF, VT, FF, CR, space.\<close>

definition is_ws :: "char \<Rightarrow> bool" where
  "is_ws c = (let n = of_char c :: int in n = 32 \<or> 9 \<le> n \<and> n \<le> 13)"

definition is_ascii_digit :: "char \<Rightarrow> bool" where
  "is_ascii_digit c = (let n = of_char c :: int in 48 \<le> n \<and> n \<le> 57)"

definition is_ascii_alpha :: "char \<Rightarrow> bool" where
  "is_ascii_alpha c = (let n = of_char c :: int in 65 \<le> n \<and> n \<le> 90 \<or> 97 \<le> n \<and> n \<le> 122)"

definition lower_char :: "char \<Rightarrow> char" where
  "lower_char c = (let n = of_char c :: int in if 65 \<le> n \<and> n \<le> 90 then char_of (n + 32) else c)"

definition upper_char :: "char \<Rightarrow> char" where
  "upper_char c = (let n = of_char c :: int in if 97 \<le> n \<and> n \<le> 122 then char_of (n - 32) else c)"

definition to_lower :: "string \<Rightarrow> string" where
  "to_lower = map lower_char"

definition to_upper :: "string \<Rightarrow> string" where
  "to_upper = map upper_char"

definition newline :: char where
  "newline = char_of (10 :: int)"

lemma of_char_newline [simp]: "(of_char newline :: int) = 10"
  by (simp add: newline_def)

lemma ws_space [simp]: "is_ws (CHR '' '')"
  by (simp add: is_ws_def)

lemma ws_newline [simp]: "is_ws newline"
  by (simp add: is_ws_def)

lemma digit_not_ws: "is_ascii_digit c \<Longrightarrow> \<not> is_ws c"
  by (auto simp: is_ascii_digit_def is_ws_def Let_def)

section \<open>Trimming and splitting\<close>

definition trim :: "string \<Rightarrow> string" where
  "trim s = rev (dropWhile is_ws (rev (dropWhile is_ws s)))"

fun split_on :: "(char \<Rightarrow> bool) \<Rightarrow> string \<Rightarrow> string list" where
  "split_on P [] = [[]]"
| "split_on P (c # s) =
     (if P c then [] # split_on P s
      else (case split_on P s of [] \<Rightarrow> [[c]] | t # ts \<Rightarrow> (c # t) # ts))"

definition split_ws :: "string \<Rightarrow> string list" where
  "split_ws s = filter (\<lambda>t. t \<noteq> []) (split_on is_ws s)"

fun split_once :: "char \<Rightarrow> string \<Rightarrow> (string \<times> string) option" where
  "split_once d [] = None"
| "split_once d (c # s) =
     (if c = d then Some ([], s) else map_option (\<lambda>(a, b). (c # a, b)) (split_once d s))"

fun str_join :: "string \<Rightarrow> string list \<Rightarrow> string" where
  "str_join sep [] = []"
| "str_join sep [s] = s"
| "str_join sep (s # t # ts) = s @ sep @ str_join sep (t # ts)"

text \<open>
  \<open>str::lines\<close>: a line ends at LF, a CR just before it goes too, and the text after
  the last LF is a line only if it is not empty.
\<close>

definition strip_cr :: "string \<Rightarrow> string" where
  "strip_cr s = (if s \<noteq> [] \<and> last s = char_of (13 :: int) then butlast s else s)"

definition str_lines :: "string \<Rightarrow> string list" where
  "str_lines s = (let ps = split_on (\<lambda>c. c = newline) s in
     map strip_cr (butlast ps) @ (if last ps = [] then [] else [last ps]))"

text \<open>\<open>str::replace\<close> for a non-empty pattern: leftmost matches first, never overlapping.\<close>

function replace_all :: "string \<Rightarrow> string \<Rightarrow> string \<Rightarrow> string" where
  "replace_all p r [] = []"
| "replace_all p r (c # s) =
     (if p \<noteq> [] \<and> starts_with p (c # s) then r @ replace_all p r (drop (length p) (c # s))
      else c # replace_all p r s)"
  by pat_completeness auto
termination
  by (relation "measure (\<lambda>(p, r, s). length s)") auto

named_theorems text_simps

lemma split_on_ne [simp]: "split_on P s \<noteq> []"
  by (induction s) (auto split: list.splits)

lemma split_on_none [text_simps]: "\<forall>c \<in> set s. \<not> P c \<Longrightarrow> split_on P s = [s]"
  by (induction s) auto

lemma split_on_append_sep [text_simps]:
  "\<forall>c \<in> set s. \<not> P c \<Longrightarrow> P d \<Longrightarrow> split_on P (s @ d # t) = s # split_on P t"
  by (induction s) auto

definition token :: "string \<Rightarrow> bool" where
  "token s \<longleftrightarrow> s \<noteq> [] \<and> (\<forall>c \<in> set s. \<not> is_ws c)"

lemma split_ws_token [text_simps]: "token t \<Longrightarrow> split_ws t = [t]"
  by (simp add: split_ws_def token_def text_simps)

lemma split_ws_token_space [text_simps]:
  "token t \<Longrightarrow> split_ws (t @ CHR '' '' # s) = t # split_ws s"
  by (simp add: split_ws_def token_def text_simps)

lemma split_ws_join: "\<forall>t \<in> set ts. token t \<Longrightarrow> split_ws (str_join '' '' ts) = ts"
proof (induction "'' ''" ts rule: str_join.induct)
  case 1
  then show ?case by (simp add: split_ws_def)
next
  case (2 s)
  then show ?case by (simp add: text_simps)
next
  case (3 s t ts)
  then show ?case by (simp add: text_simps)
qed

lemma dropWhile_token: "token t \<Longrightarrow> dropWhile is_ws (t @ s) = t @ s"
  by (cases t) (auto simp: token_def)

text \<open>A line as it is written on the wire: tokens joined by spaces, then LF.\<close>

lemma trim_id:
  assumes "s \<noteq> []" and "\<not> is_ws (hd s)" and "\<not> is_ws (last s)"
  shows "trim s = s" and "trim (s @ [newline]) = s"
proof -
  have 1: "dropWhile is_ws s = s" using assms(1,2) by (cases s) auto
  have 2: "dropWhile is_ws (s @ [newline]) = s @ [newline]" using assms(1,2) by (cases s) auto
  have 3: "dropWhile is_ws (rev s) = rev s"
    using assms(1,3) by (simp add: dropWhile_eq_self_iff hd_rev)
  show "trim s = s" by (simp add: trim_def 1 3)
  show "trim (s @ [newline]) = s" by (simp add: trim_def 2 3)
qed

lemma str_join_Cons: "ts \<noteq> [] \<Longrightarrow> str_join sep (t # ts) = t @ sep @ str_join sep ts"
  by (cases ts) auto

lemma str_join_ends:
  assumes "ts \<noteq> []" and "\<forall>t \<in> set ts. token t"
  shows "str_join sep ts \<noteq> [] \<and> hd (str_join sep ts) = hd (hd ts) \<and>
         last (str_join sep ts) = last (last ts)"
  using assms
proof (induction ts)
  case (Cons t ts)
  then show ?case
    by (cases "ts = []") (auto simp: str_join_Cons token_def)
qed simp

lemma trim_join:
  assumes "ts \<noteq> []" and "\<forall>t \<in> set ts. token t"
  shows "trim (str_join sep ts) = str_join sep ts"
    and "trim (str_join sep ts @ [newline]) = str_join sep ts"
proof -
  note e = str_join_ends [OF assms, of sep]
  have h: "token (hd ts)" "token (last ts)" using assms by auto
  have "\<not> is_ws (hd (str_join sep ts))" "\<not> is_ws (last (str_join sep ts))"
    using e h by (auto simp: token_def)
  then show "trim (str_join sep ts) = str_join sep ts"
    and "trim (str_join sep ts @ [newline]) = str_join sep ts"
    using e trim_id by blast+
qed

section \<open>Substitution\<close>

lemma replace_all_no_match:
  "\<not> str_contains s p \<Longrightarrow> replace_all p r s = s"
  by (induction p r s rule: replace_all.induct) auto

end
