(* ===== verification/Decimal.thy ===== *)
theory Decimal
  imports Text
begin

text \<open>
  Decimal text of unsigned integers: \<open>to_string\<close> / \<open>{}\<close> formatting and
  \<open>str::parse\<close> of the standard library at the widths the program uses. The codec
  locale is the contract a wire format needs of such a pair: what is written is a
  single token and reads back as what was written.
\<close>

section \<open>Printing\<close>

definition digit_char :: "int \<Rightarrow> char" where
  "digit_char d = char_of (48 + d)"

function show_dec :: "int \<Rightarrow> string" where
  "show_dec n = (if n < 10 then [digit_char n] else show_dec (n div 10) @ [digit_char (n mod 10)])"
  by pat_completeness auto
termination
  by (relation "measure nat") auto

declare show_dec.simps [simp del]

definition show_u64 :: "u64 \<Rightarrow> string" where
  "show_u64 w = show_dec (uint w)"

definition show_u32 :: "u32 \<Rightarrow> string" where
  "show_u32 w = show_dec (uint w)"

definition show_nat :: "nat \<Rightarrow> string" where
  "show_nat n = show_dec (int n)"

section \<open>Parsing\<close>

definition digit_value :: "char \<Rightarrow> int" where
  "digit_value c = of_char c - 48"

definition dec_value :: "string \<Rightarrow> int" where
  "dec_value s = foldl (\<lambda>v c. 10 * v + digit_value c) 0 s"

text \<open>
  \<open>from_str\<close> of an unsigned type: an optional plus sign, at least one digit, digits
  only, and a value that fits (\<open>limit\<close> is the type's MAX).
\<close>

definition drop_plus :: "string \<Rightarrow> string" where
  "drop_plus s = (case s of c # d # ds \<Rightarrow> if c = CHR ''+'' then d # ds else s | _ \<Rightarrow> s)"

definition parse_uint :: "int \<Rightarrow> string \<Rightarrow> int option" where
  "parse_uint limit s = (let ds = drop_plus s in
     if ds = [] \<or> \<not> list_all is_ascii_digit ds then None
     else if dec_value ds \<le> limit then Some (dec_value ds) else None)"

definition parse_u64 :: "string \<Rightarrow> u64 option" where
  "parse_u64 s = map_option word_of_int (parse_uint (2 ^ 64 - 1) s)"

definition parse_u32 :: "string \<Rightarrow> u32 option" where
  "parse_u32 s = map_option word_of_int (parse_uint (2 ^ 32 - 1) s)"

text \<open>The text of a \<open>ParseIntError\<close> of an unsigned type; the digits are read from the left.\<close>

fun uint_error_from :: "int \<Rightarrow> int \<Rightarrow> string \<Rightarrow> string" where
  "uint_error_from limit acc [] = ''''"
| "uint_error_from limit acc (c # s) =
     (if \<not> is_ascii_digit c then ''invalid digit found in string''
      else if limit < 10 * acc + digit_value c then ''number too large to fit in target type''
      else uint_error_from limit (10 * acc + digit_value c) s)"

definition parse_uint_error :: "int \<Rightarrow> string \<Rightarrow> string" where
  "parse_uint_error limit s = (if s = '''' then ''cannot parse integer from empty string''
     else uint_error_from limit 0 (drop_plus s))"

text \<open>\<open>i64\<close>: also a minus sign, and the range of two's complement.\<close>

definition parse_int :: "int \<Rightarrow> int \<Rightarrow> string \<Rightarrow> int option" where
  "parse_int lo hi s = (case s of
     c # d # ds \<Rightarrow> if c = CHR ''-'' then
         (if list_all is_ascii_digit (d # ds) \<and> lo \<le> - dec_value (d # ds) then Some (- dec_value (d # ds)) else None)
       else parse_uint hi s
   | _ \<Rightarrow> parse_uint hi s)"

definition parse_i64 :: "string \<Rightarrow> 64 word option" where
  "parse_i64 s = map_option word_of_int (parse_int (- (2 ^ 63)) (2 ^ 63 - 1) s)"

definition show_int :: "int \<Rightarrow> string" where
  "show_int n = (if n < 0 then CHR ''-'' # show_dec (- n) else show_dec n)"

section \<open>Round trip\<close>

lemma of_char_digit: "0 \<le> d \<Longrightarrow> d < 10 \<Longrightarrow> (of_char (digit_char d) :: int) = 48 + d"
  by (simp add: digit_char_def of_char_of)

lemma digit_char_digit [simp]: "0 \<le> d \<Longrightarrow> d < 10 \<Longrightarrow> is_ascii_digit (digit_char d)"
  by (simp add: is_ascii_digit_def of_char_digit)

lemma digit_value_char [simp]: "0 \<le> d \<Longrightarrow> d < 10 \<Longrightarrow> digit_value (digit_char d) = d"
  by (simp add: digit_value_def of_char_digit)

lemma show_dec_ne [simp]: "show_dec n \<noteq> []"
  by (subst show_dec.simps) simp

lemma show_dec_digits: "0 \<le> n \<Longrightarrow> list_all is_ascii_digit (show_dec n)"
proof (induction n rule: show_dec.induct)
  case (1 n)
  then show ?case by (cases "n < 10") (simp_all add: show_dec.simps [of n])
qed

lemma dec_value_show: "0 \<le> n \<Longrightarrow> dec_value (show_dec n) = n"
proof (induction n rule: show_dec.induct)
  case (1 n)
  then show ?case by (cases "n < 10") (simp_all add: show_dec.simps [of n] dec_value_def)
qed

lemma plus_not_digit: "\<not> is_ascii_digit (CHR ''+'')"
  by (simp add: is_ascii_digit_def)

lemma drop_plus_digits: "list_all is_ascii_digit s \<Longrightarrow> drop_plus s = s"
  by (auto simp: drop_plus_def plus_not_digit split: list.splits)

lemma parse_uint_show: "0 \<le> n \<Longrightarrow> n \<le> limit \<Longrightarrow> parse_uint limit (show_dec n) = Some n"
  by (simp add: parse_uint_def drop_plus_digits show_dec_digits dec_value_show)

lemma token_show_dec: "0 \<le> n \<Longrightarrow> token (show_dec n)"
  using show_dec_digits [of n] by (auto simp: token_def list_all_iff dest: digit_not_ws)

lemma show_dec_inj: "0 \<le> m \<Longrightarrow> 0 \<le> n \<Longrightarrow> show_dec m = show_dec n \<longleftrightarrow> m = n"
  by (metis dec_value_show)

lemma minus_not_digit: "\<not> is_ascii_digit (CHR ''-'')"
  by (simp add: is_ascii_digit_def)

lemma parse_int_show:
  assumes "lo \<le> n" and "n \<le> hi"
  shows "parse_int lo hi (show_int n) = Some n"
proof (cases "n < 0")
  case True
  obtain d ds where d: "show_dec (- n) = d # ds" by (cases "show_dec (- n)") auto
  have "list_all is_ascii_digit (d # ds)" "dec_value (d # ds) = - n"
    using show_dec_digits [of "- n"] dec_value_show [of "- n"] True d by simp_all
  then show ?thesis using True assms d by (simp add: parse_int_def show_int_def)
next
  case False
  have "show_dec n \<noteq> CHR ''-'' # t" for t
  proof
    assume "show_dec n = CHR ''-'' # t"
    then show False using show_dec_digits [of n] False minus_not_digit by simp
  qed
  then have "parse_int lo hi (show_dec n) = parse_uint hi (show_dec n)"
    by (auto simp: parse_int_def split: list.splits)
  then show ?thesis using False assms by (simp add: show_int_def parse_uint_show)
qed

section \<open>The codec contract\<close>

locale text_codec =
  fixes enc :: "'a \<Rightarrow> string"
    and decode :: "string \<Rightarrow> 'a option"
  assumes decode_enc: "decode (enc x) = Some x"
    and enc_token: "token (enc x)"
begin

lemma enc_inj: "enc x = enc y \<Longrightarrow> x = y"
  by (metis decode_enc option.inject)

lemma field_of_line:
  assumes "\<forall>t \<in> set ts. token t"
  shows "split_ws (str_join '' '' (ts @ [enc x])) = ts @ [enc x]"
  using assms enc_token [of x] by (intro split_ws_join) auto

end

interpretation u64_codec: text_codec show_u64 parse_u64
proof unfold_locales
  fix x :: u64
  have "uint x < 2 ^ 64" using uint_lt2p [of x] by simp
  then have "parse_uint (2 ^ 64 - 1) (show_dec (uint x)) = Some (uint x)"
    by (intro parse_uint_show) simp_all
  then show "parse_u64 (show_u64 x) = Some x" by (simp add: parse_u64_def show_u64_def)
  show "token (show_u64 x)" by (simp add: show_u64_def token_show_dec)
qed

interpretation u32_codec: text_codec show_u32 parse_u32
proof unfold_locales
  fix x :: u32
  have "uint x < 2 ^ 32" using uint_lt2p [of x] by simp
  then have "parse_uint (2 ^ 32 - 1) (show_dec (uint x)) = Some (uint x)"
    by (intro parse_uint_show) simp_all
  then show "parse_u32 (show_u32 x) = Some x" by (simp add: parse_u32_def show_u32_def)
  show "token (show_u32 x)" by (simp add: show_u32_def token_show_dec)
qed

section \<open>Debug formatting\<close>

text \<open>\<open>{:?}\<close> of a string and of a vector of strings: quotes, with the standard escapes.\<close>

definition hex_digit :: "int \<Rightarrow> char" where
  "hex_digit d = (if d < 10 then char_of (48 + d) else char_of (87 + d))"

fun show_hex :: "nat \<Rightarrow> int \<Rightarrow> string" where
  "show_hex 0 n = []"
| "show_hex (Suc k) n = show_hex k (n div 16) @ [hex_digit (n mod 16)]"

definition escape_char :: "char \<Rightarrow> string" where
  "escape_char c = (let n = of_char c :: int; bs = char_of (92 :: int) in
     if n = 34 \<or> n = 92 then [bs, c]
     else if n = 0 then [bs, CHR ''0'']
     else if n = 9 then [bs, CHR ''t'']
     else if n = 10 then [bs, CHR ''n'']
     else if n = 13 then [bs, CHR ''r'']
     else if n < 32 \<or> n = 127
     then [bs] @ ''u{'' @ (if n < 16 then show_hex 1 n else show_hex 2 n) @ ''}''
     else [c])"

definition debug_str :: "string \<Rightarrow> string" where
  "debug_str s = CHR 0x22 # concat (map escape_char s) @ [CHR 0x22]"

definition debug_strs :: "string list \<Rightarrow> string" where
  "debug_strs ss = ''['' @ str_join '', '' (map debug_str ss) @ '']''"

end
