(* ===== verification/F64.thy ===== *)
theory F64
  imports Prelude
begin

text \<open>
  Rust's \<open>f64\<close>: IEEE 754 binary64 with round-to-nearest-even, the arithmetic of the
  language itself, written out so that it computes. A finite non-zero value or
  +0 is the rational it denotes (\<open>Fin\<close>), -0 is \<open>NZero\<close>. Every operation
  computes the exact rational result and rounds it once (\<open>rnd\<close>). NaN payloads are not
  kept: nothing in the program reads them.
\<close>

section \<open>Powers of two and binary logarithms\<close>

function ilog2 :: "int \<Rightarrow> int" where
  "ilog2 n = (if n < 2 then 0 else 1 + ilog2 (n div 2))"
  by pat_completeness auto
termination
  by (relation "measure nat") auto

declare ilog2.simps [simp del]

definition pow2 :: "int \<Rightarrow> rat" where
  "pow2 e = (if 0 \<le> e then 2 ^ nat e else 1 / 2 ^ nat (- e))"

text \<open>Fast evaluation of the powers: repeated squaring on the integers.\<close>

function ipow2 :: "int \<Rightarrow> int" where
  "ipow2 e = (if e \<le> 0 then 1
     else let h = ipow2 (e div 2) in if even e then h * h else 2 * (h * h))"
  by pat_completeness auto
termination
  by (relation "measure nat") auto

declare ipow2.simps [simp del]

lemma ipow2_eq: "ipow2 e = 2 ^ nat e"
proof (induction e rule: ipow2.induct)
  case (1 e)
  show ?case
  proof (cases "e \<le> 0")
    case True
    then show ?thesis by (simp add: ipow2.simps [of e])
  next
    case False
    define n where "n = nat (e div 2)"
    have h: "ipow2 (e div 2) = 2 ^ n" using 1 False by (simp add: n_def)
    have "nat e = (if even e then n + n else Suc (n + n))"
      using False unfolding n_def by (auto elim!: evenE oddE simp: nat_add_distrib nat_mult_distrib)
    then show ?thesis using False by (simp add: ipow2.simps [of e] h power_add Let_def)
  qed
qed

lemma pow2_code [code]:
  "pow2 e = (if 0 \<le> e then of_int (ipow2 e) else 1 / of_int (ipow2 (- e)))"
  by (simp add: pow2_def ipow2_eq)

lemma pow2_pos [simp]: "0 < pow2 e"
  by (simp add: pow2_def)

lemma pow2_nonneg [simp]: "0 \<le> pow2 e"
  using pow2_pos [of e] by linarith

lemma pow2_nonzero [simp]: "pow2 e \<noteq> 0"
  using pow2_pos [of e] by linarith

lemma pow2_not_le_0 [simp]: "\<not> pow2 e \<le> 0"
  by (simp add: not_le)

lemma pow2_0 [simp]: "pow2 0 = 1"
  by (simp add: pow2_def)

lemma pow2_Suc: "pow2 (e + 1) = 2 * pow2 e"
proof (cases "0 \<le> e")
  case True
  then show ?thesis by (simp add: pow2_def nat_add_distrib)
next
  case False
  then have "nat (- e) = Suc (nat (- (e + 1)))" by simp
  then show ?thesis using False by (auto simp: pow2_def)
qed

lemma pow2_add_nat: "pow2 (e + int n) = pow2 e * 2 ^ n"
proof (induction n)
  case (Suc n)
  have "pow2 (e + int (Suc n)) = pow2 ((e + int n) + 1)" by (simp add: ac_simps)
  also have "\<dots> = 2 * pow2 (e + int n)" by (rule pow2_Suc)
  finally show ?case using Suc by simp
qed simp

lemma pow2_add: "pow2 (a + b) = pow2 a * pow2 b"
proof (cases "0 \<le> b")
  case True
  then show ?thesis using pow2_add_nat [of a "nat b"] by (simp add: pow2_def)
next
  case False
  have "pow2 ((a + b) + int (nat (- b))) = pow2 (a + b) * 2 ^ nat (- b)"
    by (rule pow2_add_nat)
  then show ?thesis using False by (simp add: pow2_def field_simps)
qed

lemma pow2_diff: "pow2 (a - b) = pow2 a / pow2 b"
  using pow2_add [of "a - b" b] by (simp add: field_simps)

lemma pow2_mono: "a \<le> b \<Longrightarrow> pow2 a \<le> pow2 b"
proof -
  assume "a \<le> b"
  then have "pow2 b = pow2 a * 2 ^ nat (b - a)" using pow2_add_nat [of a "nat (b - a)"] by simp
  moreover have "pow2 a * 1 \<le> pow2 a * 2 ^ nat (b - a)" by (rule mult_left_mono) simp_all
  ultimately show ?thesis by simp
qed

lemma pow2_less_iff [simp]: "pow2 a < pow2 b \<longleftrightarrow> a < b"
proof
  assume "a < b"
  then have "pow2 (a + 1) \<le> pow2 b" by (intro pow2_mono) simp
  then show "pow2 a < pow2 b" using pow2_pos [of a] unfolding pow2_Suc by linarith
next
  assume "pow2 a < pow2 b"
  then show "a < b" using pow2_mono [of b a] by (cases "a < b") auto
qed

lemma pow2_le_iff [simp]: "pow2 a \<le> pow2 b \<longleftrightarrow> a \<le> b"
  using pow2_less_iff [of b a] by (simp add: linorder_not_less [symmetric])

lemma pow2_Ints: "0 \<le> e \<Longrightarrow> pow2 e = of_int (2 ^ nat e)"
  by (simp add: pow2_def)

lemma ilog2_bounds: "0 < n \<Longrightarrow> pow2 (ilog2 n) \<le> of_int n \<and> of_int n < pow2 (ilog2 n + 1) \<and> 0 \<le> ilog2 n"
proof (induction n rule: ilog2.induct)
  case (1 n)
  show ?case
  proof (cases "n < 2")
    case True
    with 1 have "n = 1" by simp
    then show ?thesis by (simp add: ilog2.simps [of 1] pow2_def)
  next
    case False
    with 1 have IH: "pow2 (ilog2 (n div 2)) \<le> of_int (n div 2)"
      "of_int (n div 2) < pow2 (ilog2 (n div 2) + 1)" "0 \<le> ilog2 (n div 2)" by auto
    define k where "k = ilog2 (n div 2)"
    have k: "ilog2 n = k + 1" using False by (simp add: ilog2.simps [of n] k_def)
    have i: "pow2 (k + 1) = of_int (2 ^ nat (k + 1))" using IH(3) by (simp add: pow2_def k_def)
    have "of_int (n div 2) < (of_int (2 ^ nat (k + 1)) :: rat)" using IH(2) i by (simp add: k_def)
    then have "n div 2 < 2 ^ nat (k + 1)" by (simp only: of_int_less_iff)
    then have "n div 2 + 1 \<le> 2 ^ nat (k + 1)" by simp
    then have "n < 2 * 2 ^ nat (k + 1)" by linarith
    then have "(of_int n :: rat) < of_int (2 * 2 ^ nat (k + 1))" by (simp only: of_int_less_iff)
    then have up: "of_int n < 2 * pow2 (k + 1)" using i by simp
    have "2 * (n div 2) \<le> n" by simp
    then have "(of_int (2 * (n div 2)) :: rat) \<le> of_int n" by (simp only: of_int_le_iff)
    then have lo: "2 * pow2 k \<le> of_int n" using IH(1) by (simp add: k_def)
    show ?thesis using up lo IH(3) pow2_Suc [of "k + 1"] by (simp add: k pow2_Suc k_def)
  qed
qed

definition rat_log2 :: "rat \<Rightarrow> int" where
  "rat_log2 q = (case quotient_of q of (a, b) \<Rightarrow>
     let e = ilog2 a - ilog2 b in if pow2 e \<le> q then e else e - 1)"

lemma rat_log2_bounds:
  assumes "0 < q"
  shows "pow2 (rat_log2 q) \<le> q" and "q < pow2 (rat_log2 q + 1)"
proof -
  obtain a b where ab: "quotient_of q = (a, b)" by (cases "quotient_of q")
  have b: "0 < b" and q: "q = of_int a / of_int b"
    using ab by (auto simp: quotient_of_denom_pos intro: quotient_of_div)
  have a: "0 < a" using assms b q by (simp add: zero_less_divide_iff)
  let ?A = "ilog2 a" and ?B = "ilog2 b"
  have A: "pow2 ?A \<le> of_int a" "of_int a < 2 * pow2 ?A"
    and B: "pow2 ?B \<le> of_int b" "of_int b < 2 * pow2 ?B"
    using ilog2_bounds [OF a] ilog2_bounds [OF b] by (auto simp: pow2_Suc)
  have bpos: "(0 :: rat) < of_int b" using b by simp
  have hi: "q < pow2 (?A - ?B + 1)"
  proof -
    have "of_int a * pow2 ?B < 2 * pow2 ?A * of_int b"
      using A(2) B(1) bpos pow2_pos [of ?B] pow2_pos [of ?A]
      by (meson mult_less_le_imp_less of_int_0_le_iff a less_imp_le)
    then show ?thesis unfolding pow2_Suc using bpos by (simp add: q pow2_diff field_simps)
  qed
  have lo: "pow2 (?A - ?B - 1) \<le> q"
  proof -
    have "pow2 ?A * of_int b \<le> of_int a * (2 * pow2 ?B)"
      using A(1) B(2) bpos a by (intro mult_mono) auto
    then have "pow2 (?A - ?B) \<le> 2 * q" using bpos by (simp add: q pow2_diff field_simps)
    then show ?thesis using pow2_Suc [of "?A - ?B - 1"] by simp
  qed
  show "pow2 (rat_log2 q) \<le> q" using lo by (simp add: rat_log2_def ab Let_def)
  show "q < pow2 (rat_log2 q + 1)" using hi by (simp add: rat_log2_def ab Let_def)
qed

lemma rat_log2_eqI:
  assumes "pow2 e \<le> q" and "q < pow2 (e + 1)"
  shows "rat_log2 q = e"
proof -
  have q: "0 < q" using assms(1) pow2_pos [of e] by linarith
  have "pow2 (rat_log2 q) < pow2 (e + 1)" "pow2 e < pow2 (rat_log2 q + 1)"
    using rat_log2_bounds [OF q] assms by linarith+
  then show ?thesis by simp
qed

lemma rat_log2_mono:
  assumes "0 < q" and "q \<le> r"
  shows "rat_log2 q \<le> rat_log2 r"
proof -
  have "pow2 (rat_log2 q) < pow2 (rat_log2 r + 1)"
    using rat_log2_bounds [of q] rat_log2_bounds [of r] assms by linarith
  then show ?thesis by simp
qed

section \<open>Rounding\<close>

text \<open>Round half to even, on the integers.\<close>

definition rne :: "rat \<Rightarrow> int" where
  "rne x = (let f = \<lfloor>x\<rfloor>; d = x - of_int f in
     if d < 1 / 2 then f else if 1 / 2 < d then f + 1 else if even f then f else f + 1)"

lemma rne_of_int [simp]: "rne (of_int n) = n"
  by (simp add: rne_def)

lemma rne_floor: "rne x = \<lfloor>x\<rfloor> \<or> rne x = \<lfloor>x\<rfloor> + 1"
  by (simp add: rne_def Let_def)

lemma rne_mono:
  assumes "x \<le> y"
  shows "rne x \<le> rne y"
proof (cases "\<lfloor>x\<rfloor> < \<lfloor>y\<rfloor>")
  case True
  then show ?thesis using rne_floor [of x] rne_floor [of y] by linarith
next
  case False
  then have "\<lfloor>x\<rfloor> = \<lfloor>y\<rfloor>" using floor_mono [OF assms] by linarith
  then show ?thesis using assms by (simp add: rne_def Let_def)
qed

lemma rne_minus: "rne (- x) = - rne x"
proof (cases "x = of_int \<lfloor>x\<rfloor>")
  case True
  then have "- x = of_int (- \<lfloor>x\<rfloor>)" by simp
  then have "rne (- x) = - \<lfloor>x\<rfloor>" using rne_of_int by metis
  moreover have "rne x = \<lfloor>x\<rfloor>" using True rne_of_int by metis
  ultimately show ?thesis by simp
next
  case False
  have "\<lfloor>- x\<rfloor> = - \<lfloor>x\<rfloor> - 1"
    using False by (intro floor_unique) (auto simp: algebra_simps, linarith+)
  then show ?thesis by (simp add: rne_def Let_def) (linarith?)
qed

lemma rne_error: "\<bar>of_int (rne x) - x\<bar> \<le> 1 / 2"
  unfolding rne_def Let_def using floor_correct [of x] by (auto split: if_splits)

definition ulp_exp :: "rat \<Rightarrow> int" where
  "ulp_exp q = max (rat_log2 \<bar>q\<bar> - 52) (- 1074)"

definition rnd_fin :: "rat \<Rightarrow> rat" where
  "rnd_fin q = (if q = 0 then 0 else of_int (rne (q / pow2 (ulp_exp q))) * pow2 (ulp_exp q))"

lemma rnd_fin_0 [simp]: "rnd_fin 0 = 0"
  by (simp add: rnd_fin_def)

lemma rnd_fin_minus [simp]: "rnd_fin (- q) = - rnd_fin q"
  by (simp add: rnd_fin_def ulp_exp_def rne_minus)

lemma rnd_fin_nonneg: "0 \<le> q \<Longrightarrow> 0 \<le> rnd_fin q"
  using rne_mono [of 0 "q / pow2 (ulp_exp q)"] rne_of_int [of 0] by (auto simp: rnd_fin_def)

lemma rnd_fin_mono_pos:
  assumes "0 < q" and "q \<le> r"
  shows "rnd_fin q \<le> rnd_fin r"
proof (cases "ulp_exp q = ulp_exp r")
  case True
  have "rne (q / pow2 (ulp_exp r)) \<le> rne (r / pow2 (ulp_exp r))"
    using assms by (intro rne_mono divide_right_mono) auto
  then show ?thesis using assms True by (simp add: rnd_fin_def)
next
  case False
  let ?E = "ulp_exp q" and ?F = "ulp_exp r" and ?B = "pow2 (rat_log2 r)"
  have le: "rat_log2 q \<le> rat_log2 r" using assms by (rule rat_log2_mono)
  have F: "?F = rat_log2 r - 52" and EF: "?E < ?F"
    using False le assms by (auto simp: ulp_exp_def max_def split: if_splits)
  have L: "rat_log2 q < rat_log2 r" using EF F assms by (auto simp: ulp_exp_def)
  have "q < pow2 (rat_log2 q + 1)" using assms rat_log2_bounds by simp
  also have "\<dots> \<le> ?B" using L by (intro pow2_mono) simp
  finally have qB: "q \<le> ?B" by simp
  have Br: "?B \<le> r" using assms rat_log2_bounds by simp
  have E1: "?B / pow2 ?E = of_int (2 ^ nat (rat_log2 r - ?E))"
    using EF F pow2_Ints [of "rat_log2 r - ?E"] by (simp add: pow2_diff)
  have F1: "?B / pow2 ?F = of_int (2 ^ nat (rat_log2 r - ?F))"
    using F pow2_Ints [of "rat_log2 r - ?F"] by (simp add: pow2_diff)
  have "rne (q / pow2 ?E) \<le> rne (?B / pow2 ?E)"
    using qB by (intro rne_mono divide_right_mono) auto
  then have "rne (q / pow2 ?E) \<le> 2 ^ nat (rat_log2 r - ?E)" by (simp add: E1 del: of_int_power)
  then have "of_int (rne (q / pow2 ?E)) \<le> (of_int (2 ^ nat (rat_log2 r - ?E)) :: rat)"
    by (simp only: of_int_le_iff)
  then have "rnd_fin q \<le> ?B / pow2 ?E * pow2 ?E"
    unfolding E1 using assms by (simp add: rnd_fin_def mult_right_mono)
  then have 1: "rnd_fin q \<le> ?B" by simp
  have "rne (?B / pow2 ?F) \<le> rne (r / pow2 ?F)"
    using Br by (intro rne_mono divide_right_mono) auto
  then have "2 ^ nat (rat_log2 r - ?F) \<le> rne (r / pow2 ?F)" by (simp add: F1 del: of_int_power)
  then have "(of_int (2 ^ nat (rat_log2 r - ?F)) :: rat) \<le> of_int (rne (r / pow2 ?F))"
    by (simp only: of_int_le_iff)
  then have "?B / pow2 ?F * pow2 ?F \<le> rnd_fin r"
    unfolding F1 using assms by (simp add: rnd_fin_def mult_right_mono)
  then have 2: "?B \<le> rnd_fin r" by simp
  from 1 2 show ?thesis by simp
qed

lemma rnd_fin_mono:
  assumes "q \<le> r"
  shows "rnd_fin q \<le> rnd_fin r"
proof -
  consider "0 < q" | "q \<le> 0" "0 \<le> r" | "r < 0" by linarith
  then show ?thesis
  proof cases
    case 1
    then show ?thesis using assms by (rule rnd_fin_mono_pos)
  next
    case 2
    then show ?thesis using rnd_fin_nonneg [of r] rnd_fin_nonneg [of "- q"] by simp
  next
    case 3
    then have "rnd_fin (- r) \<le> rnd_fin (- q)" using assms by (intro rnd_fin_mono_pos) auto
    then show ?thesis by simp
  qed
qed

text \<open>The rationals a finite binary64 can hold are the fixed points of rounding.\<close>

definition dyadic53 :: "rat \<Rightarrow> bool" where
  "dyadic53 q \<longleftrightarrow> (\<exists>m e. q = of_int m * pow2 e \<and> - 1074 \<le> e \<and> \<bar>m\<bar> < 2 ^ 53)"

lemma rnd_fin_exact:
  assumes "dyadic53 q"
  shows "rnd_fin q = q"
proof (cases "q = 0")
  case False
  obtain m e where q: "q = of_int m * pow2 e" and e: "- 1074 \<le> e" and m: "\<bar>m\<bar> < 2 ^ 53"
    using assms by (auto simp: dyadic53_def)
  have "(of_int \<bar>m\<bar> :: rat) < of_int (2 ^ 53)" using m by (simp only: of_int_less_iff)
  then have "of_int \<bar>m\<bar> < pow2 53" by (simp add: pow2_def)
  then have "\<bar>q\<bar> < pow2 (53 + e)" by (simp add: q abs_mult pow2_add)
  moreover have "pow2 (rat_log2 \<bar>q\<bar>) \<le> \<bar>q\<bar>" using False rat_log2_bounds by simp
  ultimately have "pow2 (rat_log2 \<bar>q\<bar>) < pow2 (53 + e)" by linarith
  then have E: "ulp_exp q \<le> e" using e by (simp add: ulp_exp_def)
  have "q / pow2 (ulp_exp q) = of_int m * pow2 (e - ulp_exp q)" by (simp add: q pow2_diff)
  also have "\<dots> = of_int (m * 2 ^ nat (e - ulp_exp q))" using E by (simp add: pow2_def)
  finally have i: "q / pow2 (ulp_exp q) = of_int (m * 2 ^ nat (e - ulp_exp q))" .
  then have "rnd_fin q = q / pow2 (ulp_exp q) * pow2 (ulp_exp q)"
    using False unfolding rnd_fin_def i rne_of_int by simp
  then show ?thesis by simp
qed simp

lemma dyadic53_0 [simp]: "dyadic53 0"
  unfolding dyadic53_def by (rule exI [of _ 0], rule exI [of _ 0]) simp

lemma dyadic53_minus [simp]: "dyadic53 (- q) = dyadic53 q"
proof -
  have "dyadic53 (- r)" if r: "dyadic53 r" for r
  proof -
    obtain m e where "r = of_int m * pow2 e" "- 1074 \<le> e" "\<bar>m\<bar> < 2 ^ 53"
      using r by (auto simp: dyadic53_def)
    then show ?thesis unfolding dyadic53_def
      by - (rule exI [where x = "- m"], rule exI [where x = e], simp)
  qed
  from this [of q] this [of "- q"] show ?thesis by auto
qed

lemma dyadic53_of_int:
  assumes "\<bar>n\<bar> \<le> 2 ^ 53"
  shows "dyadic53 (of_int n)"
proof (cases "\<bar>n\<bar> = 2 ^ 53")
  case False
  then have "\<bar>n\<bar> < 2 ^ 53" using assms by linarith
  then show ?thesis unfolding dyadic53_def
    by - (rule exI [where x = n], rule exI [where x = 0], simp)
next
  case True
  then have "n = 2 ^ 53 \<or> n = - (2 ^ 53)" by linarith
  moreover have "dyadic53 (of_int (2 ^ 53))"
    unfolding dyadic53_def
    by (rule exI [where x = "2 ^ 52"], rule exI [where x = 1]) (simp add: pow2_def)
  moreover from this have "dyadic53 (- of_int (2 ^ 53))" by simp
  ultimately show ?thesis by auto
qed

lemma rnd_fin_of_int: "\<bar>n\<bar> \<le> 2 ^ 53 \<Longrightarrow> rnd_fin (of_int n) = of_int n"
  by (intro rnd_fin_exact dyadic53_of_int)

section \<open>The type and its operations\<close>

datatype f64 = NaN | PInf | NInf | NZero | Fin rat

text \<open>The value of a finite number, both zeros being 0.\<close>

fun val :: "f64 \<Rightarrow> rat" where
  "val (Fin q) = q"
| "val _ = 0"

fun f_finite :: "f64 \<Rightarrow> bool" where
  "f_finite (Fin _) = True"
| "f_finite NZero = True"
| "f_finite _ = False"

text \<open>Is the sign bit set?\<close>

fun signbit :: "f64 \<Rightarrow> bool" where
  "signbit NInf = True"
| "signbit NZero = True"
| "signbit (Fin q) = (q < 0)"
| "signbit _ = False"

text \<open>The rounding of an exact rational: overflow goes to an infinity, a negative underflow to -0.\<close>

definition rnd :: "rat \<Rightarrow> f64" where
  "rnd q = (let r = rnd_fin q in
     if pow2 1024 \<le> r then PInf
     else if r \<le> - pow2 1024 then NInf
     else if r = 0 \<and> q < 0 then NZero
     else Fin r)"

definition inf_of :: "bool \<Rightarrow> f64" where
  "inf_of neg = (if neg then NInf else PInf)"

definition zero_of :: "bool \<Rightarrow> f64" where
  "zero_of neg = (if neg then NZero else Fin 0)"

fun f_neg :: "f64 \<Rightarrow> f64" where
  "f_neg NaN = NaN"
| "f_neg PInf = NInf"
| "f_neg NInf = PInf"
| "f_neg NZero = Fin 0"
| "f_neg (Fin q) = (if q = 0 then NZero else Fin (- q))"

definition f_add :: "f64 \<Rightarrow> f64 \<Rightarrow> f64" where
  "f_add x y =
     (if x = NaN \<or> y = NaN then NaN
      else if \<not> f_finite x then (if \<not> f_finite y \<and> x \<noteq> y then NaN else x)
      else if \<not> f_finite y then y
      else if x = NZero \<and> y = NZero then NZero
      else rnd (val x + val y))"

definition f_mul :: "f64 \<Rightarrow> f64 \<Rightarrow> f64" where
  "f_mul x y =
     (let s = (signbit x \<noteq> signbit y) in
      if x = NaN \<or> y = NaN then NaN
      else if \<not> f_finite x then (if f_finite y \<and> val y = 0 then NaN else inf_of s)
      else if \<not> f_finite y then (if val x = 0 then NaN else inf_of s)
      else if val x = 0 \<or> val y = 0 then zero_of s
      else rnd (val x * val y))"

definition f_div :: "f64 \<Rightarrow> f64 \<Rightarrow> f64" where
  "f_div x y =
     (let s = (signbit x \<noteq> signbit y) in
      if x = NaN \<or> y = NaN then NaN
      else if \<not> f_finite x then (if f_finite y then inf_of s else NaN)
      else if \<not> f_finite y then zero_of s
      else if val y = 0 then (if val x = 0 then NaN else inf_of s)
      else if val x = 0 then zero_of s
      else rnd (val x / val y))"

fun f_abs :: "f64 \<Rightarrow> f64" where
  "f_abs NInf = PInf"
| "f_abs NZero = Fin 0"
| "f_abs (Fin q) = Fin \<bar>q\<bar>"
| "f_abs x = x"

text \<open>Rust's comparisons: every one of them is false on a NaN.\<close>

fun f_less :: "f64 \<Rightarrow> f64 \<Rightarrow> bool" where
  "f_less NaN _ = False"
| "f_less _ NaN = False"
| "f_less PInf _ = False"
| "f_less _ NInf = False"
| "f_less NInf _ = True"
| "f_less _ PInf = True"
| "f_less x y = (val x < val y)"

fun f_eq :: "f64 \<Rightarrow> f64 \<Rightarrow> bool" where
  "f_eq NaN _ = False"
| "f_eq _ NaN = False"
| "f_eq PInf y = (y = PInf)"
| "f_eq NInf y = (y = NInf)"
| "f_eq x PInf = False"
| "f_eq x NInf = False"
| "f_eq x y = (val x = val y)"

text \<open>\<open>f64::max\<close>: a NaN argument loses against a number.\<close>

definition f_max :: "f64 \<Rightarrow> f64 \<Rightarrow> f64" where
  "f_max x y = (if x = NaN then y else if y = NaN then x else if f_less x y then y else x)"

text \<open>
  The operators of the code: \<open>+\<close>, \<open>-\<close>, \<open>*\<close>, \<open>/\<close>, \<open><\<close>, \<open><=\<close>, \<open>abs\<close>. The classes are
  the purely syntactic ones, no algebraic law is claimed; \<open>==\<close> is \<open>f_eq\<close>.
\<close>

instantiation f64 :: "{zero, one, plus, minus, uminus, times, inverse, abs, ord}"
begin

definition zero_f64 :: f64 where "0 = Fin 0"

definition one_f64 :: f64 where "1 = Fin 1"

definition plus_f64 :: "f64 \<Rightarrow> f64 \<Rightarrow> f64" where "x + y = f_add x y"

definition uminus_f64 :: "f64 \<Rightarrow> f64" where "- x = f_neg x"

definition minus_f64 :: "f64 \<Rightarrow> f64 \<Rightarrow> f64" where "x - y = f_add x (f_neg y)"

definition times_f64 :: "f64 \<Rightarrow> f64 \<Rightarrow> f64" where "x * y = f_mul x y"

definition divide_f64 :: "f64 \<Rightarrow> f64 \<Rightarrow> f64" where "x div y = f_div x y"

definition inverse_f64 :: "f64 \<Rightarrow> f64" where "inverse x = f_div (Fin 1) x"

definition abs_f64 :: "f64 \<Rightarrow> f64" where "\<bar>x\<bar> = f_abs x"

definition less_f64 :: "f64 \<Rightarrow> f64 \<Rightarrow> bool" where "x < y \<longleftrightarrow> f_less x y"

definition less_eq_f64 :: "f64 \<Rightarrow> f64 \<Rightarrow> bool" where "x \<le> y \<longleftrightarrow> f_less x y \<or> f_eq x y"

instance ..

end

text \<open>Conversions: \<open>n as f64\<close> and decimal literals, both correctly rounded.\<close>

definition f_of_nat :: "nat \<Rightarrow> f64" where
  "f_of_nat n = rnd (of_nat n)"

definition f_of_u64 :: "u64 \<Rightarrow> f64" where
  "f_of_u64 w = rnd (of_int (uint w))"

definition f_lit :: "rat \<Rightarrow> f64" where
  "f_lit q = rnd q"

text \<open>
  \<open>iter().sum::<f64>()\<close>: the fold of the standard library starts from -0.0, the neutral
  element of floating-point addition.
\<close>

definition f_sum :: "f64 list \<Rightarrow> f64" where
  "f_sum xs = foldl (+) NZero xs"

section \<open>Square root\<close>

function isqrt :: "int \<Rightarrow> int" where
  "isqrt n = (if n \<le> 0 then 0
     else let r = 2 * isqrt (n div 4) in if (r + 1) * (r + 1) \<le> n then r + 1 else r)"
  by pat_completeness auto
termination
  by (relation "measure nat") auto

declare isqrt.simps [simp del]

lemma isqrt_bounds:
  "0 \<le> n \<Longrightarrow> 0 \<le> isqrt n \<and> isqrt n * isqrt n \<le> n \<and> n < (isqrt n + 1) * (isqrt n + 1)"
proof (induction n rule: isqrt.induct)
  case (1 n)
  show ?case
  proof (cases "n \<le> 0")
    case True
    with 1 have "n = 0" by simp
    then show ?thesis by (simp add: isqrt.simps [of 0])
  next
    case False
    define s where "s = isqrt (n div 4)"
    have IH: "0 \<le> s" "s * s \<le> n div 4" "n div 4 < (s + 1) * (s + 1)"
      using 1 False by (auto simp: s_def)
    have "4 * (s * s) \<le> n" "n < 4 * ((s + 1) * (s + 1))" using IH by linarith+
    then have lo: "2 * s * (2 * s) \<le> n" and hi: "n < (2 * s + 1 + 1) * (2 * s + 1 + 1)"
      by (auto simp: algebra_simps)
    show ?thesis using False IH(1) lo hi
      by (auto simp: isqrt.simps [of n] Let_def s_def [symmetric])
  qed
qed

text \<open>The integer nearest to the square root of a rational, halves to even.\<close>

definition rne_sqrt :: "rat \<Rightarrow> int" where
  "rne_sqrt y = (let n = isqrt \<lfloor>y\<rfloor>; h = (of_int n + 1 / 2) * (of_int n + 1 / 2) in
     if y < h then n else if h < y then n + 1 else if even n then n else n + 1)"

definition sqrt_exp :: "rat \<Rightarrow> int" where
  "sqrt_exp q = max (rat_log2 q div 2 - 52) (- 1074)"

fun f_sqrt :: "f64 \<Rightarrow> f64" where
  "f_sqrt PInf = PInf"
| "f_sqrt NZero = NZero"
| "f_sqrt (Fin q) =
     (if q < 0 then NaN
      else if q = 0 then Fin 0
      else Fin (of_int (rne_sqrt (q / pow2 (2 * sqrt_exp q))) * pow2 (sqrt_exp q)))"
| "f_sqrt _ = NaN"

lemma rne_sqrt_error:
  assumes "0 \<le> y"
  shows "\<bar>of_int (rne_sqrt y) - sqrt (of_rat y)\<bar> \<le> 1 / 2"
proof -
  define n where "n = isqrt \<lfloor>y\<rfloor>"
  define x :: real where "x = of_rat y"
  have fl: "0 \<le> \<lfloor>y\<rfloor>" using assms by simp
  have n0: "0 \<le> n" and n1: "n * n \<le> \<lfloor>y\<rfloor>" and n2: "\<lfloor>y\<rfloor> < (n + 1) * (n + 1)"
    using isqrt_bounds [OF fl] by (auto simp: n_def)
  have flx: "\<lfloor>x\<rfloor> = \<lfloor>y\<rfloor>" by (simp add: x_def)
  have x0: "0 \<le> x" using assms by (simp add: x_def)
  have "n * n \<le> \<lfloor>x\<rfloor>" using n1 flx by simp
  then have "real_of_int (n * n) \<le> x" by (simp only: le_floor_iff)
  then have lo: "of_int n \<le> sqrt x" by (intro real_le_rsqrt) (simp add: power2_eq_square)
  have "\<lfloor>x\<rfloor> < (n + 1) * (n + 1)" using n2 flx by simp
  then have "x < real_of_int ((n + 1) * (n + 1))" by (simp only: floor_less_iff)
  then have hi: "sqrt x < of_int n + 1" using n0
    by (intro real_less_lsqrt) (simp_all add: power2_eq_square x0)
  let ?h = "(of_int n + 1 / 2) * (of_int n + 1 / 2)"
  have hx: "(of_rat (?h :: rat) :: real) = (of_int n + 1 / 2)\<^sup>2"
    by (simp add: of_rat_mult of_rat_add of_rat_divide power2_eq_square)
  have c1: "sqrt x \<le> of_int n + 1 / 2" if "y \<le> ?h"
  proof -
    have "x \<le> of_rat ?h" using that by (simp add: x_def of_rat_less_eq)
    then show ?thesis unfolding hx using n0 by (intro real_le_lsqrt) (simp_all add: x0)
  qed
  have c2: "of_int n + 1 / 2 \<le> sqrt x" if "?h \<le> y"
  proof -
    have "of_rat ?h \<le> x" using that by (simp add: x_def of_rat_less_eq)
    then show ?thesis unfolding hx by (intro real_le_rsqrt) simp
  qed
  consider "rne_sqrt y = n" "y \<le> ?h" | "rne_sqrt y = n + 1" "?h \<le> y"
    by (cases "y < ?h"; cases "?h < y"; cases "even n") (auto simp: rne_sqrt_def n_def Let_def)
  then show ?thesis
  proof cases
    case 1
    then show ?thesis using c1 lo by (simp add: x_def)
  next
    case 2
    then show ?thesis using c2 hi by (simp add: x_def abs_le_iff)
  qed
qed

section \<open>Laws the components use\<close>

named_theorems f64_defs

lemmas f64_op_defs [f64_defs] =
  zero_f64_def one_f64_def plus_f64_def uminus_f64_def minus_f64_def times_f64_def
  divide_f64_def abs_f64_def less_f64_def less_eq_f64_def

lemma rnd_0 [simp]: "rnd 0 = Fin 0"
  by (simp add: rnd_def Let_def)

lemma rnd_not_NaN [simp]: "rnd q \<noteq> NaN"
  by (simp add: rnd_def Let_def)

lemma f_less_irrefl [simp]: "\<not> f_less x x"
  by (cases x) auto

lemma f_less_trans: "f_less x y \<Longrightarrow> f_less y z \<Longrightarrow> f_less x z"
  by (cases x; cases y; cases z) auto

lemma f_eq_refl: "f_eq x x \<longleftrightarrow> x \<noteq> NaN"
  by (cases x) auto

lemma f_eq_sym: "f_eq x y \<longleftrightarrow> f_eq y x"
  by (cases x; cases y) auto

lemma f_less_not_eq: "f_less x y \<Longrightarrow> \<not> f_eq x y"
  by (cases x; cases y) auto

lemma f_total: "x \<noteq> NaN \<Longrightarrow> y \<noteq> NaN \<Longrightarrow> f_less x y \<or> f_eq x y \<or> f_less y x"
  by (cases x; cases y) auto

lemma f_le_trans: "(x :: f64) \<le> y \<Longrightarrow> y \<le> z \<Longrightarrow> x \<le> z"
  by (cases x; cases y; cases z) (auto simp: f64_defs)

lemma f_less_le_trans: "(x :: f64) < y \<Longrightarrow> y \<le> z \<Longrightarrow> x < z"
  by (cases x; cases y; cases z) (auto simp: f64_defs)

lemma f_le_less_trans: "(x :: f64) \<le> y \<Longrightarrow> y < z \<Longrightarrow> x < z"
  by (cases x; cases y; cases z) (auto simp: f64_defs)

lemma f_not_less: "x \<noteq> NaN \<Longrightarrow> y \<noteq> NaN \<Longrightarrow> \<not> x < y \<longleftrightarrow> y \<le> (x :: f64)"
  by (cases x; cases y) (auto simp: f64_defs)

lemma NaN_not_less [simp]: "\<not> NaN < x" "\<not> x < NaN"
  by (cases x; simp add: f64_defs)+

lemma NaN_not_le [simp]: "\<not> NaN \<le> x" "\<not> x \<le> NaN"
  by (cases x; simp add: f64_defs)+

lemma rnd_mono:
  assumes "q \<le> r"
  shows "rnd q \<le> rnd r"
proof -
  have "rnd_fin q \<le> rnd_fin r" using assms by (rule rnd_fin_mono)
  moreover have "0 < pow2 1024" by simp
  ultimately show ?thesis using assms
    by (auto simp: rnd_def Let_def f64_defs)
qed

lemma rnd_exact:
  assumes "dyadic53 q" and "\<bar>q\<bar> < pow2 1024"
  shows "rnd q = Fin q"
proof -
  have r: "rnd_fin q = q" using assms(1) by (rule rnd_fin_exact)
  have "\<not> pow2 1024 \<le> q" "\<not> q \<le> - pow2 1024" using assms(2) by linarith+
  then show ?thesis by (simp add: rnd_def r)
qed

lemma rnd_of_int:
  assumes "\<bar>n\<bar> \<le> 2 ^ 53"
  shows "rnd (of_int n) = Fin (of_int n)"
proof (rule rnd_exact)
  show "dyadic53 (of_int n)" using assms by (rule dyadic53_of_int)
  have "(of_int \<bar>n\<bar> :: rat) \<le> of_int (2 ^ 53)" using assms by (simp only: of_int_le_iff)
  also have "\<dots> = pow2 53" by (simp add: pow2_def)
  also have "\<dots> < pow2 1024" by simp
  finally show "\<bar>of_int n\<bar> < pow2 1024" by simp
qed

lemma f_of_nat_exact: "n \<le> 2 ^ 53 \<Longrightarrow> f_of_nat n = Fin (of_nat n)"
  using rnd_of_int [of "int n"] by (simp add: f_of_nat_def)

lemma rnd_1 [simp]: "rnd 1 = Fin 1"
  using rnd_of_int [of 1] by simp

lemma f_add_commute: "(x :: f64) + y = y + x"
  by (cases x; cases y) (auto simp: f64_defs f_add_def ac_simps)

lemma f_sub_self: "(x :: f64) - x = (if f_finite x then 0 else NaN)"
  by (cases x) (auto simp: f64_defs f_add_def)

lemma f_abs_zero [simp]: "\<bar>0 :: f64\<bar> = 0"
  by (simp add: f64_defs)

lemma f_abs_nonneg: "x \<noteq> NaN \<Longrightarrow> 0 \<le> \<bar>x :: f64\<bar>"
  by (cases x) (auto simp: f64_defs)

lemma f_mul_self_nonneg: "(x :: f64) * x = NaN \<or> 0 \<le> x * x"
proof (cases x)
  case (Fin q)
  have "rnd 0 \<le> rnd (q * q)" by (intro rnd_mono) simp
  then show ?thesis using Fin by (auto simp: f64_defs f_mul_def zero_of_def)
qed (auto simp: f64_defs f_mul_def inf_of_def zero_of_def)

lemma f_add_nonneg:
  assumes "0 \<le> (x :: f64)" and "0 \<le> y"
  shows "0 \<le> x + y"
proof (cases "x \<noteq> NZero \<and> y \<noteq> NZero \<and> f_finite x \<and> f_finite y")
  case True
  then obtain q r where "x = Fin q" "y = Fin r" by (cases x; cases y) auto
  moreover from this have "rnd 0 \<le> rnd (q + r)"
    using assms by (intro rnd_mono) (auto simp: f64_defs)
  ultimately show ?thesis by (simp add: f64_defs f_add_def)
next
  case False
  have z: "f_eq (Fin 0) (rnd q) \<or> f_less (Fin 0) (rnd q)" if "0 < q" for q
    using rnd_mono [of 0 q] that by (auto simp: f64_defs)
  show ?thesis using False assms
    by (cases x; cases y) (auto simp: f64_defs f_add_def dest: z)
qed

lemma rnd_unit_interval:
  assumes "0 \<le> q" and "q \<le> 1"
  shows "0 \<le> rnd q" and "rnd q \<le> 1"
  using rnd_mono [OF assms(1)] rnd_mono [OF assms(2)] by (simp_all add: f64_defs)

text \<open>Evaluation compares the binary exponent of the rounded value, not the value, with the limit.\<close>

lemma pow2_1024_le:
  assumes "0 < x"
  shows "pow2 1024 \<le> x \<longleftrightarrow> \<not> rat_log2 x < 1024"
  using rat_log2_bounds [OF assms] pow2_le_iff [of 1024 "rat_log2 x"]
    pow2_le_iff [of "rat_log2 x + 1" 1024]
  by linarith

lemma rnd_code [code]: "rnd q = (let r = rnd_fin q in
     if r = 0 then (if q < 0 then NZero else Fin 0)
     else if rat_log2 \<bar>r\<bar> < 1024 then Fin r
     else if 0 < r then PInf else NInf)"
proof -
  have neg: "\<not> pow2 1024 \<le> x" if "x \<le> 0" for x
    using that pow2_pos [of 1024] by linarith
  consider "rnd_fin q = 0" | "0 < rnd_fin q" | "rnd_fin q < 0" by linarith
  then show ?thesis
  proof cases
    case 1
    then show ?thesis using neg [of 0] by (simp add: rnd_def)
  next
    case 2
    then show ?thesis using pow2_1024_le [OF 2] neg [of "- rnd_fin q"]
      by (auto simp: rnd_def Let_def le_minus_iff)
  next
    case 3
    then have "0 < - rnd_fin q" by simp
    then show ?thesis using 3 pow2_1024_le [of "- rnd_fin q"] neg [of "rnd_fin q"]
      by (auto simp: rnd_def Let_def le_minus_iff)
  qed
qed

end
