(* ===== verification/Json.thy ===== *)
theory Json
  imports OrdMap Decimal F64
begin

text \<open>
  The values of \<open>serde_json::Value\<close> as its documentation gives them: the six
  constructors, the three number representations (a non-negative integer of 64 bits,
  a negative one, a binary64), an object as a \<open>BTreeMap\<close>, and the partial readers
  \<open>get\<close>, \<open>as_str\<close>, \<open>as_bool\<close>, \<open>as_u64\<close>, \<open>as_f64\<close>, \<open>as_array\<close>, \<open>as_object\<close>.
  Parsing and printing JSON text is code the repository does not contain: where a
  component prints a value, the printer is a parameter of the definition.
\<close>

section \<open>Reading a binary64\<close>

text \<open>\<open>f64::from_str\<close> of the standard library.\<close>

definition pow10 :: "int \<Rightarrow> rat" where
  "pow10 e = (if 0 \<le> e then 10 ^ nat e else 1 / 10 ^ nat (- e))"

text \<open>The exponent after \<open>e\<close>: an optional sign and at least one digit.\<close>

definition parse_exponent :: "string \<Rightarrow> int option" where
  "parse_exponent s = (case s of [] \<Rightarrow> Some 0
     | c # r \<Rightarrow>
         if c \<noteq> CHR ''e'' \<and> c \<noteq> CHR ''E'' then None
         else let neg = (r \<noteq> [] \<and> hd r = CHR ''-'');
           ds = (if r \<noteq> [] \<and> (hd r = CHR ''-'' \<or> hd r = CHR ''+'') then tl r else r)
           in if ds = [] \<or> \<not> list_all is_ascii_digit ds then None
              else Some (if neg then - dec_value ds else dec_value ds))"

definition parse_magnitude :: "string \<Rightarrow> f64 option" where
  "parse_magnitude s = (let ip = takeWhile is_ascii_digit s; r = dropWhile is_ascii_digit s;
     (fp, r') = (if r \<noteq> [] \<and> hd r = CHR ''.''
        then (takeWhile is_ascii_digit (tl r), dropWhile is_ascii_digit (tl r)) else ([], r))
     in if to_lower s = ''inf'' \<or> to_lower s = ''infinity'' then Some PInf
        else if to_lower s = ''nan'' then Some NaN
        else if ip = [] \<and> fp = [] then None
        else map_option (\<lambda>e. rnd (of_int (dec_value (ip @ fp)) * pow10 (e - int (length fp))))
          (parse_exponent r'))"

definition parse_f64 :: "string \<Rightarrow> f64 option" where
  "parse_f64 s = (case s of
     c # r \<Rightarrow> if c = CHR ''-'' then map_option f_neg (parse_magnitude r)
       else if c = CHR ''+'' then parse_magnitude r else parse_magnitude s
   | [] \<Rightarrow> None)"

section \<open>Values\<close>

datatype jnum = PosInt u64 | NegInt u64 | Float f64

datatype json = JNull | JBool bool | JNumber jnum | JString string
  | JArray "json list" | JObject "(string \<times> json) list"

text \<open>The non-negative and negative integers share \<open>u64\<close>: \<open>NegInt w\<close> is \<open>sint w\<close>.\<close>

fun num_as_f64 :: "jnum \<Rightarrow> f64" where
  "num_as_f64 (PosInt w) = f_of_u64 w"
| "num_as_f64 (NegInt w) = rnd (of_int (sint w))"
| "num_as_f64 (Float x) = x"

fun jget :: "json \<Rightarrow> string \<Rightarrow> json option" where
  "jget (JObject m) k = bm_get m k"
| "jget _ k = None"

fun as_str :: "json \<Rightarrow> string option" where
  "as_str (JString s) = Some s"
| "as_str _ = None"

fun as_bool :: "json \<Rightarrow> bool option" where
  "as_bool (JBool b) = Some b"
| "as_bool _ = None"

fun as_u64 :: "json \<Rightarrow> u64 option" where
  "as_u64 (JNumber (PosInt w)) = Some w"
| "as_u64 _ = None"

fun as_f64 :: "json \<Rightarrow> f64 option" where
  "as_f64 (JNumber n) = Some (num_as_f64 n)"
| "as_f64 _ = None"

fun as_array :: "json \<Rightarrow> json list option" where
  "as_array (JArray xs) = Some xs"
| "as_array _ = None"

fun as_object :: "json \<Rightarrow> (string \<times> json) list option" where
  "as_object (JObject m) = Some m"
| "as_object _ = None"

text \<open>The conversion of an \<open>i64\<close>, and \<open>as_i64\<close>.\<close>

definition json_i64 :: "i64 \<Rightarrow> json" where
  "json_i64 n = JNumber (if 0 \<le> sint n then PosInt n else NegInt n)"

fun as_i64 :: "json \<Rightarrow> i64 option" where
  "as_i64 (JNumber (PosInt w)) = (if 0 \<le> sint w then Some w else None)"
| "as_i64 (JNumber (NegInt w)) = Some w"
| "as_i64 _ = None"

text \<open>\<open>v[k]\<close> reads null when there is no such field; \<open>v.get(0)\<close> is an array's first.\<close>

definition jindex :: "json \<Rightarrow> string \<Rightarrow> json" where
  "jindex v k = (case jget v k of Some x \<Rightarrow> x | None \<Rightarrow> JNull)"

fun jfirst :: "json \<Rightarrow> json option" where
  "jfirst (JArray (x # xs)) = Some x"
| "jfirst _ = None"

text \<open>The chains \<open>v.get(k).and_then(|x| x.as_...())\<close> of the sources.\<close>

definition get_str :: "json \<Rightarrow> string \<Rightarrow> string option" where
  "get_str v k = Option.bind (jget v k) as_str"

definition get_bool :: "json \<Rightarrow> string \<Rightarrow> bool option" where
  "get_bool v k = Option.bind (jget v k) as_bool"

definition get_f64 :: "json \<Rightarrow> string \<Rightarrow> f64 option" where
  "get_f64 v k = Option.bind (jget v k) as_f64"

definition get_array :: "json \<Rightarrow> string \<Rightarrow> json list option" where
  "get_array v k = Option.bind (jget v k) as_array"

text \<open>\<open>unwrap_or\<close>: the value or a default.\<close>

fun or_else :: "'a option \<Rightarrow> 'a \<Rightarrow> 'a" where
  "or_else None d = d"
| "or_else (Some x) d = x"

lemma or_else_iff [simp]: "or_else r False \<longleftrightarrow> r = Some True"
  by (cases r) auto

text \<open>An object built from literal fields, as the \<open>json!\<close> macro does.\<close>

definition jobj :: "(string \<times> json) list \<Rightarrow> json" where
  "jobj kvs = JObject (fold (\<lambda>(k, v). bm_insert k v) kvs bm_empty)"

lemma jget_jobj: "jget (jobj kvs) k = map_of (rev kvs) k"
  by (simp add: jobj_def bm.insert_fold_get)

text \<open>Every object of a value has its keys in order: what parsing and building establish.\<close>

fun json_wf :: "json \<Rightarrow> bool" where
  "json_wf (JArray xs) = (\<forall>v \<in> set xs. json_wf v)"
| "json_wf (JObject m) = (bm_inv m \<and> (\<forall>kv \<in> set m. json_wf (snd kv)))"
| "json_wf _ = True"

lemma bm_insert_values: "set (bm_insert k v m) \<subseteq> insert (k, v) (set m)"
  by (induction k v m rule: bm_insert.induct) auto

lemma json_wf_jobj: "\<forall>kv \<in> set kvs. json_wf (snd kv) \<Longrightarrow> json_wf (jobj kvs)"
proof -
  assume wf: "\<forall>kv \<in> set kvs. json_wf (snd kv)"
  have "bm_inv m \<and> (\<forall>kv \<in> set m. json_wf (snd kv)) \<Longrightarrow>
        bm_inv (fold (\<lambda>(k, v). bm_insert k v) kvs m) \<and>
        (\<forall>kv \<in> set (fold (\<lambda>(k, v). bm_insert k v) kvs m). json_wf (snd kv))" for m
    using wf
  proof (induction kvs arbitrary: m)
    case (Cons kv kvs)
    obtain k v where kv: "kv = (k, v)" by (cases kv)
    have "\<forall>p \<in> set (bm_insert k v m). json_wf (snd p)"
      using Cons.prems bm_insert_values [of k v m] kv by auto
    then show ?case using Cons.IH [of "bm_insert k v m"] Cons.prems by (simp add: kv)
  qed simp
  from this [of bm_empty] show ?thesis by (simp add: jobj_def bm_empty_def bm_inv_def)
qed

end
