(* ===== verification/Template.thy ===== *)
theory Template
  imports Json
begin

text \<open>
  The command templates of the adapters (\<open>crates/orchestrate/src/adapter.rs\<close>): the
  variables of a cell and their substitution into \<open>{name}\<close> placeholders. \<open>to_text\<close> is
  \<open>serde_json::Value::to_string\<close>.
\<close>

fun value_to_plain :: "(json \<Rightarrow> string) \<Rightarrow> json \<Rightarrow> string" where
  "value_to_plain to_text (JString s) = s"
| "value_to_plain to_text JNull = ''''"
| "value_to_plain to_text v = to_text v"

definition vars :: "(json \<Rightarrow> string) \<Rightarrow> json \<Rightarrow> string \<Rightarrow> (string, string) bmap" where
  "vars to_text params sut_sha = bm_insert ''sut_sha'' sut_sha
     (case as_object params of
        Some m \<Rightarrow> fold (\<lambda>(k, v). bm_insert k (value_to_plain to_text v)) m bm_empty
      | None \<Rightarrow> bm_empty)"

definition placeholder :: "string \<Rightarrow> string" where
  "placeholder k = ''{'' @ k @ ''}''"

definition render :: "string \<Rightarrow> (string, string) bmap \<Rightarrow> string" where
  "render template vs = foldl (\<lambda>s (k, v). replace_all (placeholder k) v s) template vs"

section \<open>Lemmas: templates as segments\<close>

text \<open>A template is literal text and placeholders; neither text nor names hold braces.\<close>

datatype segment = Lit string | Var string

fun segment_text :: "segment \<Rightarrow> string" where
  "segment_text (Lit s) = s"
| "segment_text (Var k) = placeholder k"

definition template_text :: "segment list \<Rightarrow> string" where
  "template_text segs = concat (map segment_text segs)"

definition no_open :: "string \<Rightarrow> bool" where
  "no_open s \<longleftrightarrow> CHR ''{'' \<notin> set s"

definition plain_name :: "string \<Rightarrow> bool" where
  "plain_name s \<longleftrightarrow> CHR ''{'' \<notin> set s \<and> CHR ''}'' \<notin> set s"

fun plain_segment :: "segment \<Rightarrow> bool" where
  "plain_segment (Lit s) = no_open s"
| "plain_segment (Var k) = plain_name k"

fun fill_one :: "string \<Rightarrow> string \<Rightarrow> segment \<Rightarrow> segment" where
  "fill_one k v (Lit s) = Lit s"
| "fill_one k v (Var j) = (if j = k then Lit v else Var j)"

text \<open>The substitution a template means: a known name by its value, an unknown one as it is.\<close>

fun fill :: "(string, string) bmap \<Rightarrow> segment \<Rightarrow> string" where
  "fill vs (Lit s) = s"
| "fill vs (Var k) = (case bm_get vs k of Some v \<Rightarrow> v | None \<Rightarrow> placeholder k)"

lemma replace_skip:
  assumes "no_open s"
  shows "replace_all (placeholder k) v (s @ t) = s @ replace_all (placeholder k) v t"
  using assms by (induction s) (auto simp: no_open_def placeholder_def)

lemma starts_with_placeholder:
  assumes "plain_name j" and "plain_name k"
  shows "starts_with (k @ ''}'') (j @ ''}'' @ t) \<longleftrightarrow> j = k"
  using assms
proof (induction k arbitrary: j)
  case Nil
  then show ?case by (cases j) (auto simp: plain_name_def)
next
  case (Cons c k)
  then show ?case by (cases j) (auto simp: plain_name_def)
qed

lemma replace_placeholder:
  assumes "plain_name j" and "plain_name k"
  shows "replace_all (placeholder k) v (placeholder j @ t)
    = segment_text (fill_one k v (Var j)) @ replace_all (placeholder k) v t"
proof (cases "j = k")
  case True
  have "replace_all (placeholder k) v (placeholder k @ t)
      = v @ replace_all (placeholder k) v (drop (length (placeholder k)) (placeholder k @ t))"
    using starts_with_self_append [of "placeholder k" t]
    by (simp add: placeholder_def del: starts_with_self_append)
  then show ?thesis using True by simp
next
  case False
  have no: "\<not> starts_with (placeholder k) (placeholder j @ t)"
    using starts_with_placeholder [OF assms, of t] False by (simp add: placeholder_def)
  have "no_open (j @ ''}'')" using assms(1) by (simp add: plain_name_def no_open_def)
  from replace_skip [OF this, of k v t]
  have "replace_all (placeholder k) v (placeholder j @ t) = placeholder j @ replace_all (placeholder k) v t"
    using no by (simp add: placeholder_def)
  then show ?thesis using False by simp
qed

lemma replace_template:
  assumes "\<forall>sg \<in> set segs. plain_segment sg" and "plain_name k"
  shows "replace_all (placeholder k) v (template_text segs) = template_text (map (fill_one k v) segs)"
  using assms
proof (induction segs)
  case Nil
  then show ?case by (simp add: template_text_def)
next
  case (Cons sg segs)
  then show ?case
    by (cases sg) (simp_all add: template_text_def replace_skip replace_placeholder)
qed

lemma fill_template:
  assumes "\<forall>sg \<in> set segs. plain_segment sg"
    and "\<forall>kv \<in> set vs. plain_name (fst kv) \<and> no_open (snd kv)"
  shows "render (template_text segs) vs = concat (map (fill vs) segs)"
  using assms
proof (induction vs arbitrary: segs)
  case Nil
  have "fill [] = segment_text" by (rule ext, rename_tac sg, case_tac sg) auto
  then show ?case by (simp add: render_def template_text_def)
next
  case (Cons kv vs)
  obtain k v where kv: "kv = (k, v)" by (cases kv)
  have k: "plain_name k" and v: "no_open v" using Cons.prems(2) kv by auto
  have filled: "\<forall>sg \<in> set (map (fill_one k v) segs). plain_segment sg"
  proof
    fix sg assume "sg \<in> set (map (fill_one k v) segs)"
    then obtain sg0 where "sg0 \<in> set segs" "sg = fill_one k v sg0" by auto
    moreover from this have "plain_segment sg0" using Cons.prems(1) by blast
    ultimately show "plain_segment sg" using v by (metis fill_one.simps plain_segment.simps segment.exhaust)
  qed
  have step: "fill vs (fill_one k v sg) = fill (kv # vs) sg" for sg
    by (cases sg) (auto simp: kv)
  have "render (template_text segs) (kv # vs) = render (template_text (map (fill_one k v) segs)) vs"
    using replace_template [OF Cons.prems(1) k, of v] by (simp add: render_def kv)
  also have "\<dots> = concat (map (fill vs) (map (fill_one k v) segs))"
    using Cons.IH [OF filled] Cons.prems(2) by simp
  finally show ?case by (simp add: step comp_def)
qed

lemma vars_get:
  assumes "params = JObject m" and "bm_inv m"
  shows "bm_get (vars to_text params sut) k
    = (if k = ''sut_sha'' then Some sut else map_option (value_to_plain to_text) (bm_get m k))"
proof -
  have "bm_get (fold (\<lambda>(k, v). bm_insert k (value_to_plain to_text v)) xs acc) k
      = (case map_of (rev xs) k of Some v \<Rightarrow> Some (value_to_plain to_text v) | None \<Rightarrow> bm_get acc k)" for xs acc
    by (induction xs arbitrary: acc) (auto split: option.splits)
  moreover have "map_of (rev m) k = bm_get m k"
  proof -
    have d: "distinct (map fst m)" using assms(2) by (simp add: bm_inv_def strict_sorted_iff)
    have "map_of (rev m) = map_of m" using d by (simp add: map_of_inject_set rev_map [symmetric])
    moreover have "map_of m k = bm_get m k" by (induction m) auto
    ultimately show ?thesis by simp
  qed
  ultimately show ?thesis
    using assms(1) by (auto simp: vars_def bm_empty_def split: option.splits)
qed

section \<open>Properties\<close>

text \<open>C38: Rendering is substitution: for a template of literal text and placeholders, with names
  without braces and values that open no brace, every placeholder of a known variable
  becomes its value, all others and the text around them stay, whatever the order of
  the variables.\<close>

theorem render_substitutes:
  assumes "\<forall>sg \<in> set segs. plain_segment sg"
    and "\<forall>kv \<in> set vs. plain_name (fst kv) \<and> no_open (snd kv)"
  shows "render (template_text segs) vs = concat (map (fill vs) segs)"
  by (rule fill_template [OF assms])

theorem render_substitutes_witness:
  "render (template_text [Lit ''run '', Var ''a'', Lit '' -x '', Var ''zz'']) [(''a'', ''1''), (''b'', ''2'')]
     = ''run 1 -x {zz}''"
proof -
  have "\<forall>sg \<in> set [Lit ''run '', Var ''a'', Lit '' -x '', Var ''zz'']. plain_segment sg"
    and "\<forall>kv \<in> set [(''a'', ''1''), (''b'', ''2'')]. plain_name (fst kv) \<and> no_open (snd kv)"
    by (simp_all add: plain_name_def no_open_def)
  from render_substitutes [OF this] show ?thesis by (simp add: placeholder_def)
qed

end
