(* ===== verification/Effects.thy ===== *)
theory Effects
  imports Text
begin

text \<open>
  Code that acts on the world outside it (a shell, processes, files, the clock): a function
  of the world that gives a result and the world it leaves. The combinators are Rust's
  \<open>?\<close>, \<open>let _ =\<close> and the loops over them, with the rules the component proofs
  split effects by.
\<close>

type_synonym ('w, 'a) io = "'w \<Rightarrow> (string + 'a) \<times> 'w"

text \<open>A command line run by \<open>sh -c\<close>: its standard output, or the error of the launch or exit.\<close>

type_synonym 'w shell = "string \<Rightarrow> ('w, string) io"

definition io_ok :: "'a \<Rightarrow> ('w, 'a) io" where
  "io_ok x w = (Inr x, w)"

definition io_err :: "string \<Rightarrow> ('w, 'a) io" where
  "io_err e w = (Inl e, w)"

definition io_then :: "('w, 'a) io \<Rightarrow> ('a \<Rightarrow> ('w, 'b) io) \<Rightarrow> ('w, 'b) io" where
  "io_then m f w = (case m w of (Inl e, w') \<Rightarrow> (Inl e, w') | (Inr x, w') \<Rightarrow> f x w')"

definition io_map :: "('a \<Rightarrow> 'b) \<Rightarrow> ('w, 'a) io \<Rightarrow> ('w, 'b) io" where
  "io_map f m w = (case m w of (r, w') \<Rightarrow> (map_ok f r, w'))"

definition io_map_err :: "(string \<Rightarrow> string) \<Rightarrow> ('w, 'a) io \<Rightarrow> ('w, 'a) io" where
  "io_map_err f m w = (case m w of (r, w') \<Rightarrow> (map_err f r, w'))"

definition io_of :: "string + 'a \<Rightarrow> ('w, 'a) io" where
  "io_of r w = (r, w)"

text \<open>\<open>let _ = m;\<close>: the effect alone. \<open>m.ok()\<close>: the error forgotten.\<close>

definition io_ignore :: "('w, 'a) io \<Rightarrow> 'w \<Rightarrow> 'w" where
  "io_ignore m w = snd (m w)"

definition io_option :: "('w, 'a) io \<Rightarrow> 'w \<Rightarrow> 'a option \<times> 'w" where
  "io_option m w = (case m w of (Inr x, w') \<Rightarrow> (Some x, w') | (Inl _, w') \<Rightarrow> (None, w'))"

text \<open>\<open>for x in xs { f(x)?; }\<close> and the collecting loop.\<close>

fun io_each :: "('a \<Rightarrow> ('w, unit) io) \<Rightarrow> 'a list \<Rightarrow> ('w, unit) io" where
  "io_each f [] w = (Inr (), w)"
| "io_each f (x # xs) w = (case f x w of (Inl e, w') \<Rightarrow> (Inl e, w') | (Inr _, w') \<Rightarrow> io_each f xs w')"

fun io_all :: "('a \<Rightarrow> ('w, 'b) io) \<Rightarrow> 'a list \<Rightarrow> ('w, 'b list) io" where
  "io_all f [] w = (Inr [], w)"
| "io_all f (x # xs) w = (case f x w of (Inl e, w') \<Rightarrow> (Inl e, w')
     | (Inr y, w') \<Rightarrow> (case io_all f xs w' of (Inl e, w'') \<Rightarrow> (Inl e, w'') | (Inr ys, w'') \<Rightarrow> (Inr (y # ys), w'')))"

named_theorems io_simps

lemma io_then_Inr [io_simps]:
  "io_then m f w = (Inr y, w'') \<longleftrightarrow> (\<exists>x w'. m w = (Inr x, w') \<and> f x w' = (Inr y, w''))"
  by (auto simp: io_then_def split: prod.splits sum.splits)

lemma io_then_Inl [io_simps]:
  "io_then m f w = (Inl e, w'') \<longleftrightarrow>
     m w = (Inl e, w'') \<or> (\<exists>x w'. m w = (Inr x, w') \<and> f x w' = (Inl e, w''))"
  by (auto simp: io_then_def split: prod.splits sum.splits)

lemma io_map_Inr [io_simps]: "io_map f m w = (Inr y, w') \<longleftrightarrow> (\<exists>x. m w = (Inr x, w') \<and> y = f x)"
  by (auto simp: io_map_def result_simps split: prod.splits)

lemma io_map_Inl [io_simps]: "io_map f m w = (Inl e, w') \<longleftrightarrow> m w = (Inl e, w')"
  by (auto simp: io_map_def result_simps split: prod.splits)

lemma io_map_err_Inr [io_simps]: "io_map_err f m w = (Inr y, w') \<longleftrightarrow> m w = (Inr y, w')"
  by (auto simp: io_map_err_def result_simps split: prod.splits)

lemma io_map_err_Inl [io_simps]: "io_map_err f m w = (Inl e, w') \<longleftrightarrow> (\<exists>d. m w = (Inl d, w') \<and> e = f d)"
  by (auto simp: io_map_err_def result_simps split: prod.splits)

lemma io_values [io_simps]:
  "io_ok x w = (r, w') \<longleftrightarrow> r = Inr x \<and> w' = w"
  "io_err e w = (r, w') \<longleftrightarrow> r = Inl e \<and> w' = w"
  "io_of s w = (r, w') \<longleftrightarrow> r = s \<and> w' = w"
  by (auto simp: io_ok_def io_err_def io_of_def)

end
