(* ===== verification/Stats.thy ===== *)
theory Stats
  imports F64 "HOL-Library.Multiset"
begin

text \<open>
  \<open>crates/gate/src/stats.rs\<close>: the gate's statistics over binary64, bit for bit. A
  vector is a list, a \<open>usize\<close> a natural number, a \<open>u64\<close> a 64-bit word whose sums
  wrap as they do in a release build. Indexing that can run off a vector returns the
  panic as a value.
\<close>

section \<open>SplitMix64\<close>

record split_mix64 =
  sm_state :: u64

definition sm_new :: "u64 \<Rightarrow> split_mix64" where
  "sm_new seed = \<lparr>sm_state = seed\<rparr>"

definition next_u64 :: "split_mix64 \<Rightarrow> u64 \<times> split_mix64" where
  "next_u64 r = (let s = sm_state r + 0x9E3779B97F4A7C15;
     z = s;
     z = (xor z (drop_bit 30 z)) * 0xBF58476D1CE4E5B9;
     z = (xor z (drop_bit 27 z)) * 0x94D049BB133111EB
     in (xor z (drop_bit 31 z), r\<lparr>sm_state := s\<rparr>))"

text \<open>Uniform in \<open>0 ..< n\<close>; a length fits 64 bits, so \<open>n as u64\<close> is \<open>n\<close>.\<close>

definition below :: "nat \<Rightarrow> split_mix64 \<Rightarrow> nat \<times> split_mix64" where
  "below n r = (let (w, r') = next_u64 r in (nat (uint w mod int n), r'))"

section \<open>Moments\<close>

definition mean :: "f64 list \<Rightarrow> f64" where
  "mean xs = (if xs = [] then 0 else f_sum xs / f_of_nat (length xs))"

definition variance :: "f64 list \<Rightarrow> f64" where
  "variance xs = (let n = length xs in
     if n < 2 then 0
     else let m = mean xs; ss = f_sum (map (\<lambda>x. (x - m) * (x - m)) xs) in
       ss / (f_of_nat n - 1))"

definition stddev :: "f64 list \<Rightarrow> f64" where
  "stddev xs = f_sqrt (variance xs)"

definition cov :: "f64 list \<Rightarrow> f64" where
  "cov xs = (let m = mean xs in if f_eq m 0 then 0 else stddev xs / \<bar>m\<bar>)"

definition within_cov :: "f64 list \<Rightarrow> f64 list \<Rightarrow> f64" where
  "within_cov a b = f_max (cov a) (cov b)"

section \<open>The permutation test\<close>

definition swap_at :: "'a list \<Rightarrow> nat \<Rightarrow> nat \<Rightarrow> 'a list" where
  "swap_at xs i j = xs[i := xs ! j, j := xs ! i]"

text \<open>The Fisher-Yates loop \<open>for i in (1..n).rev()\<close>, entered at its highest index.\<close>

fun shuffle_from :: "nat \<Rightarrow> 'a list \<Rightarrow> split_mix64 \<Rightarrow> 'a list \<times> split_mix64" where
  "shuffle_from 0 pool r = (pool, r)"
| "shuffle_from (Suc k) pool r = (let i = Suc k; (j, r') = below (i + 1) r in
     shuffle_from k (swap_at pool i j) r')"

definition eps :: f64 where
  "eps = f_lit (1 / 1000000000000)"

text \<open>One pass of the resampling loop: the shuffled pool and whether it counts.\<close>

definition resample ::
  "nat \<Rightarrow> f64 \<Rightarrow> f64 list \<Rightarrow> split_mix64 \<Rightarrow> bool \<times> f64 list \<times> split_mix64" where
  "resample na observed pool r = (let
     (pool', r') = shuffle_from (length pool - 1) pool r;
     ma = mean (take na pool');
     mb = mean (drop na pool')
     in (observed \<le> \<bar>mb - ma\<bar> + eps, pool', r'))"

fun resamples_count :: "nat \<Rightarrow> nat \<Rightarrow> f64 \<Rightarrow> f64 list \<Rightarrow> split_mix64 \<Rightarrow> nat \<Rightarrow> nat" where
  "resamples_count 0 na observed pool r hits = hits"
| "resamples_count (Suc k) na observed pool r hits = (let
     (hit, pool', r') = resample na observed pool r
     in resamples_count k na observed pool' r' (if hit then hits + 1 else hits))"

definition permutation_p :: "f64 list \<Rightarrow> f64 list \<Rightarrow> nat \<Rightarrow> u64 \<Rightarrow> f64" where
  "permutation_p a b resamples seed = (let na = length a; pool = a @ b in
     if na = 0 \<or> b = [] then 1
     else let observed = \<bar>mean b - mean a\<bar>;
       count = resamples_count resamples na observed pool (sm_new seed) 0
       in (f_of_nat count + 1) / (f_of_nat resamples + 1))"

section \<open>Histograms\<close>

text \<open>\<open>1u64 << i\<close> takes the shift modulo the width in a release build.\<close>

definition shl1 :: "nat \<Rightarrow> u64" where
  "shl1 i = push_bit (i mod 64) 1"

definition midpoint :: "nat \<Rightarrow> f64" where
  "midpoint i = f_lit (3 / 2) * f_of_u64 (shl1 i)"

text \<open>The loop that returns at the first bucket whose running total meets the target.\<close>

fun first_reaching :: "f64 \<Rightarrow> u64 \<Rightarrow> nat \<Rightarrow> u64 list \<Rightarrow> nat option" where
  "first_reaching target cum i [] = None"
| "first_reaching target cum i (b # bs) = (let cum' = cum + b in
     if target \<le> f_of_u64 cum' then Some i else first_reaching target cum' (Suc i) bs)"

definition log2_percentile :: "u64 list \<Rightarrow> f64 \<Rightarrow> f64" where
  "log2_percentile buckets q = (let total = sum_list buckets in
     if total = 0 then 0
     else let target = q * f_of_u64 total in
       case first_reaching target 0 0 buckets of
         Some i \<Rightarrow> midpoint i
       | None \<Rightarrow> midpoint (length buckets - 1))"

fun log2_acc :: "f64 \<Rightarrow> nat \<Rightarrow> u64 list \<Rightarrow> f64" where
  "log2_acc acc i [] = acc"
| "log2_acc acc i (b # bs) =
     log2_acc (acc + f_of_u64 b * f_lit (3 / 2) * f_of_u64 (shl1 i)) (Suc i) bs"

definition log2_mean :: "u64 list \<Rightarrow> f64" where
  "log2_mean buckets = (let total = sum_list buckets in
     if total = 0 then 0 else log2_acc 0 0 buckets / f_of_u64 total)"

text \<open>The edges of bucket \<open>i\<close>; reading \<open>bounds[i - 1]\<close> past the end panics.\<close>

definition bucket_lo :: "f64 list \<Rightarrow> nat \<Rightarrow> fault + f64" where
  "bucket_lo bounds i =
     (if i = 0 then Inr 0
      else if i - 1 < length bounds then Inr (bounds ! (i - 1))
      else Inl (Panic ''index out of bounds''))"

definition bucket_hi :: "f64 list \<Rightarrow> nat \<Rightarrow> f64 \<Rightarrow> f64" where
  "bucket_hi bounds i lo = (if i < length bounds then bounds ! i else lo * f_lit 2)"

definition explicit_percentile :: "u64 list \<Rightarrow> f64 list \<Rightarrow> f64 \<Rightarrow> fault + f64" where
  "explicit_percentile buckets bounds q = (let total = sum_list buckets in
     if total = 0 then Inr 0
     else let target = q * f_of_u64 total in
       case first_reaching target 0 0 buckets of
         Some i \<Rightarrow> and_then (bucket_lo bounds i)
           (\<lambda>lo. Inr ((lo + bucket_hi bounds i lo) / f_lit 2))
       | None \<Rightarrow> Inr (if bounds = [] then 0 else last bounds))"

section \<open>Least squares\<close>

fun sxx_sxy :: "f64 \<Rightarrow> f64 \<Rightarrow> f64 \<times> f64 \<Rightarrow> (f64 \<times> f64) list \<Rightarrow> f64 \<times> f64" where
  "sxx_sxy mx my acc [] = acc"
| "sxx_sxy mx my (sxx, sxy) ((x, y) # ps) =
     sxx_sxy mx my (sxx + (x - mx) * (x - mx), sxy + (x - mx) * (y - my)) ps"

fun sse_from :: "f64 \<Rightarrow> f64 \<Rightarrow> f64 \<Rightarrow> (f64 \<times> f64) list \<Rightarrow> f64" where
  "sse_from intercept slope sse [] = sse"
| "sse_from intercept slope sse ((x, y) # ps) = (let pred = intercept + slope * x in
     sse_from intercept slope (sse + (y - pred) * (y - pred)) ps)"

definition linreg_slope_stderr :: "f64 list \<Rightarrow> f64 \<times> f64" where
  "linreg_slope_stderr ys = (let n = length ys in
     if n < 3 then (0, 0)
     else let nf = f_of_nat n;
       xs = map f_of_nat [0..<n];
       mx = mean xs;
       my = mean ys;
       (sxx, sxy) = sxx_sxy mx my (0, 0) (zip xs ys)
       in if f_eq sxx 0 then (0, 0)
          else let slope = sxy / sxx;
            intercept = my - slope * mx;
            sse = sse_from intercept slope 0 (zip xs ys);
            resid_var = sse / (nf - f_lit 2);
            se = f_sqrt (resid_var / sxx)
            in (slope, se))"

section \<open>Lemmas: the generator and the shuffle\<close>

lemma below_less: "0 < n \<Longrightarrow> fst (below n r) < n"
proof -
  assume "0 < n"
  then have "nat (uint w mod int n) < n" for w :: u64 by (simp add: nat_less_iff)
  then show ?thesis by (simp add: below_def split: prod.split)
qed

lemma mset_swap_at: "i < length xs \<Longrightarrow> j < length xs \<Longrightarrow> mset (swap_at xs i j) = mset xs"
  unfolding swap_at_def by (rule mset_swap)

lemma length_swap_at [simp]: "length (swap_at xs i j) = length xs"
  by (simp add: swap_at_def)

lemma mset_shuffle_from:
  "k < length pool \<or> k = 0 \<Longrightarrow> mset (fst (shuffle_from k pool r)) = mset pool"
proof (induction k pool r rule: shuffle_from.induct)
  case (2 k pool r)
  obtain j r' where j: "below (Suc k + 1) r = (j, r')" by (cases "below (Suc k + 1) r")
  have "j < length pool" using below_less [of "Suc k + 1" r] 2(2) j by simp
  then have "mset (swap_at pool (Suc k) j) = mset pool" using 2(2) by (intro mset_swap_at) auto
  then show ?case using 2 j by auto
qed simp

lemma length_shuffle_from: "length (fst (shuffle_from k pool r)) = length pool"
  by (induction k pool r rule: shuffle_from.induct) (auto simp: Let_def split: prod.split)

lemma mset_resample: "mset (fst (snd (resample na observed pool r))) = mset pool"
  using mset_shuffle_from [of "length pool - 1" pool r]
  by (cases pool) (auto simp: resample_def Let_def split: prod.split)

lemma resamples_count_le:
  "hits \<le> resamples_count k na observed pool r hits \<and>
   resamples_count k na observed pool r hits \<le> hits + k"
proof (induction k arbitrary: pool r hits)
  case (Suc k)
  obtain hit pool' r' where *: "resample na observed pool r = (hit, pool', r')"
    by (cases "resample na observed pool r")
  show ?case
    using Suc [of "if hit then hits + 1 else hits" pool' r'] by (auto simp: * split: if_splits)
qed simp

lemma resamples_count_all:
  assumes "\<And>pool' r'. mset pool' = mset pool \<Longrightarrow> fst (resample na observed pool' r')"
  shows "resamples_count k na observed pool r hits = hits + k"
  using assms
proof (induction k arbitrary: pool r hits)
  case (Suc k)
  obtain hit pool' r' where *: "resample na observed pool r = (hit, pool', r')"
    by (cases "resample na observed pool r")
  have "hit" using Suc.prems [of pool r] * by simp
  moreover have "mset pool' = mset pool" using mset_resample [of na observed pool r] * by simp
  ultimately show ?case using Suc * by simp
qed simp

section \<open>Lemmas: values that are not negative\<close>

lemma f_sum_nonneg:
  "\<forall>x \<in> set xs. x = NaN \<or> 0 \<le> x \<Longrightarrow> f_sum xs = NaN \<or> 0 \<le> f_sum xs"
proof -
  have NaN: "x + y = NaN" if "x = NaN \<or> y = NaN" for x y :: f64
    using that by (cases x; cases y) (simp_all add: f64_defs f_add_def)
  have "foldl (+) a xs = NaN \<or> 0 \<le> foldl (+) a xs"
    if "\<forall>x \<in> set xs. x = NaN \<or> 0 \<le> x" and "a = NaN \<or> 0 \<le> a" for a :: f64 and xs
    using that
  proof (induction xs arbitrary: a)
    case (Cons x xs)
    have "a + x = NaN \<or> 0 \<le> a + x"
      using Cons.prems NaN [of a x] f_add_nonneg [of a x] by auto
    then show ?case using Cons by simp
  qed simp
  moreover have "0 \<le> NZero" by (simp add: f64_defs)
  moreover assume "\<forall>x \<in> set xs. x = NaN \<or> 0 \<le> x"
  ultimately show ?thesis unfolding f_sum_def by blast
qed

lemma f_div_nonneg:
  assumes "0 \<le> (x :: f64)" and "0 \<le> y" and "y \<noteq> NZero"
  shows "x / y = NaN \<or> 0 \<le> x / y"
proof (cases "f_finite x \<and> f_finite y \<and> val x \<noteq> 0 \<and> val y \<noteq> 0")
  case True
  then obtain p q where xy: "x = Fin p" "y = Fin q" using assms(3) by (cases x; cases y) auto
  then have "0 \<le> p / q" using assms by (auto simp: f64_defs)
  then have "rnd 0 \<le> rnd (p / q)" by (rule rnd_mono)
  then show ?thesis using xy True by (simp add: f64_defs f_div_def)
next
  case False
  then show ?thesis using assms
    by (cases x; cases y) (auto simp: f64_defs f_div_def inf_of_def zero_of_def split: if_splits)
qed

lemma rne_sqrt_nonneg: "0 \<le> y \<Longrightarrow> 0 \<le> rne_sqrt y"
  using isqrt_bounds [of "\<lfloor>y\<rfloor>"] by (simp add: rne_sqrt_def Let_def)

lemma f_sqrt_nonneg: "f_sqrt x = NaN \<or> 0 \<le> f_sqrt x"
proof (cases x)
  case (Fin q)
  have "0 \<le> rne_sqrt (q / pow2 (2 * sqrt_exp q))" if "0 \<le> q"
    using that by (intro rne_sqrt_nonneg) simp
  then have "0 \<le> rat_of_int (rne_sqrt (q / pow2 (2 * sqrt_exp q))) * pow2 (sqrt_exp q)" if "0 \<le> q"
    using that by simp
  then show ?thesis using Fin unfolding less_eq_f64_def zero_f64_def
    by (cases "0 \<le> q") (auto simp: order_le_less)
qed (auto simp: f64_defs)

lemma f_of_nat_minus_1:
  assumes "2 \<le> n"
  shows "1 \<le> f_of_nat n - 1"
proof -
  have "(2 :: rat) \<le> of_nat n" using assms by (metis of_nat_le_iff of_nat_numeral)
  then have "rnd 2 \<le> rnd (of_nat n)" by (rule rnd_mono)
  then have n: "Fin 2 \<le> f_of_nat n" using rnd_of_int [of 2] by (simp add: f_of_nat_def)
  show ?thesis
  proof (cases "f_of_nat n")
    case (Fin q)
    then have "rnd 1 \<le> rnd (q - 1)" using n by (intro rnd_mono) (auto simp: f64_defs)
    then show ?thesis using Fin by (simp add: f64_defs f_add_def)
  qed (use n in \<open>auto simp: f64_defs f_add_def\<close>)
qed

lemma variance_nonneg: "variance xs = NaN \<or> 0 \<le> variance xs"
proof (cases "length xs < 2")
  case True
  then show ?thesis by (simp add: variance_def) (simp add: f64_defs)
next
  case False
  let ?d = "f_of_nat (length xs) - 1"
  let ?ss = "f_sum (map (\<lambda>x. (x - mean xs) * (x - mean xs)) xs)"
  have d1: "1 \<le> ?d" using False by (intro f_of_nat_minus_1) simp
  then have d: "0 \<le> ?d" "?d \<noteq> NZero"
    using f_le_trans [of 0 1 ?d] by (auto simp: f64_defs)
  have ss: "?ss = NaN \<or> 0 \<le> ?ss" using f_mul_self_nonneg by (intro f_sum_nonneg) auto
  have v: "variance xs = ?ss / ?d" using False by (simp add: variance_def Let_def)
  have "?ss / ?d = NaN" if "?ss = NaN" using that by (simp add: f64_defs f_div_def)
  then show ?thesis using ss d f_div_nonneg [of ?ss ?d] unfolding v by blast
qed

section \<open>Lemmas: percentiles\<close>

lemma first_reaching_bound:
  "first_reaching t cum i bs = Some j \<Longrightarrow> i \<le> j \<and> j < i + length bs"
  by (induction t cum i bs rule: first_reaching.induct) (fastforce simp: Let_def split: if_splits)+

lemma first_reaching_mono:
  assumes "t \<le> t'" and "first_reaching t' cum i bs = Some j'"
  shows "\<exists>j. first_reaching t cum i bs = Some j \<and> j \<le> j'"
  using assms
proof (induction t' cum i bs rule: first_reaching.induct)
  case (2 t' cum i b bs)
  show ?case
  proof (cases "t \<le> f_of_u64 (cum + b)")
    case True
    then show ?thesis using first_reaching_bound [OF 2(3)] by (simp add: Let_def)
  next
    case False
    then have "\<not> t' \<le> f_of_u64 (cum + b)" using f_le_trans [OF 2(2)] by blast
    then show ?thesis using 2 False by (simp add: Let_def)
  qed
qed simp

lemma uint_shl1: "i < 64 \<Longrightarrow> uint (shl1 i) = 2 ^ i"
proof -
  assume i: "i < 64"
  then have lt: "(2 :: int) ^ i < 2 ^ 64" by (intro power_strict_increasing) auto
  have "shl1 i = word_of_int (2 ^ i)" using i by (simp add: shl1_def push_bit_eq_mult)
  moreover have "uint (word_of_int (2 ^ i) :: u64) = 2 ^ i mod 2 ^ LENGTH(64)"
    by (rule uint_word_of_int)
  ultimately show ?thesis using lt by simp
qed

lemma midpoint_mono:
  assumes "i \<le> j" and "j < 64"
  shows "midpoint i \<le> midpoint j"
proof -
  have e: "f_of_u64 (shl1 k) = Fin (pow2 (int k))" if "k < 64" for k
  proof -
    have "rnd (pow2 (int k)) = Fin (pow2 (int k))"
    proof (rule rnd_exact)
      show "dyadic53 (pow2 (int k))"
        unfolding dyadic53_def by (intro exI [of _ 1] exI [of _ "int k"]) simp
      have "pow2 (int k) < pow2 1024" unfolding pow2_less_iff using that by simp
      then show "\<bar>pow2 (int k)\<bar> < pow2 1024" by simp
    qed
    then show ?thesis using that by (simp add: f_of_u64_def uint_shl1 pow2_def)
  qed
  have h: "f_lit (3 / 2) = Fin (3 / 2)" by code_simp
  have "pow2 (int i) \<le> pow2 (int j)" using assms by simp
  then have "rnd (3 / 2 * pow2 (int i)) \<le> rnd (3 / 2 * pow2 (int j))" by (intro rnd_mono) simp
  then show ?thesis using assms e [of i] e [of j] h
    by (simp add: midpoint_def times_f64_def f_mul_def)
qed

lemma f_of_u64_pos:
  assumes "w \<noteq> 0"
  shows "\<exists>t. f_of_u64 w = Fin t \<and> 1 \<le> t"
proof -
  have "uint w \<noteq> 0" using assms by (simp add: uint_0_iff)
  then have "1 \<le> uint w" using uint_ge_0 [of w] by linarith
  then have "(of_int 1 :: rat) \<le> of_int (uint w)" by (simp only: of_int_le_iff)
  then have "(1 :: rat) \<le> of_int (uint w)" by (simp only: of_int_1)
  then have "rnd 1 \<le> f_of_u64 w" unfolding f_of_u64_def by (rule rnd_mono)
  then have lo: "Fin 1 \<le> f_of_u64 w" by simp
  have "uint w \<le> 2 ^ 64" using uint_lt2p [of w] by simp
  then have "(of_int (uint w) :: rat) \<le> of_int (2 ^ 64)" by (simp only: of_int_le_iff)
  then have "f_of_u64 w \<le> rnd (of_int (2 ^ 64))" unfolding f_of_u64_def by (rule rnd_mono)
  moreover have "rnd (of_int (2 ^ 64)) = Fin 18446744073709551616" by code_simp
  ultimately show ?thesis using lo by (cases "f_of_u64 w") (auto simp: f64_defs)
qed

lemma target_mono:
  assumes "q \<le> q'" and "w \<noteq> 0"
  shows "q * f_of_u64 w \<le> q' * f_of_u64 w"
proof -
  obtain t where t: "f_of_u64 w = Fin t" "1 \<le> t" using f_of_u64_pos [OF assms(2)] by blast
  have le: "x \<le> y \<longleftrightarrow> (\<not> f_eq x y \<longrightarrow> f_less x y)" for x y by (auto simp: less_eq_f64_def)
  have z: "f_less (Fin 0) (rnd x)" "f_less NZero (rnd x)"
    if "0 \<le> x" "\<not> f_eq (Fin 0) (rnd x)" for x
    using rnd_mono [OF that(1)] that(2) by (cases "rnd x"; auto simp: le)+
  have y: "f_less (rnd x) (Fin 0)" "f_less (rnd x) NZero"
    if "x \<le> 0" "\<not> f_eq (rnd x) (Fin 0)" for x
    using rnd_mono [OF that(1)] that(2) by (cases "rnd x"; auto simp: le)+
  have m: "f_less (rnd (x * t)) (rnd (x' * t))"
    if "x \<le> x'" "\<not> f_eq (rnd (x * t)) (rnd (x' * t))" for x x'
  proof -
    have "rnd (x * t) \<le> rnd (x' * t)" using that(1) t(2) by (intro rnd_mono mult_right_mono) auto
    then show ?thesis using that(2) by (simp add: le)
  qed
  have NZ: "f_eq NZero x = f_eq (Fin 0) x" "f_eq x NZero = f_eq x (Fin 0)" for x
    by (cases x; simp)+
  have inf: "\<not> f_eq x PInf \<Longrightarrow> f_less x PInf" "\<not> f_eq NInf x \<Longrightarrow> f_less NInf x" if "x \<noteq> NaN" for x
    using that by (cases x; simp)+
  have pm: "0 < a \<Longrightarrow> 0 \<le> a * t" "a < 0 \<Longrightarrow> a * t \<le> 0" for a
    using t(2) by (simp_all add: mult_nonpos_nonneg)
  show ?thesis
    using assms(1) t(2) unfolding le times_f64_def
    by (cases q; cases q')
      (auto simp: t(1) f_mul_def inf_of_def zero_of_def NZ f_eq_refl
        intro!: z y m inf pm)
qed

lemma explicit_percentile_ok:
  "length buckets \<le> length bounds + 1 \<Longrightarrow> is_ok (explicit_percentile buckets bounds q)"
  using first_reaching_bound [of "q * f_of_u64 (sum_list buckets)" 0 0 buckets]
  by (auto simp: explicit_percentile_def Let_def bucket_lo_def is_ok_iff split: option.split)

lemma explicit_percentile_panics:
  "explicit_percentile [0, 0, 4] [Fin 1] (f_lit (1 / 2)) = Inl (Panic ''index out of bounds'')"
  by code_simp

section \<open>Properties\<close>

text \<open>The shuffle of the permutation test only rearranges: whatever the generator
  draws, entered at the last index it returns a pool with the same observations,
  each as often as before.\<close>

theorem shuffle_permutes: "mset (fst (shuffle_from (length pool - 1) pool r)) = mset pool"
  by (rule mset_shuffle_from) auto

text \<open>The p-value of the permutation test is the binary64 nearest to
  (hits + 1) / (resamples + 1) for a number of hits between 0 and \<open>resamples\<close>, so it is
  never 0, never above 1 and never a NaN, for every input (NaNs and infinities among
  the samples included) and every seed.\<close>

theorem permutation_p_bounds:
  assumes "a \<noteq> []" and "b \<noteq> []" and "resamples < 2 ^ 53"
  shows "(\<exists>hits \<le> resamples. permutation_p a b resamples seed =
            rnd (of_nat (hits + 1) / of_nat (resamples + 1))) \<and>
         0 < permutation_p a b resamples seed \<and> permutation_p a b resamples seed \<le> 1"
proof -
  define c where "c = resamples_count resamples (length a) \<bar>mean b - mean a\<bar> (a @ b) (sm_new seed) 0"
  have c: "c \<le> resamples" using resamples_count_le [of 0 resamples] by (simp add: c_def)
  have nat: "f_of_nat n + 1 = Fin (of_nat (n + 1))" if "n < 2 ^ 53" for n
  proof -
    have "rnd (of_int (int n + 1)) = Fin (of_int (int n + 1))" using that by (intro rnd_of_int) auto
    then show ?thesis using that f_of_nat_exact [of n]
      by (simp add: plus_f64_def one_f64_def f_add_def)
  qed
  let ?q = "of_nat (c + 1) / of_nat (resamples + 1) :: rat"
  have p: "permutation_p a b resamples seed = rnd ?q"
    using assms c nat [of c] nat [of resamples]
    by (simp add: permutation_p_def c_def [symmetric] divide_f64_def f_div_def)
  have q1: "0 \<le> ?q" "?q \<le> 1" using c by simp_all
  have "of_nat (resamples + 1) \<le> (of_nat (2 ^ 53) :: rat)"
    using assms(3) by (intro of_nat_mono) simp
  then have "pow2 (- 53) \<le> ?q" by (simp add: pow2_def field_simps)
  then have "rnd (pow2 (- 53)) \<le> rnd ?q" by (rule rnd_mono)
  moreover have "0 < rnd (pow2 (- 53))" by code_simp
  ultimately have "0 < rnd ?q" by (meson f_less_le_trans)
  then show ?thesis using p c rnd_unit_interval(2) [OF q1] by auto
qed

theorem permutation_p_bounds_witness:
  "0 < permutation_p [Fin 1, Fin 2] [Fin 3, NaN] 10000 42 \<and> permutation_p [Fin 1, Fin 2] [Fin 3, NaN] 10000 42 \<le> 1"
  using permutation_p_bounds [of "[Fin 1, Fin 2]" "[Fin 3, NaN]" 10000 42] by simp

text \<open>The spread estimates never go below zero: the variance, the standard deviation
  and the coefficient of variation of a group are each a NaN or at least 0, also where
  the sums overflow.\<close>

theorem spread_nonneg:
  "(variance xs = NaN \<or> 0 \<le> variance xs) \<and> (stddev xs = NaN \<or> 0 \<le> stddev xs) \<and>
   (cov xs = NaN \<or> 0 \<le> cov xs)"
proof -
  have sd: "stddev xs = NaN \<or> 0 \<le> stddev xs" unfolding stddev_def by (rule f_sqrt_nonneg)
  have "cov xs = NaN \<or> 0 \<le> cov xs"
  proof (cases "f_eq (mean xs) 0")
    case True
    then show ?thesis by (simp add: cov_def f64_defs)
  next
    case False
    show ?thesis
    proof (cases "mean xs = NaN \<or> stddev xs = NaN")
      case True
      then show ?thesis using False by (auto simp: cov_def Let_def divide_f64_def f_div_def abs_f64_def)
    next
      case n: False
      have "\<bar>mean xs\<bar> \<noteq> NZero" by (cases "mean xs") (auto simp: abs_f64_def)
      then have "stddev xs / \<bar>mean xs\<bar> = NaN \<or> 0 \<le> stddev xs / \<bar>mean xs\<bar>"
        using n sd f_abs_nonneg [of "mean xs"] by (intro f_div_nonneg) auto
      then show ?thesis using False by (simp add: cov_def Let_def)
    qed
  qed
  then show ?thesis using sd variance_nonneg by blast
qed

text \<open>A percentile read off a log2 histogram grows with the percentile asked for:
  with at most 64 buckets (all of which the shift can express) a larger \<open>q\<close> never gives a
  smaller estimate, even where the running total wraps around.\<close>

theorem log2_percentile_mono:
  assumes "length buckets \<le> 64" and "q \<le> q'"
  shows "log2_percentile buckets q \<le> log2_percentile buckets q'"
proof (cases "sum_list buckets = 0")
  case True
  then show ?thesis by (simp add: log2_percentile_def) (simp add: f64_defs)
next
  case False
  let ?t = "\<lambda>q. q * f_of_u64 (sum_list buckets)"
  have ne: "0 < length buckets" using False by (cases buckets) auto
  have t: "?t q \<le> ?t q'" using assms(2) False by (rule target_mono)
  show ?thesis
  proof (cases "first_reaching (?t q') 0 0 buckets")
    case None
    have "midpoint j \<le> midpoint (length buckets - 1)"
      if "first_reaching (?t q) 0 0 buckets = Some j" for j
      using first_reaching_bound [OF that] assms(1) by (intro midpoint_mono) auto
    moreover have "midpoint (length buckets - 1) \<le> midpoint (length buckets - 1)"
      using assms(1) ne by (intro midpoint_mono) auto
    ultimately show ?thesis using None False
      by (cases "first_reaching (?t q) 0 0 buckets") (auto simp: log2_percentile_def)
  next
    case (Some j')
    obtain j where j: "first_reaching (?t q) 0 0 buckets = Some j" "j \<le> j'"
      using first_reaching_mono [OF t Some] by blast
    have "midpoint j \<le> midpoint j'"
      using j(2) first_reaching_bound [OF Some] assms(1) by (intro midpoint_mono) auto
    then show ?thesis using Some j False by (simp add: log2_percentile_def)
  qed
qed

theorem log2_percentile_mono_witness:
  "log2_percentile [0, 3, 5] (f_lit (1 / 2)) \<le> log2_percentile [0, 3, 5] (f_lit (99 / 100))"
proof (rule log2_percentile_mono)
  show "f_lit (1 / 2) \<le> f_lit (99 / 100)" by code_simp
qed simp

text \<open>The percentile of an explicit-bounds histogram never indexes past its
  bounds when the histogram has at most one bucket more than bounds (the overflow
  bucket): then it returns a number for every \<open>q\<close>. With one bucket more it can panic
  (\<open>explicit_percentile_panics\<close>).\<close>

theorem explicit_percentile_total:
  assumes "length buckets \<le> length bounds + 1"
  shows "is_ok (explicit_percentile buckets bounds q)"
  using assms by (rule explicit_percentile_ok)

theorem explicit_percentile_total_witness:
  "is_ok (explicit_percentile [2, 2] [Fin 1] (f_lit (99 / 100)))"
  by (rule explicit_percentile_total) simp

end
