(* ===== verification/Reduce.thy ===== *)
theory Reduce
  imports Json Stats
begin

text \<open>
  \<open>crates/gate/src/reduce.rs\<close>: an AssayRun, read as a JSON value, reduced to a flat
  list of scalar metrics. Histograms become a mean, a p50 and a p99, counters a value
  and a rate, gauges a value, workload reports one metric per numeric leaf, spans a
  duration. \<open>to_text\<close> stands for \<open>serde_json\<close>'s \<open>Value::to_string\<close>, used on label
  values that are not strings.
\<close>

datatype polarity = LowerBetter | HigherBetter | Unknown

record metric =
  m_id :: string
  m_value :: f64
  m_contaminated :: bool
  m_polarity :: polarity

definition polarity_of :: "string \<Rightarrow> string \<Rightarrow> polarity" where
  "polarity_of mid u = (let l = to_lower mid in
     if str_contains l ''bytes'' \<or> str_contains l ''packets'' \<or> str_contains l ''throughput''
        \<or> str_contains l ''iops'' \<or> u = ''By''
     then HigherBetter
     else if str_contains l ''mem_consumed'' \<or> str_contains l ''memory_consumed''
        \<or> str_contains l ''rss''
     then LowerBetter
     else if str_contains l ''on_cpu'' \<or> str_contains l ''utilis'' \<or> str_contains l ''cpu_ns''
     then Unknown
     else if u = ''ns'' \<or> u = ''us'' \<or> u = ''ms'' \<or> u = ''s''
     then LowerBetter
     else Unknown)"

definition f_field :: "json \<Rightarrow> string \<Rightarrow> f64 option" where
  "f_field v k = Option.bind (jget v k) as_f64"

text \<open>Every numeric leaf with its dotted path, in visiting order.\<close>

fun flatten_numbers :: "string \<Rightarrow> json \<Rightarrow> (string \<times> f64) list"
and flatten_fields :: "string \<Rightarrow> (string \<times> json) list \<Rightarrow> (string \<times> f64) list" where
  "flatten_numbers prefix (JObject m) = flatten_fields prefix m"
| "flatten_numbers prefix (JNumber n) = [(prefix, num_as_f64 n)]"
| "flatten_numbers prefix JNull = []"
| "flatten_numbers prefix (JBool b) = []"
| "flatten_numbers prefix (JString s) = []"
| "flatten_numbers prefix (JArray xs) = []"
| "flatten_fields prefix [] = []"
| "flatten_fields prefix ((k, v) # m) =
     (let key = if prefix = [] then k else prefix @ ''.'' @ k
      in flatten_numbers key v @ flatten_fields prefix m)"

definition u64s :: "json \<Rightarrow> u64 list" where
  "u64s v = or_else (map_option (List.map_filter as_u64) (as_array v)) []"

definition f64s :: "json \<Rightarrow> f64 list" where
  "f64s v = or_else (map_option (List.map_filter as_f64) (as_array v)) []"

definition scalar_to_string :: "(json \<Rightarrow> string) \<Rightarrow> json \<Rightarrow> string" where
  "scalar_to_string to_text v = (case v of JString s \<Rightarrow> s | other \<Rightarrow> to_text other)"

definition labels_suffix :: "(json \<Rightarrow> string) \<Rightarrow> json option \<Rightarrow> string" where
  "labels_suffix to_text labels = (case Option.bind labels as_object of
     Some obj \<Rightarrow>
       if obj \<noteq> [] then
         let pairs = map (\<lambda>(k, v). (k, scalar_to_string to_text v)) obj in
         concat (map (\<lambda>(k, v). ''|'' @ k @ ''='' @ v) (sort_key fst pairs))
       else ''''
   | None \<Rightarrow> '''')"

definition overbudget_sources :: "json \<Rightarrow> string set" where
  "overbudget_sources run = (case get_array run ''self_metrics'' of
     Some arr \<Rightarrow> set (List.map_filter (\<lambda>pc.
       if or_else (get_bool pc ''over_budget'') False then get_str pc ''probe_id'' else None) arr)
   | None \<Rightarrow> {})"

definition window_ns :: "json \<Rightarrow> f64 option" where
  "window_ns run = Option.bind (Option.bind (jget run ''capture_meta'') (\<lambda>m. jget m ''window_ns'')) as_f64"

definition global_overflow :: "json \<Rightarrow> bool" where
  "global_overflow run = or_else (Option.bind (Option.bind (jget run ''capture_meta'')
     (\<lambda>m. jget m ''cardinality_overflow'')) as_bool) False"

text \<open>The mean estimate of an explicit-bounds histogram: its loop reads the bound below
  every bucket but the first.\<close>

fun explicit_acc :: "f64 list \<Rightarrow> f64 \<Rightarrow> nat \<Rightarrow> u64 list \<Rightarrow> fault + f64" where
  "explicit_acc bounds acc i [] = Inr acc"
| "explicit_acc bounds acc i (b # bs) = and_then (bucket_lo bounds i) (\<lambda>lo.
     explicit_acc bounds (acc + f_of_u64 b * (lo + bucket_hi bounds i lo) / f_lit 2) (Suc i) bs)"

definition explicit_mean :: "u64 list \<Rightarrow> f64 list \<Rightarrow> fault + f64" where
  "explicit_mean buckets bounds = (let total = sum_list buckets in
     if total = 0 then Inr 0
     else map_ok (\<lambda>acc. acc / f_of_u64 total) (explicit_acc bounds 0 0 buckets))"

text \<open>The three estimates of a histogram series.\<close>

definition histogram_estimates :: "json \<Rightarrow> fault + (f64 \<times> f64 \<times> f64)" where
  "histogram_estimates data = (let
     layout = or_else (get_str data ''layout'') ''log2'';
     buckets = u64s (or_else (jget data ''buckets'') JNull)
     in if layout = ''explicit'' then
          let bounds = f64s (or_else (jget data ''explicit_bounds'') JNull) in
          and_then (explicit_mean buckets bounds) (\<lambda>mean_v.
          and_then (explicit_percentile buckets bounds (f_lit (1 / 2))) (\<lambda>p50.
          and_then (explicit_percentile buckets bounds (f_lit (99 / 100))) (\<lambda>p99.
          Inr (mean_v, p50, p99))))
        else
          let mean_v = (case (f_field data ''sum'', f_field data ''count'') of
              (Some s, Some c) \<Rightarrow> if 0 < c then s / c else log2_mean buckets
            | _ \<Rightarrow> log2_mean buckets)
          in Inr (mean_v, log2_percentile buckets (f_lit (1 / 2)),
                  log2_percentile buckets (f_lit (99 / 100))))"

text \<open>One series of the run: the metrics it pushes. A series without data pushes none.\<close>

definition series_base :: "(json \<Rightarrow> string) \<Rightarrow> json \<Rightarrow> string" where
  "series_base to_text s = (let name = or_else (get_str s ''name'') '''' in
     (case get_str s ''key'' of Some k \<Rightarrow> name @ ''|'' @ k | None \<Rightarrow> name)
     @ labels_suffix to_text (jget s ''labels''))"

definition series_contaminated :: "string set \<Rightarrow> bool \<Rightarrow> json \<Rightarrow> bool" where
  "series_contaminated over global s =
     (or_else (get_str s ''source'') '''' \<in> over
      \<or> or_else (get_bool s ''cardinality_overflow'') False \<or> global)"

definition series_metric :: "json \<Rightarrow> bool \<Rightarrow> string \<Rightarrow> f64 \<Rightarrow> metric" where
  "series_metric s contaminated mid v =
     \<lparr>m_id = mid, m_value = v, m_contaminated = contaminated,
      m_polarity = polarity_of mid (or_else (get_str s ''unit'') '''')\<rparr>"

definition reduce_series ::
  "(json \<Rightarrow> string) \<Rightarrow> string set \<Rightarrow> bool \<Rightarrow> f64 option \<Rightarrow> json \<Rightarrow> fault + metric list" where
  "reduce_series to_text over global win s = (let
     kind = or_else (get_str s ''kind'') '''';
     push = series_metric s (series_contaminated over global s);
     base = series_base to_text s
     in case jget s ''data'' of
       None \<Rightarrow> Inr []
     | Some data \<Rightarrow>
         if kind = ''histogram'' then
           map_ok (\<lambda>(mean_v, p50, p99).
             [push (base @ ''|mean'') mean_v, push (base @ ''|p50'') p50, push (base @ ''|p99'') p99])
             (histogram_estimates data)
         else if kind = ''counter'' then
           let v = or_else (f_field data ''value'') 0 in
           Inr (push (base @ ''|value'') v #
             (case win of
               Some w \<Rightarrow> if 0 < w then [push (base @ ''|rate'') (v / w * f_lit 1000000000)] else []
             | None \<Rightarrow> []))
         else if kind = ''gauge'' then
           Inr [push (base @ ''|value'') (or_else (f_field data ''value'') 0)]
         else Inr [])"

definition report_metric :: "string \<times> f64 \<Rightarrow> metric" where
  "report_metric kn = (let (k, n) = kn;
     mid = ''workload:'' @ k;
     u = (if ends_with ''_ns'' k then ''ns'' else if ends_with ''_us'' k then ''us''
             else if ends_with ''_ms'' k then ''ms'' else '''')
     in \<lparr>m_id = mid, m_value = n, m_contaminated = False, m_polarity = polarity_of mid u\<rparr>)"

definition report_metrics :: "json \<Rightarrow> metric list" where
  "report_metrics run = (case jget run ''workload_report'' of
     Some rep \<Rightarrow> map report_metric (flatten_numbers '''' rep)
   | None \<Rightarrow> [])"

definition span_metric :: "json \<Rightarrow> metric option" where
  "span_metric sp = (case (get_f64 sp ''start_unix_nano'', get_f64 sp ''end_unix_nano'') of
     (Some s, Some e) \<Rightarrow> Some \<lparr>m_id = ''span:'' @ or_else (get_str sp ''name'') '''' @ ''|dur'',
       m_value = e - s, m_contaminated = False, m_polarity = LowerBetter\<rparr>
   | _ \<Rightarrow> None)"

definition span_metrics :: "json \<Rightarrow> metric list" where
  "span_metrics run = (case get_array run ''spans'' of
     Some spans \<Rightarrow> List.map_filter span_metric spans
   | None \<Rightarrow> [])"

definition run_series :: "json \<Rightarrow> json list" where
  "run_series run = or_else (get_array run ''series'') []"

definition reduce :: "(json \<Rightarrow> string) \<Rightarrow> json \<Rightarrow> fault + metric list" where
  "reduce to_text run = map_ok (\<lambda>mss. concat mss @ report_metrics run @ span_metrics run)
     (map_res (reduce_series to_text (overbudget_sources run) (global_overflow run) (window_ns run))
       (run_series run))"

section \<open>Lemmas\<close>

lemma reduce_series_metric:
  assumes "reduce_series tt over global win s = Inr ms" and "m \<in> set ms"
  shows "m_contaminated m = series_contaminated over global s
         \<and> starts_with (series_base tt s @ ''|'') (m_id m)
         \<and> m_polarity m = polarity_of (m_id m) (or_else (get_str s ''unit'') '''')"
  using assms
  by (auto simp: reduce_series_def Let_def series_metric_def starts_with_append result_simps
      split: option.splits if_splits prod.splits)

lemma explicit_acc_total:
  "i + length bs \<le> length bounds + 1 \<Longrightarrow> is_ok (explicit_acc bounds acc i bs)"
  by (induction bounds acc i bs rule: explicit_acc.induct)
    (auto simp: bucket_lo_def)

lemma histogram_estimates_total:
  assumes "get_str data ''layout'' = Some ''explicit'' \<Longrightarrow>
      length (u64s (or_else (jget data ''buckets'') JNull))
        \<le> length (f64s (or_else (jget data ''explicit_bounds'') JNull)) + 1"
  shows "is_ok (histogram_estimates data)"
proof (cases "get_str data ''layout'' = Some ''explicit''")
  case True
  define bs bo where "bs = u64s (or_else (jget data ''buckets'') JNull)"
    and "bo = f64s (or_else (jget data ''explicit_bounds'') JNull)"
  have le: "length bs \<le> length bo + 1" using assms True by (simp add: bs_def bo_def)
  obtain m where m: "explicit_mean bs bo = Inr m" using explicit_acc_total [of 0 bs bo 0] le
    by (cases "sum_list bs = 0") (auto simp: explicit_mean_def Let_def is_ok_iff)
  have "is_ok (explicit_percentile bs bo q)" for q using le by (rule explicit_percentile_ok)
  then obtain p where p: "explicit_percentile bs bo q = Inr (p q)" for q
    unfolding is_ok_iff by metis
  show ?thesis using True m p by (simp add: histogram_estimates_def bs_def bo_def Let_def)
next
  case False
  then show ?thesis
    by (cases "get_str data ''layout''") (auto simp: histogram_estimates_def Let_def)
qed

lemma map_res_total: "(\<And>x. x \<in> set xs \<Longrightarrow> is_ok (g x)) \<Longrightarrow> is_ok (map_res g xs)"
  by (induction xs) (force simp: is_ok_iff)+

lemma reduce_series_total:
  assumes "\<And>data. jget s ''data'' = Some data \<Longrightarrow> is_ok (histogram_estimates data)"
  shows "is_ok (reduce_series tt over global win s)"
  using assms by (auto simp: reduce_series_def Let_def is_ok_iff split: option.splits)

lemma in_overbudget_sources:
  "p \<in> overbudget_sources run \<longleftrightarrow> (\<exists>arr pc. get_array run ''self_metrics'' = Some arr \<and> pc \<in> set arr
     \<and> get_bool pc ''over_budget'' = Some True \<and> get_str pc ''probe_id'' = Some p)"
  by (auto simp: overbudget_sources_def set_map_filter split: option.splits if_splits)

lemma span_metric_clean: "span_metric sp = Some m \<Longrightarrow> \<not> m_contaminated m \<and> m_polarity m = LowerBetter"
  by (auto simp: span_metric_def split: option.splits)

lemma mem_rule_is_shadowed:
  "polarity_of ''hostmem.mem_consumed_bytes'' ''KiBy'' = HigherBetter"
  by code_simp

section \<open>Properties\<close>

text \<open>C10: Contamination is attached exactly where it belongs: a reduced run is, series by
  series and in order, the metrics of each series, followed by the workload report and
  the spans; every metric of a series is contaminated iff the series' source is a probe
  that reported over budget, or the series overflowed its cardinality, or the capture
  did; its id starts with the series' name, key and labels; report and span metrics are
  never contaminated.\<close>

theorem reduce_contamination:
  assumes "reduce tt run = Inr ms"
  shows "\<exists>mss. ms = concat mss @ report_metrics run @ span_metrics run
    \<and> length mss = length (run_series run)
    \<and> (\<forall>i < length mss. let s = run_series run ! i in \<forall>m \<in> set (mss ! i).
         (m_contaminated m \<longleftrightarrow>
            or_else (get_str s ''source'') '''' \<in> overbudget_sources run
            \<or> get_bool s ''cardinality_overflow'' = Some True \<or> global_overflow run)
         \<and> starts_with (series_base tt s @ ''|'') (m_id m))
    \<and> (\<forall>m \<in> set (report_metrics run @ span_metrics run). \<not> m_contaminated m)"
proof -
  let ?red = "reduce_series tt (overbudget_sources run) (global_overflow run) (window_ns run)"
  obtain mss where mss: "map_res ?red (run_series run) = Inr mss"
    and ms: "ms = concat mss @ report_metrics run @ span_metrics run"
    using assms by (auto simp: reduce_def result_simps)
  have len: "length mss = length (run_series run)" using mss by (rule map_res_Inr_length)
  have each: "?red (run_series run ! i) = Inr (mss ! i)" if "i < length mss" for i
    using map_res_Inr_nth [OF mss] that len by simp
  have "\<not> m_contaminated m" if "m \<in> set (report_metrics run @ span_metrics run)" for m
    using that by (auto simp: report_metrics_def report_metric_def span_metrics_def
        set_map_filter Let_def dest: span_metric_clean split: option.splits prod.splits)
  then show ?thesis
    using ms len reduce_series_metric [OF each] by (auto simp: series_contaminated_def Let_def)
qed

definition sample_run :: json where
  "sample_run = jobj
     [(''self_metrics'', JArray [jobj [(''probe_id'', JString ''softirq''), (''over_budget'', JBool True)]]),
      (''series'', JArray
         [jobj [(''name'', JString ''net.drops''), (''kind'', JString ''gauge''),
                (''source'', JString ''softirq''), (''data'', jobj [(''value'', JNumber (PosInt 3))])],
          jobj [(''name'', JString ''cpu.load''), (''kind'', JString ''gauge''),
                (''source'', JString ''sched''), (''data'', jobj [(''value'', JNumber (PosInt 7))])]])]"

theorem reduce_contamination_witness:
  "\<exists>ms. reduce (\<lambda>_. '''') sample_run = Inr ms \<and> map m_contaminated ms = [True, False] \<and>
     (\<exists>mss. ms = concat mss @ report_metrics sample_run @ span_metrics sample_run
       \<and> length mss = length (run_series sample_run))"
proof -
  define ms where "ms = projr (reduce (\<lambda>_. '''') sample_run)"
  have "is_ok (reduce (\<lambda>_. '''') sample_run)" by code_simp
  then have ms: "reduce (\<lambda>_. '''') sample_run = Inr ms" by (auto simp: ms_def is_ok_iff)
  have "map m_contaminated ms = [True, False]" unfolding ms_def by code_simp
  then show ?thesis using ms reduce_contamination [OF ms] by auto
qed

text \<open>Reduction returns on every run whose explicit-bounds histograms have at most one
  bucket more than bounds; no other field, present, absent or of the wrong type, can
  make it panic.\<close>

theorem reduce_total:
  assumes "\<And>s data. s \<in> set (run_series run) \<Longrightarrow> jget s ''data'' = Some data \<Longrightarrow>
    get_str data ''layout'' = Some ''explicit'' \<Longrightarrow>
    length (u64s (or_else (jget data ''buckets'') JNull))
      \<le> length (f64s (or_else (jget data ''explicit_bounds'') JNull)) + 1"
  shows "is_ok (reduce tt run)"
proof -
  have "is_ok (map_res (reduce_series tt (overbudget_sources run) (global_overflow run) (window_ns run))
     (run_series run))"
    using assms by (intro map_res_total reduce_series_total histogram_estimates_total) blast
  then show ?thesis by (auto simp: reduce_def is_ok_iff)
qed

theorem reduce_total_witness: "is_ok (reduce (\<lambda>_. '''') sample_run)"
proof (rule reduce_total)
  fix s data
  assume "s \<in> set (run_series sample_run)" and "jget s ''data'' = Some data"
    and l: "get_str data ''layout'' = Some ''explicit''"
  moreover have "list_all (\<lambda>s. case jget s ''data'' of None \<Rightarrow> True
      | Some d \<Rightarrow> get_str d ''layout'' \<noteq> Some ''explicit'') (run_series sample_run)"
    by code_simp
  ultimately have "get_str data ''layout'' \<noteq> Some ''explicit''" by (auto simp: list_all_iff)
  with l show "length (u64s (or_else (jget data ''buckets'') JNull))
      \<le> length (f64s (or_else (jget data ''explicit_bounds'') JNull)) + 1" by simp
qed

text \<open>A series keeps its identity whatever order its producer writes the labels in: two
  objects with the same label pairs, each key once, give the same id suffix.\<close>

theorem labels_order_irrelevant:
  assumes "mset kvs = mset kvs'" and "distinct (map fst kvs)"
  shows "labels_suffix tt (Some (JObject kvs)) = labels_suffix tt (Some (JObject kvs'))"
proof -
  let ?h = "map (\<lambda>(k, v). (k, scalar_to_string tt v))"
  have m: "mset (?h kvs) = mset (?h kvs')" using assms(1) by simp
  have "map fst (?h kvs) = map fst kvs" by (simp add: comp_def case_prod_unfold)
  then have "inj_on fst (set (?h kvs))" using assms(2) by (metis distinct_map)
  then have "sort_key fst (?h kvs) = sort_key fst (?h kvs')" by (rule sort_key_eq_sort_key [OF m])
  moreover have "kvs = [] \<longleftrightarrow> kvs' = []" using assms(1) by auto
  ultimately show ?thesis by (simp add: labels_suffix_def Let_def)
qed

theorem labels_order_irrelevant_witness:
  "labels_suffix (\<lambda>_. '''') (Some (JObject [(''state'', JString ''paused''), (''backend'', JString ''tap'')]))
   = ''|backend=tap|state=paused''
   \<and> labels_suffix (\<lambda>_. '''') (Some (JObject [(''backend'', JString ''tap''), (''state'', JString ''paused'')]))
   = ''|backend=tap|state=paused''"
proof -
  have "labels_suffix (\<lambda>_. '''') (Some (JObject [(''state'', JString ''paused''), (''backend'', JString ''tap'')]))
   = ''|backend=tap|state=paused''" by code_simp
  then show ?thesis
    using labels_order_irrelevant [of "[(''state'', JString ''paused''), (''backend'', JString ''tap'')]"
        "[(''backend'', JString ''tap''), (''state'', JString ''paused'')]"] by simp
qed

end
