(* ===== verification/Gate.thy ===== *)
theory Gate
  imports Reduce
begin

text \<open>
  \<open>crates/gate/src/gate.rs\<close>: the decision gate. Runs are reduced and collected per
  metric; \<open>ab\<close> compares two groups with the permutation test, \<open>drift\<close> a trajectory with
  a baseline, \<open>triad\<close> adds the overhead of the probes to \<open>ab\<close>. The outcome is a record
  here and \<open>outcome_json\<close> is the JSON value the code builds from it.
\<close>

section \<open>Configuration\<close>

record config =
  p_threshold :: f64
  noise_threshold :: f64
  min_effect :: f64
  resamples :: nat
  drift_k :: f64
  seed :: u64
  ignore :: "string list"
  allow_ungraded :: bool
  strict_single_cell :: bool

definition default_config :: config where
  "default_config = \<lparr>p_threshold = f_lit (1 / 100), noise_threshold = f_lit (5 / 100),
     min_effect = f_lit (5 / 100), resamples = 10000, drift_k = f_lit 3,
     seed = 0xA55A1571D0000001, ignore = [], allow_ungraded = False,
     strict_single_cell = False\<rparr>"

section \<open>Reading a run\<close>

definition grade_of :: "json \<Rightarrow> string" where
  "grade_of run = (case get_str run ''grade'' of
     Some g \<Rightarrow> g
   | None \<Rightarrow> (case jget run ''fingerprint'' of
       None \<Rightarrow> ''invalid''
     | Some fp \<Rightarrow>
         if list_all (\<lambda>k. case jget fp k of Some v \<Rightarrow> v \<noteq> JNull | None \<Rightarrow> False)
              [''kernel_version'', ''cpu_model'', ''tenancy'', ''cpu_governor'']
         then ''valid'' else ''invalid''))"

definition tenancy_of :: "json \<Rightarrow> string option" where
  "tenancy_of run = Option.bind (Option.bind (jget run ''fingerprint'') (\<lambda>fp. jget fp ''tenancy'')) as_str"

definition run_params_hash :: "json \<Rightarrow> string" where
  "run_params_hash run = or_else (Option.bind (Option.bind (jget run ''identity'')
     (\<lambda>i. jget i ''params_hash'')) as_str) ''_''"

section \<open>Collecting samples\<close>

record group =
  samples :: "(string, f64 list) bmap"
  contaminated :: "(string, bool) bmap"
  polarities :: "(string, polarity) bmap"
  cells :: "(string, string list) bmap"

definition empty_group :: group where
  "empty_group = \<lparr>samples = bm_empty, contaminated = bm_empty, polarities = bm_empty, cells = bm_empty\<rparr>"

definition collect_metric :: "string \<Rightarrow> group \<Rightarrow> metric \<Rightarrow> group" where
  "collect_metric cell g m =
     \<lparr>samples = bm_update (m_id m) [] (\<lambda>vs. vs @ [m_value m]) (samples g),
      contaminated = bm_update (m_id m) False (\<lambda>c. c \<or> m_contaminated m) (contaminated g),
      polarities = bm_or_insert (m_id m) (m_polarity m) (polarities g),
      cells = bm_update (m_id m) [] (push_new cell) (cells g)\<rparr>"

definition collect_run :: "(json \<Rightarrow> string) \<Rightarrow> group \<Rightarrow> json \<Rightarrow> fault + group" where
  "collect_run to_text g run =
     map_ok (foldl (collect_metric (run_params_hash run)) g) (reduce to_text run)"

definition collect :: "(json \<Rightarrow> string) \<Rightarrow> json list \<Rightarrow> fault + group" where
  "collect to_text runs = foldl_res (collect_run to_text) empty_group runs"

definition bad_direction :: "polarity \<Rightarrow> f64 \<Rightarrow> bool option" where
  "bad_direction pol rel_delta = (case pol of
     LowerBetter \<Rightarrow> Some (0 < rel_delta)
   | HigherBetter \<Rightarrow> Some (rel_delta < 0)
   | Unknown \<Rightarrow> None)"

section \<open>Admission\<close>

definition validate_run ::
  "config \<Rightarrow> string list \<times> string list \<Rightarrow> string \<times> json \<Rightarrow> string + (string list \<times> string list)" where
  "validate_run cfg st lr = (let (notes, tenancies) = st; (label, run) = lr; g = grade_of run in
     if g \<noteq> ''reproducible'' \<and> \<not> allow_ungraded cfg
     then Inl (label @ '' run grade is '' @ [CHR 0x27] @ g @ [CHR 0x27] @ '', not '' @ [CHR 0x27]
       @ ''reproducible'' @ [CHR 0x27] @ ''; pass --allow-ungraded to override'')
     else Inr (if g \<noteq> ''reproducible''
               then notes @ [label @ '' run admitted at grade '' @ [CHR 0x27] @ g @ [CHR 0x27] @ '' (--allow-ungraded)'']
               else notes,
               case tenancy_of run of Some t \<Rightarrow> tenancies @ [t] | None \<Rightarrow> tenancies))"

definition validate :: "json list \<Rightarrow> json list \<Rightarrow> config \<Rightarrow> string + string list" where
  "validate a b cfg = and_then
     (foldl_res (validate_run cfg) ([], []) (map (Pair ''A'') a @ map (Pair ''B'') b))
     (\<lambda>(notes, tenancies). let ts = remdups_adj (sort tenancies) in
        if 1 < length ts
        then Inl (''refusing to compare across tenancy classes: '' @ debug_strs ts)
        else Inr notes)"

section \<open>The outcome\<close>

definition json_f64 :: "f64 \<Rightarrow> json" where
  "json_f64 x = (if f_finite x then JNumber (Float x) else JNull)"

definition json_nat :: "nat \<Rightarrow> json" where
  "json_nat n = JNumber (PosInt (of_nat n))"

record outcome =
  o_verdict :: string
  o_per_metric :: "(string, json) bmap"
  o_notes :: "string list"
  o_mode :: string
  o_detail :: "json list"
  o_overhead :: "json option"

definition outcome_json :: "outcome \<Rightarrow> json" where
  "outcome_json out = jobj
     [(''outcome'', jobj [(''verdict'', JString (o_verdict out)),
        (''per_metric'', JObject (o_per_metric out)),
        (''notes'', JArray (map JString (o_notes out)))]),
      (''report'', jobj ([(''mode'', JString (o_mode out)), (''detail'', JArray (o_detail out))]
        @ (case o_overhead out of Some v \<Rightarrow> [(''overhead'', v)] | None \<Rightarrow> [])))]"

definition metric_entry :: "f64 \<Rightarrow> f64 \<Rightarrow> bool \<Rightarrow> bool \<Rightarrow> json" where
  "metric_entry delta p significant noisy = jobj [(''delta'', json_f64 delta), (''p'', json_f64 p),
     (''significant'', JBool significant), (''noisy'', JBool noisy)]"

section \<open>The A/B comparison\<close>

text \<open>What the loop body of \<open>ab\<close> computes for one metric.\<close>

record judgement =
  j_id :: string
  j_status :: string
  j_mean_a :: f64
  j_mean_b :: f64
  j_rel :: f64
  j_p :: f64
  j_cov :: f64
  j_significant :: bool
  j_noisy :: bool
  j_n_a :: nat
  j_n_b :: nat
  j_cells :: "string list"

definition rel_delta :: "f64 \<Rightarrow> f64 \<Rightarrow> f64" where
  "rel_delta ma mb = (if \<not> f_eq ma 0 then (mb - ma) / ma else if f_eq mb 0 then 0 else 1)"

definition status_of :: "bool \<Rightarrow> bool \<Rightarrow> bool \<Rightarrow> bool \<Rightarrow> bool \<Rightarrow> polarity \<Rightarrow> f64 \<Rightarrow> string" where
  "status_of ignored contam significant strong noisy pol rel =
     (if ignored then ''ignored''
      else if contam then ''contaminated''
      else if \<not> significant \<or> \<not> strong \<or> noisy then ''stable''
      else (case bad_direction pol rel of
        Some True \<Rightarrow> ''regressed''
      | Some False \<Rightarrow> ''improved''
      | None \<Rightarrow> ''changed''))"

definition judge :: "config \<Rightarrow> group \<Rightarrow> group \<Rightarrow> string \<Rightarrow> f64 list \<Rightarrow> f64 list \<Rightarrow> judgement" where
  "judge cfg ga gb k avals bvals = (let
     ignored = list_ex (str_contains k) (ignore cfg);
     contam = (or_else (bm_get (contaminated ga) k) False \<or> or_else (bm_get (contaminated gb) k) False);
     ma = mean avals;
     mb = mean bvals;
     rel = rel_delta ma mb;
     p = permutation_p avals bvals (resamples cfg) (seed cfg);
     cv = within_cov avals bvals;
     significant = (p < p_threshold cfg);
     strong = (min_effect cfg \<le> \<bar>rel\<bar>);
     noisy = (noise_threshold cfg < cv);
     pol = or_else (bm_get (polarities ga) k) Unknown
     in \<lparr>j_id = k, j_status = status_of ignored contam significant strong noisy pol rel,
         j_mean_a = ma, j_mean_b = mb, j_rel = rel, j_p = p, j_cov = cv,
         j_significant = significant, j_noisy = noisy,
         j_n_a = length avals, j_n_b = length bvals,
         j_cells = or_else (bm_get (cells ga) k) []\<rparr>)"

text \<open>\<open>continue\<close> when the metric is missing from B or either side has fewer than two samples.\<close>

definition judge_entry :: "config \<Rightarrow> group \<Rightarrow> group \<Rightarrow> string \<times> f64 list \<Rightarrow> judgement option" where
  "judge_entry cfg ga gb e = (let (k, avals) = e in
     case bm_get (samples gb) k of
       None \<Rightarrow> None
     | Some bvals \<Rightarrow>
         if length avals < 2 \<or> length bvals < 2 then None
         else Some (judge cfg ga gb k avals bvals))"

record ab_state =
  s_per_metric :: "(string, json) bmap"
  s_detail :: "json list"
  s_regressed :: bool
  s_contaminated :: bool
  s_single_cell :: "string list"

definition ab_init :: ab_state where
  "ab_init = \<lparr>s_per_metric = bm_empty, s_detail = [], s_regressed = False,
     s_contaminated = False, s_single_cell = []\<rparr>"

definition judgement_json :: "judgement \<Rightarrow> json" where
  "judgement_json j = jobj [(''id'', JString (j_id j)), (''status'', JString (j_status j)),
     (''mean_a'', json_f64 (j_mean_a j)), (''mean_b'', json_f64 (j_mean_b j)),
     (''rel_delta'', json_f64 (j_rel j)), (''p'', json_f64 (j_p j)), (''cov'', json_f64 (j_cov j)),
     (''n_a'', json_nat (j_n_a j)), (''n_b'', json_nat (j_n_b j)),
     (''cells'', JArray (map JString (j_cells j)))]"

definition record_judgement :: "ab_state \<Rightarrow> judgement \<Rightarrow> ab_state" where
  "record_judgement st j = st
     \<lparr>s_contaminated := s_contaminated st \<or> j_status j = ''contaminated'',
      s_regressed := s_regressed st \<or> j_status j = ''regressed'',
      s_single_cell := (if j_status j = ''regressed'' \<and> length (j_cells j) < 2
        then s_single_cell st @ [j_id j] else s_single_cell st),
      s_per_metric := bm_insert (j_id j)
        (metric_entry (j_rel j) (j_p j) (j_significant j) (j_noisy j)) (s_per_metric st),
      s_detail := s_detail st @ [judgement_json j]\<rparr>"

definition ab_step :: "config \<Rightarrow> group \<Rightarrow> group \<Rightarrow> ab_state \<Rightarrow> string \<times> f64 list \<Rightarrow> ab_state" where
  "ab_step cfg ga gb st e = (case judge_entry cfg ga gb e of
     None \<Rightarrow> st | Some j \<Rightarrow> record_judgement st j)"

definition ab_finish :: "config \<Rightarrow> string list \<Rightarrow> group \<Rightarrow> group \<Rightarrow> ab_state \<Rightarrow> fault + outcome" where
  "ab_finish cfg notes ga gb st =
     (if s_per_metric st = [] then
        Inl (Error (''no metric was comparable: no series appears in both groups with at least two samples per group (A has ''
          @ show_nat (length (samples ga)) @ '' series, B has '' @ show_nat (length (samples gb))
          @ ''). A comparison this small cannot be gated; add more repeats per group.''))
      else Inr
        \<lparr>o_verdict = (if s_contaminated st then ''contaminated''
            else if s_regressed st then ''fail'' else ''pass''),
         o_per_metric = s_per_metric st,
         o_notes = (if \<not> s_contaminated st \<and> s_regressed st \<and> s_single_cell st \<noteq> [] \<and> \<not> strict_single_cell cfg
            then notes @ [''regressions in a single parameterisation cell (possible noise): ''
              @ debug_strs (s_single_cell st)
              @ ''; verdict is fail but confirm across cells or pass --strict-single-cell to treat as definitive'']
            else notes),
         o_mode = ''ab_permutation'', o_detail = s_detail st, o_overhead = None\<rparr>)"

definition ab :: "(json \<Rightarrow> string) \<Rightarrow> json list \<Rightarrow> json list \<Rightarrow> config \<Rightarrow> fault + outcome" where
  "ab to_text a b cfg = and_then (map_err Error (validate a b cfg)) (\<lambda>notes.
     and_then (collect to_text a) (\<lambda>ga.
     and_then (collect to_text b) (\<lambda>gb.
     ab_finish cfg notes ga gb (foldl (ab_step cfg ga gb) ab_init (samples ga)))))"

section \<open>Longitudinal drift\<close>

record drift_judgement =
  d_id :: string
  d_status :: string
  d_base_mean :: f64
  d_base_std :: f64
  d_cand_mean :: f64
  d_rel :: f64
  d_slope :: f64
  d_stderr :: f64
  d_drifted :: bool

definition drift_judge :: "config \<Rightarrow> group \<Rightarrow> string \<Rightarrow> f64 list \<Rightarrow> f64 list \<Rightarrow> drift_judgement" where
  "drift_judge cfg gb k base_vals cand_vals = (let
     base_mean = mean base_vals;
     base_std = stddev base_vals;
     cand_mean = mean cand_vals;
     rel = (if \<not> f_eq base_mean 0 then (cand_mean - base_mean) / base_mean else 0);
     level_shift = (if 0 < base_std then drift_k cfg * base_std < \<bar>cand_mean - base_mean\<bar>
        else min_effect cfg \<le> \<bar>rel\<bar>);
     (slope, se) = linreg_slope_stderr cand_vals;
     trending = (0 < se \<and> f_lit 2 < \<bar>slope / se\<bar>);
     pol = or_else (bm_get (polarities gb) k) Unknown;
     drifted = (level_shift \<and> min_effect cfg \<le> \<bar>rel\<bar>);
     bad = or_else (bad_direction pol rel) False;
     status = (if drifted \<and> bad then ''drift_bad'' else if drifted then ''drift''
        else if trending then ''trending'' else ''stable'')
     in \<lparr>d_id = k, d_status = status, d_base_mean = base_mean, d_base_std = base_std,
         d_cand_mean = cand_mean, d_rel = rel, d_slope = slope, d_stderr = se,
         d_drifted = drifted\<rparr>)"

definition drift_entry :: "config \<Rightarrow> group \<Rightarrow> group \<Rightarrow> string \<times> f64 list \<Rightarrow> drift_judgement option" where
  "drift_entry cfg gb gc e = (let (k, base_vals) = e in
     case bm_get (samples gc) k of
       None \<Rightarrow> None
     | Some cand_vals \<Rightarrow>
         if length base_vals < 2 \<or> length cand_vals < 2 then None
         else if list_ex (str_contains k) (ignore cfg) then None
         else Some (drift_judge cfg gb k base_vals cand_vals))"

definition drift_json :: "drift_judgement \<Rightarrow> json" where
  "drift_json d = jobj [(''id'', JString (d_id d)), (''status'', JString (d_status d)),
     (''base_mean'', json_f64 (d_base_mean d)), (''base_std'', json_f64 (d_base_std d)),
     (''cand_mean'', json_f64 (d_cand_mean d)), (''rel_delta'', json_f64 (d_rel d)),
     (''slope'', json_f64 (d_slope d)), (''slope_stderr'', json_f64 (d_stderr d))]"

record drift_state =
  t_per_metric :: "(string, json) bmap"
  t_detail :: "json list"
  t_drift :: bool

definition drift_init :: drift_state where
  "drift_init = \<lparr>t_per_metric = bm_empty, t_detail = [], t_drift = False\<rparr>"

definition record_drift :: "drift_state \<Rightarrow> drift_judgement \<Rightarrow> drift_state" where
  "record_drift st d = st
     \<lparr>t_drift := t_drift st \<or> d_status d = ''drift_bad'',
      t_per_metric := bm_insert (d_id d) (metric_entry (d_rel d) 0 (d_drifted d) False) (t_per_metric st),
      t_detail := t_detail st @ [drift_json d]\<rparr>"

definition drift_step ::
  "config \<Rightarrow> group \<Rightarrow> group \<Rightarrow> drift_state \<Rightarrow> string \<times> f64 list \<Rightarrow> drift_state" where
  "drift_step cfg gb gc st e = (case drift_entry cfg gb gc e of
     None \<Rightarrow> st | Some d \<Rightarrow> record_drift st d)"

definition drift_finish :: "group \<Rightarrow> group \<Rightarrow> drift_state \<Rightarrow> fault + outcome" where
  "drift_finish gb gc st =
     (if t_per_metric st = [] then
        Inl (Error (''no metric was comparable: no series appears in both baseline and candidate with at least two samples each (baseline has ''
          @ show_nat (length (samples gb)) @ '' series, candidate has '' @ show_nat (length (samples gc))
          @ ''). Add more samples per side.''))
      else Inr
        \<lparr>o_verdict = (if t_drift st then ''fail'' else ''pass''),
         o_per_metric = t_per_metric st,
         o_notes = (if t_drift st then [] else [''no bad-direction drift beyond band'']),
         o_mode = ''longitudinal_drift'', o_detail = t_detail st, o_overhead = None\<rparr>)"

definition drift :: "(json \<Rightarrow> string) \<Rightarrow> json list \<Rightarrow> json list \<Rightarrow> config \<Rightarrow> fault + outcome" where
  "drift to_text baseline candidate cfg =
     and_then (collect to_text baseline) (\<lambda>gb.
     and_then (collect to_text candidate) (\<lambda>gc.
     drift_finish gb gc (foldl (drift_step cfg gb gc) drift_init (samples gb))))"

section \<open>The subsystem triad\<close>

type_synonym overhead = "(string, f64) bmap \<times> string list"

definition overhead_probe :: "overhead \<Rightarrow> json \<Rightarrow> overhead" where
  "overhead_probe st pc = (let (worst, over_budget) = st;
     pid = or_else (get_str pc ''probe_id'') '''';
     frac = or_else (get_f64 pc ''steady_cpu_fraction'') 0;
     ob = or_else (get_bool pc ''over_budget'') False
     in (bm_update pid 0 (\<lambda>e. if e < frac then frac else e) worst,
         if ob \<and> pid \<notin> set over_budget then over_budget @ [pid] else over_budget))"

definition overhead_run :: "overhead \<Rightarrow> json \<Rightarrow> overhead" where
  "overhead_run st run = (case get_array run ''self_metrics'' of
     Some sm \<Rightarrow> foldl overhead_probe st sm | None \<Rightarrow> st)"

definition overhead_json :: "string \<Rightarrow> overhead \<Rightarrow> json" where
  "overhead_json verdict st = jobj [(''verdict'', JString verdict),
     (''worst_steady_cpu_fraction'', JObject (map (\<lambda>(k, x). (k, json_f64 x)) (fst st))),
     (''over_budget'', JArray (map JString (snd st)))]"

definition triad_fold :: "overhead \<Rightarrow> outcome \<Rightarrow> outcome" where
  "triad_fold st out = (let
     overhead_verdict = (if snd st = [] then ''pass'' else ''fail'');
     out = out\<lparr>o_mode := ''subsystem_triad'', o_overhead := Some (overhead_json overhead_verdict st)\<rparr>
     in if overhead_verdict = ''fail'' then
          (if o_verdict out \<noteq> ''contaminated'' then out\<lparr>o_verdict := ''fail''\<rparr> else out)
            \<lparr>o_notes := o_notes out @ [''subsystem overhead over budget; see report.overhead'']\<rparr>
        else out)"

definition triad :: "(json \<Rightarrow> string) \<Rightarrow> json list \<Rightarrow> json list \<Rightarrow> config \<Rightarrow> fault + outcome" where
  "triad to_text a b cfg = and_then (ab to_text a b cfg) (\<lambda>base.
     Inr (triad_fold (foldl overhead_run (bm_empty, []) b) base))"

section \<open>Lemmas: collection\<close>

definition group_inv :: "group \<Rightarrow> bool" where
  "group_inv g \<longleftrightarrow> bm_inv (samples g) \<and> bm_inv (contaminated g) \<and> bm_inv (polarities g) \<and> bm_inv (cells g)"

lemma group_inv_empty: "group_inv empty_group"
  by (simp add: group_inv_def empty_group_def)

lemma group_inv_metric: "group_inv g \<Longrightarrow> group_inv (collect_metric cell g m)"
  by (simp add: group_inv_def collect_metric_def bm_or_insert_def)

text \<open>What a group holds of one metric, as a function of the \<open>(cell, metric)\<close> pairs seen.\<close>

definition of_id :: "string \<Rightarrow> (string \<times> metric) list \<Rightarrow> (string \<times> metric) list" where
  "of_id k = filter (\<lambda>(c, m). m_id m = k)"

definition key_of :: "string \<Rightarrow> (string \<times> metric) list \<Rightarrow> group \<Rightarrow> bool" where
  "key_of k cms g \<longleftrightarrow> (let sel = of_id k cms in
     bm_get (samples g) k = (if sel = [] then None else Some (map (m_value \<circ> snd) sel))
     \<and> bm_get (contaminated g) k = (if sel = [] then None else Some (list_ex (m_contaminated \<circ> snd) sel))
     \<and> bm_get (polarities g) k = (if sel = [] then None else Some (m_polarity (snd (hd sel))))
     \<and> bm_get (cells g) k = (if sel = [] then None else Some (first_seen (map fst sel))))"

definition group_of :: "(string \<times> metric) list \<Rightarrow> group \<Rightarrow> bool" where
  "group_of cms g \<longleftrightarrow> group_inv g \<and> (\<forall>k. key_of k cms g)"

lemma of_id_append [simp]: "of_id k (xs @ ys) = of_id k xs @ of_id k ys"
  by (simp add: of_id_def)

lemma of_id_single [simp]: "of_id k [(c, m)] = (if m_id m = k then [(c, m)] else [])"
  by (simp add: of_id_def)

lemma key_of_metric:
  assumes "key_of k cms g"
  shows "key_of k (cms @ [(cell, m)]) (collect_metric cell g m)"
proof (cases "m_id m = k")
  case True
  then show ?thesis using assms
    by (cases "of_id k cms = []")
      (simp_all add: key_of_def Let_def collect_metric_def bm_get_update bm_get_or_insert push_new_def first_seen_def)
next
  case False
  then show ?thesis using assms
    by (auto simp: key_of_def Let_def collect_metric_def bm_get_update bm_get_or_insert)
qed

lemma group_of_metric: "group_of cms g \<Longrightarrow> group_of (cms @ [(cell, m)]) (collect_metric cell g m)"
  by (simp add: group_of_def key_of_metric group_inv_metric)

lemma group_of_metrics:
  "group_of cms g \<Longrightarrow> group_of (cms @ map (Pair cell) ms) (foldl (collect_metric cell) g ms)"
proof (induction ms arbitrary: cms g)
  case (Cons m ms)
  show ?case using Cons.IH [OF group_of_metric [OF Cons.prems]] by simp
qed simp

lemma group_of_empty: "group_of [] empty_group"
  by (simp add: group_of_def group_inv_def key_of_def of_id_def empty_group_def)

text \<open>The \<open>(cell, metric)\<close> pairs of a list of runs, in order.\<close>

definition run_metrics :: "(json \<Rightarrow> string) \<Rightarrow> json list \<Rightarrow> fault + (string \<times> metric) list" where
  "run_metrics to_text runs = map_ok concat
     (map_res (\<lambda>run. map_ok (map (Pair (run_params_hash run))) (reduce to_text run)) runs)"

lemma collect_from:
  "group_of cms g \<Longrightarrow> (\<forall>g'. foldl_res (collect_run tt) g runs = Inr g' \<longrightarrow>
     (\<exists>new. run_metrics tt runs = Inr new \<and> group_of (cms @ new) g'))"
proof (induction runs arbitrary: cms g)
  case Nil
  then show ?case by (simp add: run_metrics_def)
next
  case (Cons run runs)
  show ?case
  proof (intro allI impI)
    fix g'
    assume "foldl_res (collect_run tt) g (run # runs) = Inr g'"
    then obtain ms where ms: "reduce tt run = Inr ms"
      and rest: "foldl_res (collect_run tt) (foldl (collect_metric (run_params_hash run)) g ms) runs = Inr g'"
      by (auto simp: collect_run_def result_simps)
    have "group_of (cms @ map (Pair (run_params_hash run)) ms)
        (foldl (collect_metric (run_params_hash run)) g ms)"
      using Cons.prems by (rule group_of_metrics)
    from Cons.IH [OF this] rest obtain new where "run_metrics tt runs = Inr new"
      and "group_of ((cms @ map (Pair (run_params_hash run)) ms) @ new) g'" by blast
    then show "\<exists>new. run_metrics tt (run # runs) = Inr new \<and> group_of (cms @ new) g'"
      using ms by (auto simp: run_metrics_def result_simps)
  qed
qed

lemma collect_spec: "collect tt runs = Inr g \<Longrightarrow> \<exists>cms. run_metrics tt runs = Inr cms \<and> group_of cms g"
  using collect_from [OF group_of_empty, of tt runs] by (simp add: collect_def)

lemma group_of_sorted: "group_of cms g \<Longrightarrow> bm_inv (samples g)"
  by (simp add: group_of_def group_inv_def)

lemma group_of_key: "group_of cms g \<Longrightarrow> key_of k cms g"
  by (simp add: group_of_def)

section \<open>Lemmas: the loops\<close>

text \<open>The A/B loop records the judgements of the comparable metrics, in key order.\<close>

definition judged :: "config \<Rightarrow> group \<Rightarrow> group \<Rightarrow> judgement list" where
  "judged cfg ga gb = List.map_filter (judge_entry cfg ga gb) (samples ga)"

lemma ab_loop: "foldl (ab_step cfg ga gb) st es =
    foldl record_judgement st (List.map_filter (judge_entry cfg ga gb) es)"
  by (induction es arbitrary: st) (auto simp: ab_step_def List.map_filter_def split: option.split)

lemma recorded:
  "let st' = foldl record_judgement st js in
     (s_contaminated st' \<longleftrightarrow> s_contaminated st \<or> (\<exists>j \<in> set js. j_status j = ''contaminated''))
     \<and> (s_regressed st' \<longleftrightarrow> s_regressed st \<or> (\<exists>j \<in> set js. j_status j = ''regressed''))
     \<and> s_detail st' = s_detail st @ map judgement_json js
     \<and> set (bm_keys (s_per_metric st')) = set (bm_keys (s_per_metric st)) \<union> j_id ` set js"
  by (induction js arbitrary: st) (auto simp: record_judgement_def Let_def)

lemma recorded_init:
  "(s_contaminated (foldl record_judgement ab_init js) \<longleftrightarrow> (\<exists>j \<in> set js. j_status j = ''contaminated''))
   \<and> (s_regressed (foldl record_judgement ab_init js) \<longleftrightarrow> (\<exists>j \<in> set js. j_status j = ''regressed''))
   \<and> s_detail (foldl record_judgement ab_init js) = map judgement_json js
   \<and> set (bm_keys (s_per_metric (foldl record_judgement ab_init js))) = j_id ` set js"
  using recorded [of ab_init js] by (simp add: ab_init_def Let_def bm_empty_def)

lemma drift_loop: "foldl (drift_step cfg gb gc) st es =
    foldl record_drift st (List.map_filter (drift_entry cfg gb gc) es)"
  by (induction es arbitrary: st) (auto simp: drift_step_def List.map_filter_def split: option.split)

lemma drift_recorded:
  "let st' = foldl record_drift st ds in
     (t_drift st' \<longleftrightarrow> t_drift st \<or> (\<exists>d \<in> set ds. d_status d = ''drift_bad''))
     \<and> set (bm_keys (t_per_metric st')) = set (bm_keys (t_per_metric st)) \<union> d_id ` set ds"
  by (induction ds arbitrary: st) (auto simp: record_drift_def Let_def)

lemma ab_finish_ok:
  assumes "ab_finish cfg ns ga gb st = Inr out"
  shows "s_per_metric st \<noteq> []" and "o_per_metric out = s_per_metric st"
    and "o_detail out = s_detail st"
    and "o_verdict out = (if s_contaminated st then ''contaminated''
           else if s_regressed st then ''fail'' else ''pass'')"
  using assms by (auto simp: ab_finish_def split: if_splits)

lemma ab_ok:
  assumes "ab tt a b cfg = Inr out"
  obtains ns ga gb js where "validate a b cfg = Inr ns" and "collect tt a = Inr ga"
    and "collect tt b = Inr gb" and "js = judged cfg ga gb" and "js \<noteq> []"
    and "o_verdict out = (if \<exists>j \<in> set js. j_status j = ''contaminated'' then ''contaminated''
           else if \<exists>j \<in> set js. j_status j = ''regressed'' then ''fail'' else ''pass'')"
    and "o_detail out = map judgement_json js"
    and "set (bm_keys (o_per_metric out)) = j_id ` set js"
proof -
  from assms obtain ns ga gb where v: "validate a b cfg = Inr ns" and ga: "collect tt a = Inr ga"
    and gb: "collect tt b = Inr gb"
    and fin: "ab_finish cfg ns ga gb (foldl (ab_step cfg ga gb) ab_init (samples ga)) = Inr out"
    by (auto simp: ab_def result_simps)
  define js where "js = judged cfg ga gb"
  have loop: "foldl (ab_step cfg ga gb) ab_init (samples ga) = foldl record_judgement ab_init js"
    by (simp add: ab_loop js_def judged_def)
  note r = recorded_init [of js]
  note f = ab_finish_ok [OF fin [unfolded loop]]
  have ne: "js \<noteq> []" using f(1) r by auto
  have out: "o_verdict out = (if \<exists>j \<in> set js. j_status j = ''contaminated'' then ''contaminated''
           else if \<exists>j \<in> set js. j_status j = ''regressed'' then ''fail'' else ''pass'')"
    "o_detail out = map judgement_json js" "set (bm_keys (o_per_metric out)) = j_id ` set js"
    using f r by simp_all
  show thesis by (rule that [OF v ga gb js_def ne out])
qed

section \<open>Lemmas: what is compared\<close>

text \<open>A metric is comparable when both groups hold at least two samples of it.\<close>

definition comparable :: "group \<Rightarrow> group \<Rightarrow> string \<Rightarrow> f64 list \<Rightarrow> f64 list \<Rightarrow> bool" where
  "comparable ga gb k av bv \<longleftrightarrow> bm_get (samples ga) k = Some av \<and> bm_get (samples gb) k = Some bv
     \<and> 2 \<le> length av \<and> 2 \<le> length bv"

definition ignored :: "config \<Rightarrow> string \<Rightarrow> bool" where
  "ignored cfg k \<longleftrightarrow> (\<exists>pat \<in> set (ignore cfg). str_contains k pat)"

definition tainted :: "group \<Rightarrow> group \<Rightarrow> string \<Rightarrow> bool" where
  "tainted ga gb k \<longleftrightarrow> bm_get (contaminated ga) k = Some True \<or> bm_get (contaminated gb) k = Some True"

text \<open>The three gates and the direction: what a regression is.\<close>

definition regression :: "config \<Rightarrow> group \<Rightarrow> string \<Rightarrow> f64 list \<Rightarrow> f64 list \<Rightarrow> bool" where
  "regression cfg ga k av bv \<longleftrightarrow> (let rel = rel_delta (mean av) (mean bv) in
     permutation_p av bv (resamples cfg) (seed cfg) < p_threshold cfg
     \<and> min_effect cfg \<le> \<bar>rel\<bar>
     \<and> \<not> noise_threshold cfg < within_cov av bv
     \<and> (bm_get (polarities ga) k = Some LowerBetter \<and> 0 < rel
        \<or> bm_get (polarities ga) k = Some HigherBetter \<and> rel < 0))"

lemma in_judged:
  assumes "bm_inv (samples ga)"
  shows "j \<in> set (judged cfg ga gb) \<longleftrightarrow>
    (\<exists>k av bv. comparable ga gb k av bv \<and> j = judge cfg ga gb k av bv)"
proof -
  have mem: "(k, av) \<in> set (samples ga) \<longleftrightarrow> bm_get (samples ga) k = Some av" for k av
    using assms bm_get_mem bm_get_Some_mem by metis
  have entry: "judge_entry cfg ga gb (k, av) = Some j \<longleftrightarrow>
      (\<exists>bv. bm_get (samples gb) k = Some bv \<and> 2 \<le> length av \<and> 2 \<le> length bv
        \<and> j = judge cfg ga gb k av bv)" for k av
    by (auto simp: judge_entry_def split: option.splits)
  show ?thesis
    by (simp add: judged_def set_map_filter comparable_def Bex_def split_paired_Ex entry mem)
qed

lemma status_of_iff:
  "status_of ig ct sg str noisy pol rel = ''contaminated'' \<longleftrightarrow> \<not> ig \<and> ct"
  "status_of ig ct sg str noisy pol rel = ''regressed'' \<longleftrightarrow>
     \<not> ig \<and> \<not> ct \<and> sg \<and> str \<and> \<not> noisy \<and> bad_direction pol rel = Some True"
  by (auto simp: status_of_def split: option.splits bool.splits)

lemma judge_status:
  "j_status (judge cfg ga gb k av bv) = ''contaminated'' \<longleftrightarrow> \<not> ignored cfg k \<and> tainted ga gb k"
  "j_status (judge cfg ga gb k av bv) = ''regressed'' \<longleftrightarrow>
     \<not> ignored cfg k \<and> \<not> tainted ga gb k \<and> regression cfg ga k av bv"
proof -
  let ?r = "rel_delta (mean av) (mean bv)"
  have st: "j_status (judge cfg ga gb k av bv) = status_of (ignored cfg k) (tainted ga gb k)
      (permutation_p av bv (resamples cfg) (seed cfg) < p_threshold cfg) (min_effect cfg \<le> \<bar>?r\<bar>)
      (noise_threshold cfg < within_cov av bv) (or_else (bm_get (polarities ga) k) Unknown) ?r"
    by (simp add: judge_def Let_def tainted_def ignored_def list_ex_iff)
  show "j_status (judge cfg ga gb k av bv) = ''contaminated'' \<longleftrightarrow> \<not> ignored cfg k \<and> tainted ga gb k"
    unfolding st by (rule status_of_iff)
  have b: "bad_direction (or_else (bm_get (polarities ga) k) Unknown) r = Some True \<longleftrightarrow>
      (bm_get (polarities ga) k = Some LowerBetter \<and> 0 < r
        \<or> bm_get (polarities ga) k = Some HigherBetter \<and> r < 0)" for r
    by (cases "bm_get (polarities ga) k") (auto simp: bad_direction_def split: polarity.splits)
  show "j_status (judge cfg ga gb k av bv) = ''regressed'' \<longleftrightarrow>
     \<not> ignored cfg k \<and> \<not> tainted ga gb k \<and> regression cfg ga k av bv"
    unfolding st status_of_iff regression_def Let_def b by blast
qed

lemma rel_delta_self: "\<not> 0 < rel_delta m m \<and> \<not> rel_delta m m < 0"
  by (cases m) (auto simp: rel_delta_def f64_defs f_add_def f_div_def zero_of_def inf_of_def)

lemma collect_inv: "collect tt runs = Inr g \<Longrightarrow> bm_inv (samples g)"
  using collect_spec group_of_sorted by blast

lemma drift_entries:
  assumes "bm_inv (samples gb)"
  shows "d \<in> set (List.map_filter (drift_entry cfg gb gc) (samples gb)) \<longleftrightarrow>
    (\<exists>k bv cv. comparable gb gc k bv cv \<and> \<not> ignored cfg k \<and> d = drift_judge cfg gb k bv cv)"
proof -
  have mem: "(k, av) \<in> set (samples gb) \<longleftrightarrow> bm_get (samples gb) k = Some av" for k av
    using assms bm_get_mem bm_get_Some_mem by metis
  have entry: "drift_entry cfg gb gc (k, av) = Some d \<longleftrightarrow>
      (\<exists>bv. bm_get (samples gc) k = Some bv \<and> 2 \<le> length av \<and> 2 \<le> length bv
        \<and> \<not> ignored cfg k \<and> d = drift_judge cfg gb k av bv)" for k av
    by (auto simp: drift_entry_def ignored_def list_ex_iff split: option.splits)
  show ?thesis
    by (simp add: set_map_filter comparable_def Bex_def split_paired_Ex entry mem)
qed

section \<open>Lemmas: admission\<close>

lemma validate_run_ok:
  "validate_run cfg (ns, ts) (l, run) = Inr st \<longleftrightarrow>
     (grade_of run = ''reproducible'' \<or> allow_ungraded cfg) \<and>
     st = (if grade_of run = ''reproducible'' then ns
           else ns @ [l @ '' run admitted at grade '' @ [CHR 0x27] @ grade_of run @ [CHR 0x27] @ '' (--allow-ungraded)''],
           case tenancy_of run of Some t \<Rightarrow> ts @ [t] | None \<Rightarrow> ts)"
  by (auto simp: validate_run_def Let_def)

lemma validate_loop:
  "(\<exists>ns'. foldl_res (validate_run cfg) (ns, ts) lrs = Inr (ns', ts')) \<longleftrightarrow>
     (allow_ungraded cfg \<or> (\<forall>lr \<in> set lrs. grade_of (snd lr) = ''reproducible''))
     \<and> ts' = ts @ List.map_filter (tenancy_of \<circ> snd) lrs"
proof (induction lrs arbitrary: ns ts)
  case (Cons lr lrs)
  obtain l run where lr: "lr = (l, run)" by (cases lr)
  show ?case
    by (auto simp: lr result_simps validate_run_ok Cons.IH List.map_filter_def split: option.split)
qed auto

lemma distinct_remdups_adj_sorted: "sorted xs \<Longrightarrow> distinct (remdups_adj xs)"
  by (induction xs rule: remdups_adj.induct) (auto simp: order_le_less)

lemma remdups_adj_sorted_single:
  "length (remdups_adj (sort (ts :: string list))) \<le> 1 \<longleftrightarrow> (\<forall>t \<in> set ts. \<forall>u \<in> set ts. t = u)"
proof -
  have "length (remdups_adj (sort ts)) = card (set ts)"
    using distinct_card [OF distinct_remdups_adj_sorted [of "sort ts"]] by simp
  moreover have "card (set ts) \<le> 1 \<longleftrightarrow> (\<forall>t \<in> set ts. \<forall>u \<in> set ts. t = u)"
    using card_le_Suc0_iff_eq [of "set ts"] by simp
  ultimately show ?thesis by simp
qed

lemma validate_ok:
  "is_ok (validate a b cfg) \<longleftrightarrow>
     (allow_ungraded cfg \<or> (\<forall>run \<in> set a \<union> set b. grade_of run = ''reproducible''))
     \<and> (\<forall>r \<in> set a \<union> set b. \<forall>s \<in> set a \<union> set b. \<forall>t u.
          tenancy_of r = Some t \<longrightarrow> tenancy_of s = Some u \<longrightarrow> t = u)"
proof -
  let ?lrs = "map (Pair ''A'') a @ map (Pair ''B'') b"
  let ?ts = "List.map_filter (tenancy_of \<circ> snd) ?lrs"
  have set: "set ?ts = {t. \<exists>r \<in> set a \<union> set b. tenancy_of r = Some t}"
    by (simp add: set_map_filter bex_Un)
  have "is_ok (validate a b cfg) \<longleftrightarrow> (\<exists>ns ts. foldl_res (validate_run cfg) ([], []) ?lrs = Inr (ns, ts)
      \<and> length (remdups_adj (sort ts)) \<le> 1)"
    by (force simp: validate_def is_ok_iff result_simps Let_def split: if_splits)
  also have "\<dots> \<longleftrightarrow> (\<exists>ts. (\<exists>ns. foldl_res (validate_run cfg) ([], []) ?lrs = Inr (ns, ts))
      \<and> (\<forall>t \<in> set ts. \<forall>u \<in> set ts. t = u))"
    unfolding remdups_adj_sorted_single by blast
  also have "\<dots> \<longleftrightarrow> (allow_ungraded cfg \<or> (\<forall>lr \<in> set ?lrs. grade_of (snd lr) = ''reproducible''))
      \<and> (\<forall>t \<in> set ?ts. \<forall>u \<in> set ?ts. t = u)"
    unfolding validate_loop by simp
  also have "(\<forall>lr \<in> set ?lrs. grade_of (snd lr) = ''reproducible'') \<longleftrightarrow>
      (\<forall>run \<in> set a \<union> set b. grade_of run = ''reproducible'')"
    by (simp add: ball_Un)
  also have "(\<forall>t \<in> set ?ts. \<forall>u \<in> set ?ts. t = u) \<longleftrightarrow>
      (\<forall>r \<in> set a \<union> set b. \<forall>s \<in> set a \<union> set b. \<forall>t u.
          tenancy_of r = Some t \<longrightarrow> tenancy_of s = Some u \<longrightarrow> t = u)"
    unfolding set by blast
  finally show ?thesis .
qed

section \<open>Sample runs\<close>

definition gauge_run :: "string \<Rightarrow> string \<Rightarrow> f64 \<Rightarrow> json" where
  "gauge_run name unit v = jobj [(''grade'', JString ''reproducible''),
     (''series'', JArray [jobj [(''name'', JString name), (''kind'', JString ''gauge''),
        (''unit'', JString unit), (''data'', jobj [(''value'', JNumber (Float v))])]])]"

definition small_config :: config where
  "small_config = \<lparr>p_threshold = f_lit (3 / 4), noise_threshold = 1, min_effect = f_lit (1 / 2),
     resamples = 1, drift_k = f_lit 3, seed = 1, ignore = [], allow_ungraded = False,
     strict_single_cell = False\<rparr>"

definition runs_a :: "json list" where
  "runs_a = [gauge_run ''boot'' ''ms'' (Fin 10), gauge_run ''boot'' ''ms'' (Fin 10)]"

definition runs_b :: "json list" where
  "runs_b = [gauge_run ''boot'' ''ms'' (Fin 20), gauge_run ''boot'' ''ms'' (Fin 20)]"

definition no_text :: "json \<Rightarrow> string" where
  "no_text v = ''''"

lemma sample_admitted: "validate runs_a runs_b small_config = Inr []"
  by code_simp

definition sample_group :: "f64 \<Rightarrow> group" where
  "sample_group x = \<lparr>samples = [(''boot|value'', [x, x])], contaminated = [(''boot|value'', False)],
     polarities = [(''boot|value'', LowerBetter)], cells = [(''boot|value'', [''_''])]\<rparr>"

lemma sample_groups:
  "collect no_text runs_a = Inr (sample_group (Fin 10))"
  "collect no_text runs_b = Inr (sample_group (Fin 20))"
  by code_simp+

lemma sample_comparable:
  "comparable (sample_group x) (sample_group y) ''boot|value'' [x, x] [y, y]"
  by (simp add: comparable_def sample_group_def)

lemma sample_regression:
  "permutation_p [Fin 10, Fin 10] [Fin 20, Fin 20] 1 1 < f_lit (3 / 4)"
  "\<not> 1 < within_cov [Fin 10, Fin 10] [Fin 20, Fin 20]"
  "f_lit (1 / 2) \<le> \<bar>rel_delta (mean [Fin 10, Fin 10]) (mean [Fin 20, Fin 20])\<bar>"
  "0 < rel_delta (mean [Fin 10, Fin 10]) (mean [Fin 20, Fin 20])"
  by code_simp+

lemma ab_outcome:
  assumes "validate a b cfg = Inr ns" and ga: "collect tt a = Inr ga" and "collect tt b = Inr gb"
  shows "is_ok (ab tt a b cfg) \<longleftrightarrow> (\<exists>k av bv. comparable ga gb k av bv)"
    and "\<not> is_ok (ab tt a b cfg) \<Longrightarrow> \<exists>msg. ab tt a b cfg = Inl (Error (''no metric was comparable: '' @ msg))"
proof -
  let ?js = "judged cfg ga gb"
  have e: "ab tt a b cfg = ab_finish cfg ns ga gb (foldl record_judgement ab_init ?js)"
    using assms by (simp add: ab_def ab_loop judged_def)
  have empty: "s_per_metric (foldl record_judgement ab_init ?js) = [] \<longleftrightarrow> ?js = []"
    using recorded_init [of ?js] by (metis image_is_empty set_empty map_is_Nil_conv)
  have "?js \<noteq> [] \<longleftrightarrow> (\<exists>j. j \<in> set ?js)" by (cases ?js) auto
  also have "\<dots> \<longleftrightarrow> (\<exists>k av bv. comparable ga gb k av bv)"
    unfolding in_judged [OF collect_inv [OF ga]] by blast
  finally have js: "?js \<noteq> [] \<longleftrightarrow> (\<exists>k av bv. comparable ga gb k av bv)" .
  show "is_ok (ab tt a b cfg) \<longleftrightarrow> (\<exists>k av bv. comparable ga gb k av bv)"
    unfolding e js [symmetric] by (simp add: ab_finish_def empty)
  show "\<exists>msg. ab tt a b cfg = Inl (Error (''no metric was comparable: '' @ msg))"
    if "\<not> is_ok (ab tt a b cfg)"
    using that unfolding e by (simp add: ab_finish_def split: if_splits)
qed

section \<open>Lemmas: overhead\<close>

definition probes_of :: "json list \<Rightarrow> json list" where
  "probes_of runs = concat (map (\<lambda>run. or_else (get_array run ''self_metrics'') []) runs)"

abbreviation probe_id :: "json \<Rightarrow> string" where
  "probe_id pc \<equiv> or_else (get_str pc ''probe_id'') ''''"

abbreviation probe_fraction :: "json \<Rightarrow> f64" where
  "probe_fraction pc \<equiv> or_else (get_f64 pc ''steady_cpu_fraction'') 0"

lemma overhead_runs: "foldl overhead_run st runs = foldl overhead_probe st (probes_of runs)"
  by (induction runs arbitrary: st) (auto simp: probes_of_def overhead_run_def split: option.split)

lemma overhead_budget: "snd (foldl overhead_probe st pcs) = [] \<longleftrightarrow>
    snd st = [] \<and> (\<forall>pc \<in> set pcs. get_bool pc ''over_budget'' \<noteq> Some True)"
  by (induction pcs arbitrary: st) (auto simp: overhead_probe_def Let_def split: prod.split)

text \<open>The recorded worst fraction of a probe is at least \<open>x\<close>.\<close>

definition covers :: "(string, f64) bmap \<Rightarrow> string \<Rightarrow> f64 \<Rightarrow> bool" where
  "covers worst k x \<longleftrightarrow> (\<exists>w. bm_get worst k = Some w \<and> w \<noteq> NaN \<and> (x = NaN \<or> x \<le> w))"

definition worst_ok :: "(string, f64) bmap \<Rightarrow> bool" where
  "worst_ok worst \<longleftrightarrow> (\<forall>k. bm_get worst k \<noteq> Some NaN)"

lemma f_le_refl: "(x :: f64) \<noteq> NaN \<Longrightarrow> x \<le> x"
  by (cases x) (auto simp: f64_defs)

lemma overhead_probe_covers:
  assumes "worst_ok (fst st)"
  shows "worst_ok (fst (overhead_probe st pc))"
    and "covers (fst (overhead_probe st pc)) (probe_id pc) (probe_fraction pc)"
    and "covers (fst st) k x \<Longrightarrow> covers (fst (overhead_probe st pc)) k x"
proof -
  obtain worst ob where st: "st = (worst, ob)" by (cases st)
  define fr where "fr = probe_fraction pc"
  define old where "old = (case bm_get worst (probe_id pc) of None \<Rightarrow> 0 | Some v \<Rightarrow> v)"
  define new where "new = (if old < fr then fr else old)"
  have w: "fst (overhead_probe st pc) = bm_insert (probe_id pc) new worst"
    by (simp add: overhead_probe_def st bm_update_def new_def old_def fr_def Let_def)
  have old: "old \<noteq> NaN" using assms
    by (auto simp: old_def worst_ok_def st zero_f64_def split: option.splits)
  have new: "new \<noteq> NaN" "old \<le> new" "fr = NaN \<or> fr \<le> new"
  proof -
    show "new \<noteq> NaN" using old by (cases "old < fr") (auto simp: new_def)
    show "old \<le> new" using f_le_refl [OF old] by (cases "old < fr") (auto simp: new_def less_eq_f64_def less_f64_def)
    show "fr = NaN \<or> fr \<le> new"
      using f_not_less [OF old, of fr] f_le_refl [of fr] by (cases "old < fr") (auto simp: new_def)
  qed
  show "worst_ok (fst (overhead_probe st pc))"
    using assms new(1) unfolding w worst_ok_def by (auto simp: st)
  show "covers (fst (overhead_probe st pc)) (probe_id pc) (probe_fraction pc)"
    using new by (simp add: w covers_def fr_def)
  show "covers (fst (overhead_probe st pc)) k x" if "covers (fst st) k x"
    using that new f_le_trans [of x old new] unfolding w covers_def by (auto simp: st old_def)
qed

lemma overhead_covers:
  "worst_ok (fst st) \<Longrightarrow>
     (\<forall>pc \<in> set pcs. covers (fst (foldl overhead_probe st pcs)) (probe_id pc) (probe_fraction pc))
     \<and> (\<forall>k x. covers (fst st) k x \<longrightarrow> covers (fst (foldl overhead_probe st pcs)) k x)"
proof (induction pcs arbitrary: st)
  case (Cons pc pcs)
  show ?case
    using Cons.IH [OF overhead_probe_covers(1) [OF Cons.prems]] overhead_probe_covers(2,3) [OF Cons.prems]
    by auto
qed simp

lemma triad_ok: "triad tt a b cfg = Inr out \<longleftrightarrow> (\<exists>base. ab tt a b cfg = Inr base \<and>
    out = triad_fold (foldl overhead_probe (bm_empty, []) (probes_of b)) base)"
  by (auto simp: triad_def result_simps overhead_runs)

lemma triad_fold_verdict:
  "o_verdict (triad_fold st out) = (if snd st \<noteq> [] \<and> o_verdict out \<noteq> ''contaminated'' then ''fail'' else o_verdict out)"
  by (simp add: triad_fold_def Let_def)

lemma drift_finish_ok:
  assumes "drift_finish gb gc st = Inr out"
  shows "t_per_metric st \<noteq> []" and "o_verdict out = (if t_drift st then ''fail'' else ''pass'')"
    and "o_per_metric out = t_per_metric st"
  using assms by (auto simp: drift_finish_def split: if_splits)

lemma drift_outcome:
  assumes gb: "collect tt base = Inr gb" and "collect tt cand = Inr gc"
    and "comparable gb gc k bv cv" and "\<not> ignored cfg k"
  shows "is_ok (drift tt base cand cfg)"
proof -
  let ?ds = "List.map_filter (drift_entry cfg gb gc) (samples gb)"
  have e: "drift tt base cand cfg = drift_finish gb gc (foldl record_drift drift_init ?ds)"
    using assms by (simp add: drift_def drift_loop)
  have "drift_judge cfg gb k bv cv \<in> set ?ds"
    using drift_entries [OF collect_inv [OF gb]] assms(3,4) by blast
  then have "set (bm_keys (t_per_metric (foldl record_drift drift_init ?ds))) \<noteq> {}"
    using drift_recorded [of drift_init ?ds] unfolding Let_def by (metis UnCI empty_iff imageI)
  then show ?thesis unfolding e by (auto simp: drift_finish_def)
qed

text \<open>What the drift mode takes for a drift in the bad direction.\<close>

definition drifted_badly :: "config \<Rightarrow> group \<Rightarrow> string \<Rightarrow> f64 list \<Rightarrow> f64 list \<Rightarrow> bool" where
  "drifted_badly cfg gb k bv cv \<longleftrightarrow> (let m = mean bv; sd = stddev bv; c = mean cv;
     rel = (if \<not> f_eq m 0 then (c - m) / m else 0) in
     (if 0 < sd then drift_k cfg * sd < \<bar>c - m\<bar> else min_effect cfg \<le> \<bar>rel\<bar>)
     \<and> min_effect cfg \<le> \<bar>rel\<bar>
     \<and> (bm_get (polarities gb) k = Some LowerBetter \<and> 0 < rel
        \<or> bm_get (polarities gb) k = Some HigherBetter \<and> rel < 0))"

lemma drift_status:
  "d_status (drift_judge cfg gb k bv cv) = ''drift_bad'' \<longleftrightarrow> drifted_badly cfg gb k bv cv"
proof -
  have b: "or_else (bad_direction (or_else (bm_get (polarities gb) k) Unknown) r) False \<longleftrightarrow>
      (bm_get (polarities gb) k = Some LowerBetter \<and> 0 < r
        \<or> bm_get (polarities gb) k = Some HigherBetter \<and> r < 0)" for r
    by (cases "bm_get (polarities gb) k") (auto simp: bad_direction_def split: polarity.splits)
  obtain sl se where lr: "linreg_slope_stderr cv = (sl, se)" by (cases "linreg_slope_stderr cv")
  show ?thesis
    unfolding drifted_badly_def Let_def b [symmetric]
    by (simp add: drift_judge_def Let_def lr)
qed

section \<open>Properties\<close>

text \<open>C3: Collecting a group of runs files every reduced metric under its id and nothing
  else: per id the samples are the values in run order, the contamination flag is the
  disjunction of the flags, the polarity is the first one seen, and the cells are the
  parameter hashes of the contributing runs, each once, in the order first seen.\<close>

theorem collect_per_metric:
  assumes "collect tt runs = Inr g"
  shows "\<exists>cms. run_metrics tt runs = Inr cms \<and> (\<forall>k. let sel = filter (\<lambda>(c, m). m_id m = k) cms in
     bm_get (samples g) k = (if sel = [] then None else Some (map (m_value \<circ> snd) sel))
     \<and> bm_get (contaminated g) k = (if sel = [] then None else Some (\<exists>cm \<in> set sel. m_contaminated (snd cm)))
     \<and> bm_get (polarities g) k = (if sel = [] then None else Some (m_polarity (snd (hd sel))))
     \<and> bm_get (cells g) k = (if sel = [] then None else Some (first_seen (map fst sel))))"
proof -
  obtain cms where cms: "run_metrics tt runs = Inr cms" and g: "group_of cms g"
    using collect_spec [OF assms] by blast
  show ?thesis using cms group_of_key [OF g]
    by (auto simp: key_of_def of_id_def list_ex_iff Let_def)
qed

theorem collect_per_metric_witness:
  "\<exists>g. collect (\<lambda>_. '''') [gauge_run ''boot'' ''ms'' (Fin 5), gauge_run ''boot'' ''ms'' (Fin 7)] = Inr g
     \<and> bm_get (samples g) ''boot|value'' = Some [Fin 5, Fin 7]
     \<and> bm_get (samples g) ''boot'' = None"
proof -
  let ?runs = "[gauge_run ''boot'' ''ms'' (Fin 5), gauge_run ''boot'' ''ms'' (Fin 7)]"
  define g where "g = projr (collect (\<lambda>_. '''') ?runs)"
  have "is_ok (collect (\<lambda>_. '''') ?runs)" by code_simp
  then have g: "collect (\<lambda>_. '''') ?runs = Inr g" by (auto simp: g_def is_ok_iff)
  have cms: "run_metrics (\<lambda>_. '''') ?runs =
     Inr [(''_'', \<lparr>m_id = ''boot|value'', m_value = Fin 5, m_contaminated = False, m_polarity = LowerBetter\<rparr>),
          (''_'', \<lparr>m_id = ''boot|value'', m_value = Fin 7, m_contaminated = False, m_polarity = LowerBetter\<rparr>)]"
    by code_simp
  show ?thesis using collect_per_metric [OF g] by (intro exI [of _ g]) (simp add: g cms Let_def)
qed

text \<open>C28: Admission: a comparison is admitted iff every run of both groups is graded
  reproducible (or \<open>--allow-ungraded\<close> is set) and all runs that name a tenancy class
  name the same one.\<close>

theorem validate_admits:
  "is_ok (validate a b cfg) =
     ((allow_ungraded cfg \<or> (\<forall>run \<in> set a \<union> set b. grade_of run = ''reproducible''))
     \<and> (\<forall>r \<in> set a \<union> set b. \<forall>s \<in> set a \<union> set b. \<forall>t u.
          tenancy_of r = Some t \<longrightarrow> tenancy_of s = Some u \<longrightarrow> t = u))"
  by (rule validate_ok)

theorem validate_admits_witness:
  "is_ok (validate [gauge_run ''m'' '''' 1] [gauge_run ''m'' '''' 1] default_config)
   \<and> \<not> is_ok (validate [jobj []] [gauge_run ''m'' '''' 1] default_config)"
proof -
  have g: "grade_of (gauge_run ''m'' '''' 1) = ''reproducible''" "tenancy_of (gauge_run ''m'' '''' 1) = None"
    "grade_of (jobj []) = ''invalid''" "allow_ungraded default_config = False" by code_simp+
  show ?thesis unfolding validate_admits by (simp add: g)
qed

text \<open>C1: The verdict of an A/B comparison that returns, in full: some metric was comparable;
  the verdict is "contaminated" iff a compared metric that is not ignored is tainted in
  either group; it is "fail" iff none is and some compared, not ignored metric passes all
  three gates (p below its threshold, effect at least the minimum, within-group noise not
  above its threshold) in the direction that is bad for its polarity; otherwise it is
  "pass". The per-metric report covers exactly the compared metrics.\<close>

theorem ab_verdict:
  assumes "ab tt a b cfg = Inr out"
  shows "\<exists>ga gb. collect tt a = Inr ga \<and> collect tt b = Inr gb
    \<and> (let cmp = comparable ga gb;
           dirty = (\<exists>k av bv. cmp k av bv \<and> \<not> ignored cfg k \<and> tainted ga gb k);
           bad = (\<exists>k av bv. cmp k av bv \<and> \<not> ignored cfg k \<and> regression cfg ga k av bv)
       in (\<exists>k av bv. cmp k av bv)
          \<and> o_verdict out = (if dirty then ''contaminated'' else if bad then ''fail'' else ''pass'')
          \<and> set (bm_keys (o_per_metric out)) = {k. \<exists>av bv. cmp k av bv})"
proof -
  obtain ns ga gb js where "validate a b cfg = Inr ns" and ga: "collect tt a = Inr ga"
    and gb: "collect tt b = Inr gb" and js: "js = judged cfg ga gb" and ne: "js \<noteq> []"
    and v: "o_verdict out = (if \<exists>j \<in> set js. j_status j = ''contaminated'' then ''contaminated''
           else if \<exists>j \<in> set js. j_status j = ''regressed'' then ''fail'' else ''pass'')"
    and "o_detail out = map judgement_json js"
    and keys: "set (bm_keys (o_per_metric out)) = j_id ` set js"
    by (rule ab_ok [OF assms])
  let ?cmp = "comparable ga gb"
  have mem: "j \<in> set js \<longleftrightarrow> (\<exists>k av bv. ?cmp k av bv \<and> j = judge cfg ga gb k av bv)" for j
    unfolding js by (rule in_judged [OF collect_inv [OF ga]])
  have ex: "(\<exists>j \<in> set js. P j) \<longleftrightarrow> (\<exists>k av bv. ?cmp k av bv \<and> P (judge cfg ga gb k av bv))" for P
    by (auto simp: Bex_def mem)
  have "(\<exists>j \<in> set js. True)" using ne by (cases js) auto
  then have some: "\<exists>k av bv. ?cmp k av bv" unfolding ex by blast
  have idk: "j_id (judge cfg ga gb k av bv) = k" for k av bv by (simp add: judge_def Let_def)
  have ids: "j_id ` set js = {k. \<exists>av bv. ?cmp k av bv}"
  proof (intro set_eqI)
    fix k
    have "k \<in> j_id ` set js \<longleftrightarrow> (\<exists>j \<in> set js. j_id j = k)" by auto
    then show "k \<in> j_id ` set js \<longleftrightarrow> k \<in> {k. \<exists>av bv. ?cmp k av bv}" unfolding ex idk by simp
  qed
  let ?dirty = "\<exists>k av bv. ?cmp k av bv \<and> \<not> ignored cfg k \<and> tainted ga gb k"
  let ?bad = "\<exists>k av bv. ?cmp k av bv \<and> \<not> ignored cfg k \<and> regression cfg ga k av bv"
  let ?bad' = "\<exists>k av bv. ?cmp k av bv \<and> \<not> ignored cfg k \<and> \<not> tainted ga gb k \<and> regression cfg ga k av bv"
  have "o_verdict out = (if ?dirty then ''contaminated'' else if ?bad' then ''fail'' else ''pass'')"
    using v unfolding ex judge_status .
  also have "\<dots> = (if ?dirty then ''contaminated'' else if ?bad then ''fail'' else ''pass'')"
  proof (cases ?dirty)
    case False
    then have "?bad' = ?bad" by blast
    then show ?thesis by (simp only:)
  qed (simp only: if_True)
  finally have "o_verdict out = (if ?dirty then ''contaminated'' else if ?bad then ''fail'' else ''pass'')" .
  with some keys [unfolded ids] show ?thesis
    unfolding Let_def by (intro exI [of _ ga] exI [of _ gb] conjI ga gb)
qed

theorem ab_verdict_witness: "map_ok o_verdict (ab no_text runs_a runs_b small_config) = Inr ''fail''"
proof -
  let ?A = "[Fin 10, Fin 10]" and ?B = "[Fin 20, Fin 20]"
  obtain ga gb where ga: "collect no_text runs_a = Inr ga" and gb: "collect no_text runs_b = Inr gb"
    and cmp: "comparable ga gb ''boot|value'' ?A ?B"
    and clean: "\<And>k. \<not> tainted ga gb k" and reg: "regression small_config ga ''boot|value'' ?A ?B"
    using sample_regression sample_comparable
    by (simp add: sample_groups sample_group_def tainted_def regression_def small_config_def Let_def)
  obtain out where out: "ab no_text runs_a runs_b small_config = Inr out"
    using ab_outcome(1) [OF sample_admitted ga gb] cmp by (auto simp: is_ok_iff)
  have "\<not> ignored small_config k" for k by (simp add: ignored_def small_config_def)
  then have "o_verdict out = ''fail''"
    using ab_verdict [OF out] cmp clean reg by (auto simp: ga gb Let_def)
  then show ?thesis by (simp add: out)
qed

text \<open>A comparison that tested nothing is not a pass: once both groups are admitted and
  reduced, the gate returns an outcome iff some metric has at least two samples in each
  group, and otherwise the error "no metric was comparable".\<close>

theorem ab_comparable:
  assumes "validate a b cfg = Inr ns" and "collect tt a = Inr ga" and "collect tt b = Inr gb"
  shows "is_ok (ab tt a b cfg) = (\<exists>k av bv. comparable ga gb k av bv)
    \<and> (\<not> is_ok (ab tt a b cfg) \<longrightarrow>
         (\<exists>msg. ab tt a b cfg = Inl (Error (''no metric was comparable: '' @ msg))))"
  using ab_outcome [OF assms] by blast

theorem ab_comparable_witness: "is_ok (ab no_text runs_a runs_b small_config)"
  using ab_comparable [OF sample_admitted sample_groups] sample_comparable by blast

text \<open>C32: Comparing a group with itself never fails the gate, whatever the thresholds, the
  polarity of the metrics and the values (zeros, infinities and NaNs included).\<close>

theorem ab_self_never_fails:
  assumes "ab tt a a cfg = Inr out"
  shows "o_verdict out \<noteq> ''fail''"
proof -
  obtain ns ga gb js where "validate a a cfg = Inr ns" and ga: "collect tt a = Inr ga"
    and gb: "collect tt a = Inr gb" and js: "js = judged cfg ga gb" and "js \<noteq> []"
    and v: "o_verdict out = (if \<exists>j \<in> set js. j_status j = ''contaminated'' then ''contaminated''
           else if \<exists>j \<in> set js. j_status j = ''regressed'' then ''fail'' else ''pass'')"
    and "o_detail out = map judgement_json js"
    and "set (bm_keys (o_per_metric out)) = j_id ` set js"
    by (rule ab_ok [OF assms])
  have "j_status j \<noteq> ''regressed''" if mem: "j \<in> set js" for j
  proof -
    obtain k av bv where cmp: "comparable ga gb k av bv" and j: "j = judge cfg ga gb k av bv"
      using in_judged [OF collect_inv [OF ga], of j cfg gb] mem js by blast
    have "av = bv" using cmp ga gb by (auto simp: comparable_def)
    then show ?thesis using rel_delta_self [of "mean bv"]
      unfolding j judge_status regression_def Let_def by blast
  qed
  then show ?thesis using v by auto
qed

theorem ab_self_never_fails_witness:
  "\<exists>out. ab no_text runs_a runs_a small_config = Inr out \<and> o_verdict out \<noteq> ''fail''"
proof -
  have "validate runs_a runs_a small_config = Inr []" by code_simp
  then have "is_ok (ab no_text runs_a runs_a small_config)"
    using ab_outcome(1) [OF _ sample_groups(1,1)] sample_comparable by blast
  then show ?thesis using ab_self_never_fails [of no_text runs_a small_config] by (auto simp: is_ok_iff)
qed

text \<open>C29: The triad folds the overhead of the probes into the A/B verdict: it returns when the
  comparison does; a contaminated verdict stays; otherwise one probe of a B run over its
  budget makes the verdict "fail" and no probe over budget leaves the verdict as it was.
  The fractions it reports bound every reading of the same probe.\<close>

theorem triad_verdict:
  assumes "ab tt a b cfg = Inr base"
  shows "\<exists>out. triad tt a b cfg = Inr out \<and> o_mode out = ''subsystem_triad''
    \<and> o_verdict out = (if o_verdict base = ''contaminated'' then ''contaminated''
         else if \<exists>pc \<in> set (probes_of b). get_bool pc ''over_budget'' = Some True then ''fail''
         else o_verdict base)
    \<and> (\<forall>pc \<in> set (probes_of b).
         covers (fst (foldl overhead_run (bm_empty, []) b)) (probe_id pc) (probe_fraction pc))"
proof -
  let ?st = "foldl overhead_probe (bm_empty, []) (probes_of b)"
  have out: "triad tt a b cfg = Inr (triad_fold ?st base)" using assms by (simp add: triad_ok)
  have m: "o_mode (triad_fold ?st base) = ''subsystem_triad''" by (simp add: triad_fold_def Let_def)
  have cov: "\<forall>pc \<in> set (probes_of b). covers (fst ?st) (probe_id pc) (probe_fraction pc)"
    using overhead_covers [of "(bm_empty, [])" "probes_of b"] by (simp add: worst_ok_def)
  have "snd ?st \<noteq> [] \<longleftrightarrow> (\<exists>pc \<in> set (probes_of b). get_bool pc ''over_budget'' = Some True)"
    using overhead_budget [of "(bm_empty, [])" "probes_of b"] by auto
  then have "o_verdict (triad_fold ?st base) = (if o_verdict base = ''contaminated'' then ''contaminated''
         else if \<exists>pc \<in> set (probes_of b). get_bool pc ''over_budget'' = Some True then ''fail''
         else o_verdict base)"
    unfolding triad_fold_verdict by simp
  then show ?thesis using out m cov unfolding overhead_runs by (intro exI conjI)
qed

theorem triad_verdict_witness: "\<exists>out. triad no_text runs_a runs_b small_config = Inr out
    \<and> o_mode out = ''subsystem_triad''"
proof -
  have "is_ok (ab no_text runs_a runs_b small_config)"
    using ab_outcome(1) [OF sample_admitted sample_groups] sample_comparable by blast
  then obtain base where "ab no_text runs_a runs_b small_config = Inr base" by (auto simp: is_ok_iff)
  from triad_verdict [OF this] show ?thesis by blast
qed

text \<open>C31: The verdict of the drift mode: "fail" iff some metric with at least two samples on
  each side, not ignored, has shifted its level beyond the band and by at least the
  minimum effect in its bad direction, otherwise "pass". It is never "contaminated": over
  budget probes and overflowed series do not count in this mode, nor do grades and
  tenancy classes.\<close>

theorem drift_verdict:
  assumes "drift tt base cand cfg = Inr out"
  shows "\<exists>gb gc. collect tt base = Inr gb \<and> collect tt cand = Inr gc
    \<and> (\<exists>k bv cv. comparable gb gc k bv cv \<and> \<not> ignored cfg k)
    \<and> o_verdict out = (if \<exists>k bv cv. comparable gb gc k bv cv \<and> \<not> ignored cfg k \<and> drifted_badly cfg gb k bv cv
         then ''fail'' else ''pass'')"
proof -
  obtain gb gc where gb: "collect tt base = Inr gb" and gc: "collect tt cand = Inr gc"
    and fin: "drift_finish gb gc (foldl (drift_step cfg gb gc) drift_init (samples gb)) = Inr out"
    using assms by (auto simp: drift_def result_simps)
  define ds where "ds = List.map_filter (drift_entry cfg gb gc) (samples gb)"
  have loop: "foldl (drift_step cfg gb gc) drift_init (samples gb) = foldl record_drift drift_init ds"
    by (simp add: drift_loop ds_def)
  have r: "(t_drift (foldl record_drift drift_init ds) \<longleftrightarrow> (\<exists>d \<in> set ds. d_status d = ''drift_bad''))
      \<and> set (bm_keys (t_per_metric (foldl record_drift drift_init ds))) = d_id ` set ds"
    using drift_recorded [of drift_init ds] by (simp add: drift_init_def Let_def bm_empty_def)
  note fin' = drift_finish_ok [OF fin [unfolded loop]]
  have mem: "d \<in> set ds \<longleftrightarrow> (\<exists>k bv cv. comparable gb gc k bv cv \<and> \<not> ignored cfg k \<and> d = drift_judge cfg gb k bv cv)" for d
    unfolding ds_def by (rule drift_entries [OF collect_inv [OF gb]])
  have ex: "(\<exists>d \<in> set ds. P d) \<longleftrightarrow> (\<exists>k bv cv. comparable gb gc k bv cv \<and> \<not> ignored cfg k \<and> P (drift_judge cfg gb k bv cv))" for P
    by (auto simp: Bex_def mem)
  have "\<exists>d \<in> set ds. True" using fin'(1) r by (cases ds) auto
  then have some: "\<exists>k bv cv. comparable gb gc k bv cv \<and> \<not> ignored cfg k" unfolding ex by blast
  have v: "o_verdict out = (if \<exists>k bv cv. comparable gb gc k bv cv \<and> \<not> ignored cfg k \<and> drifted_badly cfg gb k bv cv
         then ''fail'' else ''pass'')"
    using fin'(2) r unfolding ex drift_status by simp
  show ?thesis by (intro exI [of _ gb] exI [of _ gc] conjI gb gc some v)
qed

theorem drift_verdict_witness:
  "\<exists>out. drift no_text runs_a runs_b small_config = Inr out \<and> o_verdict out \<in> {''fail'', ''pass''}"
proof -
  have "\<not> ignored small_config ''boot|value''" by (simp add: ignored_def small_config_def)
  then have "is_ok (drift no_text runs_a runs_b small_config)"
    using drift_outcome [OF sample_groups sample_comparable] by blast
  then obtain out where out: "drift no_text runs_a runs_b small_config = Inr out" by (auto simp: is_ok_iff)
  then have "o_verdict out \<in> {''fail'', ''pass''}" using drift_verdict [OF out] by (auto split: if_splits)
  then show ?thesis using out by blast
qed

end
