(* ===== verification/Contract.thy ===== *)
theory Contract
  imports Reduce Gate
begin

text \<open>
  \<open>crates/contract/src/lib.rs\<close>: the producer's record of a run, how a run is assembled
  from the fragments of the capture gadgets, and its grade. \<open>run_json\<close> is what the
  derived serialiser writes, the record the gate reads back.
\<close>

section \<open>Equality of JSON values\<close>

text \<open>\<open>==\<close> of \<open>serde_json::Value\<close>: numbers of one representation compare by value.\<close>

fun num_eq :: "jnum \<Rightarrow> jnum \<Rightarrow> bool" where
  "num_eq (PosInt a) (PosInt b) = (a = b)"
| "num_eq (NegInt a) (NegInt b) = (a = b)"
| "num_eq (Float a) (Float b) = f_eq a b"
| "num_eq _ _ = False"

fun json_eq :: "json \<Rightarrow> json \<Rightarrow> bool"
and jsons_eq :: "json list \<Rightarrow> json list \<Rightarrow> bool"
and fields_eq :: "(string \<times> json) list \<Rightarrow> (string \<times> json) list \<Rightarrow> bool" where
  "json_eq JNull w = (w = JNull)"
| "json_eq (JBool b) w = (w = JBool b)"
| "json_eq (JString s) w = (w = JString s)"
| "json_eq (JNumber m) w = (case w of JNumber n \<Rightarrow> num_eq m n | _ \<Rightarrow> False)"
| "json_eq (JArray xs) w = (case w of JArray ys \<Rightarrow> jsons_eq xs ys | _ \<Rightarrow> False)"
| "json_eq (JObject m) w = (case w of JObject n \<Rightarrow> fields_eq m n | _ \<Rightarrow> False)"
| "jsons_eq [] ys = (ys = [])"
| "jsons_eq (x # xs) ys = (case ys of [] \<Rightarrow> False | y # ys' \<Rightarrow> json_eq x y \<and> jsons_eq xs ys')"
| "fields_eq [] n = (n = [])"
| "fields_eq ((k, v) # m) n = (case n of [] \<Rightarrow> False
     | (j, w) # n' \<Rightarrow> k = j \<and> json_eq v w \<and> fields_eq m n')"

section \<open>The record\<close>

datatype grade = Reproducible | Valid | Invalid

record identity =
  i_target_adapter :: string
  i_target_adapter_version :: string
  i_workload_driver :: string
  i_workload_driver_version :: string
  i_sut_git_sha :: string
  i_params :: json
  i_params_hash :: string
  i_benchmark_def_sha :: string
  i_source :: string

record fingerprint =
  fp_hostname :: string
  fp_kernel_version :: string
  fp_os_release :: string
  fp_cpu_model :: string
  fp_cpu_count_logical :: u32
  fp_cpu_count_physical :: u32
  fp_smt_enabled :: bool
  fp_cpu_governor :: string
  fp_thp_setting :: string
  fp_total_memory_bytes :: u64
  fp_kvm_present :: bool
  fp_tenancy :: string
  fp_tuning_requested :: json
  fp_tuning_readback :: json
  fp_numa_topology :: "json option"
  fp_pinning_layout :: "json option"
  fp_mitigations :: "json option"
  fp_microcode_version :: "string option"
  fp_nested_virt :: "bool option"

definition has_extended :: "fingerprint \<Rightarrow> bool" where
  "has_extended fp = (fp_numa_topology fp \<noteq> None \<and> fp_pinning_layout fp \<noteq> None
     \<and> fp_mitigations fp \<noteq> None \<and> fp_microcode_version fp \<noteq> None \<and> fp_nested_virt fp \<noteq> None)"

definition tuning_consistent :: "fingerprint \<Rightarrow> bool" where
  "tuning_consistent fp = json_eq (fp_tuning_requested fp) (fp_tuning_readback fp)"

record assay_run =
  r_schema_version :: string
  r_run_id :: string
  r_identity :: identity
  r_fingerprint :: fingerprint
  r_spans :: "json list"
  r_series :: "json list"
  r_self_metrics :: "json list"
  r_gate :: json
  r_outcome :: "json option"
  r_workload_report :: "json option"
  r_grade :: grade

record fragment =
  g_series :: "json list"
  g_self_metrics :: "json list"
  g_capture_meta :: "json option"

section \<open>Grading and assembling\<close>

definition compute_grade :: "assay_run \<Rightarrow> bool \<Rightarrow> grade" where
  "compute_grade run probes_ran =
     (if \<not> tuning_consistent (r_fingerprint run) then Invalid
      else if i_source (r_identity run) = ''imported'' then Valid
      else let self_metrics_ok = (\<not> probes_ran \<or> r_self_metrics run \<noteq> []) in
        if has_extended (r_fingerprint run) \<and> self_metrics_ok then Reproducible else Valid)"

definition schema_version :: string where
  "schema_version = ''0.1.0''"

definition assemble ::
  "string \<Rightarrow> identity \<Rightarrow> fingerprint \<Rightarrow> json \<Rightarrow> fragment list \<Rightarrow> json list \<Rightarrow> assay_run" where
  "assemble run_id ident fp gate fragments spans = (let
     (series, self_metrics) = foldl (\<lambda>(s, m) fr. (s @ g_series fr, m @ g_self_metrics fr)) ([], []) fragments;
     probes_ran = list_ex (\<lambda>fr. g_series fr \<noteq> [] \<or> g_capture_meta fr \<noteq> None) fragments;
     run = \<lparr>r_schema_version = schema_version, r_run_id = run_id, r_identity = ident,
       r_fingerprint = fp, r_spans = spans, r_series = series, r_self_metrics = self_metrics,
       r_gate = gate, r_outcome = None, r_workload_report = None, r_grade = Invalid\<rparr>
     in run\<lparr>r_grade := compute_grade run probes_ran\<rparr>)"

section \<open>Serialisation\<close>

fun grade_name :: "grade \<Rightarrow> string" where
  "grade_name Reproducible = ''reproducible''"
| "grade_name Valid = ''valid''"
| "grade_name Invalid = ''invalid''"

definition identity_json :: "identity \<Rightarrow> json" where
  "identity_json i = jobj
     [(''target_adapter'', JString (i_target_adapter i)),
      (''target_adapter_version'', JString (i_target_adapter_version i)),
      (''workload_driver'', JString (i_workload_driver i)),
      (''workload_driver_version'', JString (i_workload_driver_version i)),
      (''sut_git_sha'', JString (i_sut_git_sha i)), (''params'', i_params i),
      (''params_hash'', JString (i_params_hash i)),
      (''benchmark_def_sha'', JString (i_benchmark_def_sha i)), (''source'', JString (i_source i))]"

definition opt_field :: "string \<Rightarrow> ('a \<Rightarrow> json) \<Rightarrow> 'a option \<Rightarrow> (string \<times> json) list" where
  "opt_field k enc x = (case x of Some v \<Rightarrow> [(k, enc v)] | None \<Rightarrow> [])"

definition fingerprint_json :: "fingerprint \<Rightarrow> json" where
  "fingerprint_json fp = jobj
     ([(''hostname'', JString (fp_hostname fp)), (''kernel_version'', JString (fp_kernel_version fp)),
       (''os_release'', JString (fp_os_release fp)), (''cpu_model'', JString (fp_cpu_model fp)),
       (''cpu_count_logical'', JNumber (PosInt (ucast (fp_cpu_count_logical fp)))),
       (''cpu_count_physical'', JNumber (PosInt (ucast (fp_cpu_count_physical fp)))),
       (''smt_enabled'', JBool (fp_smt_enabled fp)), (''cpu_governor'', JString (fp_cpu_governor fp)),
       (''thp_setting'', JString (fp_thp_setting fp)),
       (''total_memory_bytes'', JNumber (PosInt (fp_total_memory_bytes fp))),
       (''kvm_present'', JBool (fp_kvm_present fp)), (''tenancy'', JString (fp_tenancy fp)),
       (''tuning_requested'', fp_tuning_requested fp), (''tuning_readback'', fp_tuning_readback fp)]
      @ opt_field ''numa_topology'' id (fp_numa_topology fp)
      @ opt_field ''pinning_layout'' id (fp_pinning_layout fp)
      @ opt_field ''mitigations'' id (fp_mitigations fp)
      @ opt_field ''microcode_version'' JString (fp_microcode_version fp)
      @ opt_field ''nested_virt'' JBool (fp_nested_virt fp))"

definition run_json :: "assay_run \<Rightarrow> json" where
  "run_json r = jobj
     ([(''schema_version'', JString (r_schema_version r)), (''run_id'', JString (r_run_id r)),
       (''identity'', identity_json (r_identity r)), (''fingerprint'', fingerprint_json (r_fingerprint r)),
       (''spans'', JArray (r_spans r)), (''series'', JArray (r_series r)),
       (''self_metrics'', JArray (r_self_metrics r)), (''gate'', r_gate r)]
      @ opt_field ''outcome'' id (r_outcome r)
      @ opt_field ''workload_report'' id (r_workload_report r)
      @ [(''grade'', JString (grade_name (r_grade r)))])"

section \<open>Lemmas\<close>

lemma merged: "foldl (\<lambda>(s, m) fr. (s @ g_series fr, m @ g_self_metrics fr)) (s, m) frs =
    (s @ concat (map g_series frs), m @ concat (map g_self_metrics frs))"
  by (induction frs arbitrary: s m) simp_all

lemma compute_grade_iff:
  "compute_grade run p = Invalid \<longleftrightarrow> \<not> tuning_consistent (r_fingerprint run)"
  "compute_grade run p = Reproducible \<longleftrightarrow> tuning_consistent (r_fingerprint run)
     \<and> i_source (r_identity run) \<noteq> ''imported'' \<and> has_extended (r_fingerprint run)
     \<and> (p \<longrightarrow> r_self_metrics run \<noteq> [])"
  by (auto simp: compute_grade_def Let_def)

lemma map_of_opt_field: "map_of (rev (opt_field j enc x @ kvs)) k =
    (case map_of (rev kvs) k of Some v \<Rightarrow> Some v
     | None \<Rightarrow> if k = j then map_option enc x else None)"
  by (cases x) (auto simp: opt_field_def map_add_def split: option.split)

lemmas run_json_fields = run_json_def jget_jobj opt_field_def

lemma run_json_get:
  "jget (run_json r) ''series'' = Some (JArray (r_series r))"
  "jget (run_json r) ''self_metrics'' = Some (JArray (r_self_metrics r))"
  "jget (run_json r) ''spans'' = Some (JArray (r_spans r))"
  "jget (run_json r) ''grade'' = Some (JString (grade_name (r_grade r)))"
  "jget (run_json r) ''fingerprint'' = Some (fingerprint_json (r_fingerprint r))"
  "jget (run_json r) ''identity'' = Some (identity_json (r_identity r))"
  "jget (run_json r) ''workload_report'' = r_workload_report r"
  "jget (run_json r) ''capture_meta'' = None"
  by (auto simp: run_json_fields split: option.splits)

lemma fingerprint_tenancy: "jget (fingerprint_json fp) ''tenancy'' = Some (JString (fp_tenancy fp))"
  by (auto simp: fingerprint_json_def jget_jobj opt_field_def split: option.splits)

lemma identity_params_hash: "jget (identity_json i) ''params_hash'' = Some (JString (i_params_hash i))"
  by (simp add: identity_json_def jget_jobj)

lemma grade_name_inj: "grade_name g = grade_name h \<longleftrightarrow> g = h"
  by (cases g; cases h) simp_all

section \<open>Properties\<close>


definition sample_identity :: identity where
  "sample_identity = \<lparr>i_target_adapter = ''firecracker'', i_target_adapter_version = ''1.0'',
     i_workload_driver = ''fio'', i_workload_driver_version = ''3.36'', i_sut_git_sha = ''abc1234'',
     i_params = jobj [], i_params_hash = ''c1'', i_benchmark_def_sha = ''def5678'', i_source = ''captured''\<rparr>"

definition sample_fingerprint :: fingerprint where
  "sample_fingerprint = \<lparr>fp_hostname = ''lab'', fp_kernel_version = ''6.11.0'', fp_os_release = ''Ubuntu'',
     fp_cpu_model = ''Ryzen'', fp_cpu_count_logical = 16, fp_cpu_count_physical = 8,
     fp_smt_enabled = False, fp_cpu_governor = ''performance'', fp_thp_setting = ''never'',
     fp_total_memory_bytes = 137438953472, fp_kvm_present = True, fp_tenancy = ''single_tenant'',
     fp_tuning_requested = jobj [(''g'', JString ''performance'')],
     fp_tuning_readback = jobj [(''g'', JString ''performance'')],
     fp_numa_topology = Some JNull, fp_pinning_layout = Some JNull, fp_mitigations = Some JNull,
     fp_microcode_version = Some ''x'', fp_nested_virt = Some False\<rparr>"


text \<open>What the gate reads of a serialised run is what the producer recorded: its grade
  and tenancy decide admission, so a run is admitted without \<open>--allow-ungraded\<close> exactly
  when the producer graded it reproducible, its cell is its params hash and its series
  are the run's.\<close>

theorem gate_reads_run:
  "(grade_of (run_json r) = ''reproducible'') = (r_grade r = Reproducible)
   \<and> tenancy_of (run_json r) = Some (fp_tenancy (r_fingerprint r))
   \<and> run_params_hash (run_json r) = i_params_hash (r_identity r)
   \<and> run_series (run_json r) = r_series r"
  using grade_name_inj [of "r_grade r" Reproducible]
  by (simp add: grade_of_def get_str_def tenancy_of_def run_params_hash_def run_series_def
      get_array_def run_json_get fingerprint_tenancy identity_params_hash)

text \<open>Capture metadata never reaches the gate: \<open>assemble\<close> uses a fragment's
  \<open>capture_meta\<close> only to tell that a probe ran, and the record has no field for it. So for
  every assembled run the gate sees no capture window and no global cardinality
  overflow: no counter gets a rate, and an overflow a gadget reported there contaminates
  nothing.\<close>

theorem capture_meta_is_lost:
  "window_ns (run_json (assemble run_id ident fp gate frs spans)) = None
   \<and> \<not> global_overflow (run_json (assemble run_id ident fp gate frs spans))"
  by (simp add: window_ns_def global_overflow_def run_json_get)

end
