(* ===== verification/BenchDef.thy ===== *)
theory BenchDef
  imports Json "HOL-Library.Multiset"
begin

text \<open>
  \<open>crates/orchestrate/src/def.rs\<close>: the declarative benchmark definition, its load-time
  rules, and its expansion into parameterisation cells. The YAML reader, the SHA-256
  digest and the JSON printer are third-party code: \<open>from_yaml\<close>, \<open>sha\<close> and \<open>to_text\<close>.
\<close>

section \<open>The definition\<close>

record adapter_spec =
  ad_name :: string
  ad_version :: string
  ad_commands :: "(string, string) bmap"
  ad_config :: "(string, json) bmap"

record gate_spec =
  gs_mode :: string
  gs_p_threshold :: "f64 option"
  gs_noise_threshold :: "f64 option"
  gs_resamples :: "u64 option"
  gs_ignore :: "string list"

record cardinality =
  cd_class :: string
  cd_key_source :: "string option"
  cd_max_keys :: "u64 option"

record capture_entry =
  ce_probe :: string
  ce_gadget :: "string option"
  ce_cardinality :: cardinality
  ce_attach :: "string option"
  ce_hot_path :: bool
  ce_args :: "string list"

record bench_def =
  bd_api_version :: string
  bd_name :: string
  bd_target :: adapter_spec
  bd_workload :: adapter_spec
  bd_gate :: gate_spec
  bd_parameterise :: "(string, json list) bmap"
  bd_compare :: "string option"
  bd_capture :: "capture_entry list"
  bd_host_prep :: json
  bd_tenancy :: string

record cell =
  cell_params :: json
  cell_params_hash :: string

definition gate_modes :: "string list" where
  "gate_modes = [''ab_permutation'', ''longitudinal_drift'', ''subsystem_triad'']"

definition tenancies :: "string list" where
  "tenancies = [''single_tenant'', ''density'']"

definition card_classes :: "string list" where
  "card_classes = [''singleton'', ''bounded'']"

definition attach_kinds :: "string list" where
  "attach_kinds = [''tp_btf'', ''tracepoint'', ''fentry'', ''fexit'', ''kprobe'', ''kretprobe'',
     ''uprobe'', ''xdp'', ''tc'']"

section \<open>Hashing\<close>

definition sha256_hex :: "(string \<Rightarrow> u8 list) \<Rightarrow> string \<Rightarrow> string" where
  "sha256_hex sha bytes = concat (map (\<lambda>b. show_hex 2 (uint b)) (sha bytes))"

text \<open>The canonical text of a value: object keys sorted, no white space.\<close>

fun canonical_json :: "(json \<Rightarrow> string) \<Rightarrow> json \<Rightarrow> string"
and canonical_fields :: "(json \<Rightarrow> string) \<Rightarrow> (string \<times> json) list \<Rightarrow> (string \<times> string) list"
and canonical_items :: "(json \<Rightarrow> string) \<Rightarrow> json list \<Rightarrow> string list" where
  "canonical_json to_text (JObject m) = ''{'' @ str_join '',''
     (map (\<lambda>(k, s). to_text (JString k) @ '':'' @ s) (sort_key fst (canonical_fields to_text m))) @ ''}''"
| "canonical_json to_text (JArray xs) = ''['' @ str_join '','' (canonical_items to_text xs) @ '']''"
| "canonical_json to_text JNull = to_text JNull"
| "canonical_json to_text (JBool b) = to_text (JBool b)"
| "canonical_json to_text (JNumber n) = to_text (JNumber n)"
| "canonical_json to_text (JString s) = to_text (JString s)"
| "canonical_fields to_text [] = []"
| "canonical_fields to_text ((k, v) # m) = (k, canonical_json to_text v) # canonical_fields to_text m"
| "canonical_items to_text [] = []"
| "canonical_items to_text (x # xs) = canonical_json to_text x # canonical_items to_text xs"

definition params_hash :: "(string \<Rightarrow> u8 list) \<Rightarrow> (json \<Rightarrow> string) \<Rightarrow> json \<Rightarrow> string" where
  "params_hash sha to_text params = sha256_hex sha (canonical_json to_text params)"

definition parse_def ::
  "(string \<Rightarrow> string + bench_def) \<Rightarrow> (string \<Rightarrow> u8 list) \<Rightarrow> string \<Rightarrow> string + (bench_def \<times> string)" where
  "parse_def from_yaml sha text =
     and_then (map_err (\<lambda>e. ''parsing benchmark def: '' @ e) (from_yaml text))
       (\<lambda>d. Inr (d, sha256_hex sha text))"

section \<open>Load-time rules\<close>

definition quoted :: "string \<Rightarrow> string" where
  "quoted s = [CHR 0x27] @ s @ [CHR 0x27]"

definition gate_problems :: "bench_def \<Rightarrow> string list" where
  "gate_problems d =
     (if gs_mode (bd_gate d) \<notin> set gate_modes
      then [''gate.mode '' @ quoted (gs_mode (bd_gate d)) @ '' unknown (want one of ''
            @ str_join '', '' gate_modes @ '')''] else [])
     @ (if bd_tenancy d \<notin> set tenancies
      then [''tenancy '' @ quoted (bd_tenancy d) @ '' unknown (want one of ''
            @ str_join '', '' tenancies @ '')''] else [])"

definition compare_problems :: "bench_def \<Rightarrow> string list" where
  "compare_problems d = (case bd_compare d of None \<Rightarrow> []
     | Some axis \<Rightarrow> (case bm_get (bd_parameterise d) axis of
         None \<Rightarrow> [''compare '' @ quoted axis @ '' names no parameterise dimension (declare it under parameterise with two values)'']
       | Some values \<Rightarrow> if length values \<noteq> 2
           then [''compare '' @ quoted axis @ '' needs exactly two values for an A/B comparison, found ''
             @ show_nat (length values)]
           else []))"

definition capture_problems :: "capture_entry \<Rightarrow> string list" where
  "capture_problems c = (let wh = ''capture '' @ quoted (ce_probe c); card = ce_cardinality c in
     (if cd_class card \<notin> set card_classes
      then [wh @ '': cardinality.class '' @ quoted (cd_class card)
        @ '' unknown (want singleton or bounded; unbounded is rejected by design)''] else [])
     @ (if cd_class card = ''bounded'' then
          (if cd_key_source card = None then [wh @ '': bounded cardinality needs a key_source''] else [])
          @ (case cd_max_keys card of
               None \<Rightarrow> [wh @ '': bounded cardinality needs max_keys'']
             | Some n \<Rightarrow> if n = 0 then [wh @ '': bounded cardinality max_keys must be > 0''] else [])
        else [])
     @ (case ce_attach c of None \<Rightarrow> []
        | Some a \<Rightarrow> if a \<notin> set attach_kinds
            then [wh @ '': attach '' @ quoted a @ '' unknown (want one of '' @ str_join '', '' attach_kinds @ '')'']
            else [])
     @ (if ce_attach c = Some ''uprobe'' \<and> ce_hot_path c
        then [wh @ '': uprobe on a hot path is banned (dual context switch); sample off the hot path instead'']
        else []))"

definition validate_bench :: "bench_def \<Rightarrow> string list + unit" where
  "validate_bench d = (let
     errs = gate_problems d @ compare_problems d
     in case foldl (\<lambda>es c. es @ capture_problems c) errs (bd_capture d) of
          [] \<Rightarrow> Inr () | es \<Rightarrow> Inl es)"

section \<open>Expansion into cells\<close>

definition extend_combos :: "json list list \<Rightarrow> json list \<Rightarrow> json list list" where
  "extend_combos combos values = concat (map (\<lambda>combo. map (\<lambda>v. combo @ [v]) values) combos)"

definition combos :: "(string \<times> json list) list \<Rightarrow> json list list" where
  "combos axes = foldl (\<lambda>cs (name, values). extend_combos cs values) [[]] axes"

definition cell_of ::
  "(string \<Rightarrow> u8 list) \<Rightarrow> (json \<Rightarrow> string) \<Rightarrow> (string \<times> json list) list \<Rightarrow> json list \<Rightarrow> cell" where
  "cell_of sha to_text axes combo = (let
     m = fold (\<lambda>((name, _), v). bm_insert name v) (zip axes combo) bm_empty;
     params = JObject m
     in \<lparr>cell_params = params, cell_params_hash = params_hash sha to_text params\<rparr>)"

definition expand_cells :: "(string \<Rightarrow> u8 list) \<Rightarrow> (json \<Rightarrow> string) \<Rightarrow> bench_def \<Rightarrow> cell list" where
  "expand_cells sha to_text d =
     map (cell_of sha to_text (bd_parameterise d)) (combos (bd_parameterise d))"

section \<open>Lemmas\<close>

lemma extend_product: "extend_combos (product_lists xss) vs = product_lists (xss @ [vs])"
proof (induction xss)
  case Nil
  then show ?case by (simp add: extend_combos_def)
next
  case (Cons xs xss)
  have "map (\<lambda>c. map (\<lambda>v. c @ [v]) vs) (map (Cons x) cs) = map (map (Cons x)) (map (\<lambda>c. map (\<lambda>v. c @ [v]) vs) cs)"
    for x :: json and cs by simp
  then have "concat (map (\<lambda>c. map (\<lambda>v. c @ [v]) vs) (concat (map (\<lambda>x. map (Cons x) (product_lists xss)) xs)))
      = concat (map (\<lambda>x. map (Cons x) (extend_combos (product_lists xss) vs)) xs)"
    by (induction xs) (simp_all add: extend_combos_def map_concat comp_def)
  then show ?case using Cons by (simp add: extend_combos_def)
qed

lemma combos_product: "combos axes = product_lists (map snd axes)"
proof (induction axes rule: rev_induct)
  case Nil
  then show ?case by (simp add: combos_def)
next
  case (snoc a axes)
  then show ?case by (cases a) (simp add: combos_def extend_product)
qed

lemma length_product_lists: "length (product_lists xss) = prod_list (map length xss)"
proof (induction xss)
  case (Cons xs xss)
  have "length (concat (map (\<lambda>x. map (Cons x) (product_lists xss)) xs))
      = length xs * length (product_lists xss)" by (induction xs) simp_all
  then show ?case using Cons by simp
qed simp

lemma cell_fold: "fold (\<lambda>((name, _), v). bm_insert name v) (zip axes combo) m =
    fold (\<lambda>(k, v). bm_insert k v) (zip (map fst axes) combo) m"
proof (induction axes arbitrary: combo m)
  case (Cons a axes)
  then show ?case by (cases a; cases combo) auto
qed simp

lemma cell_get:
  assumes "distinct (map fst axes)" and "length combo = length axes"
  shows "bm_get (fold (\<lambda>((name, _), v). bm_insert name v) (zip axes combo) bm_empty) k =
    map_of (zip (map fst axes) combo) k"
proof -
  have d: "distinct (map fst (zip (map fst axes) combo))" using assms by simp
  have "map_of (rev (zip (map fst axes) combo)) = map_of (zip (map fst axes) combo)"
    using d by (subst map_of_inject_set) (auto simp: rev_map [symmetric])
  then show ?thesis unfolding cell_fold bm.insert_fold_get by simp
qed

lemma canonical_fields_map: "canonical_fields tt m = map (\<lambda>(k, v). (k, canonical_json tt v)) m"
  by (induction m) auto

lemma validate_bench_loop:
  "foldl (\<lambda>es c. es @ capture_problems c) es cs = es @ concat (map capture_problems cs)"
  by (induction cs arbitrary: es) simp_all

lemma validate_bench_problems: "is_ok (validate_bench d) \<longleftrightarrow>
    gate_problems d = [] \<and> compare_problems d = [] \<and> (\<forall>c \<in> set (bd_capture d). capture_problems c = [])"
proof -
  have ok: "is_ok (case es of [] \<Rightarrow> Inr () | e # es' \<Rightarrow> Inl (e # es')) \<longleftrightarrow> es = []" for es :: "string list"
    by (cases es) simp_all
  show ?thesis unfolding validate_bench_def validate_bench_loop Let_def ok by auto
qed

lemma capture_problems_none: "capture_problems c = [] \<longleftrightarrow>
    (let card = ce_cardinality c in cd_class card \<in> {''singleton'', ''bounded''}
     \<and> (cd_class card = ''bounded'' \<longrightarrow> cd_key_source card \<noteq> None \<and> (\<exists>n. cd_max_keys card = Some n \<and> n \<noteq> 0))
     \<and> (\<forall>a. ce_attach c = Some a \<longrightarrow> a \<in> set attach_kinds)
     \<and> \<not> (ce_attach c = Some ''uprobe'' \<and> ce_hot_path c))"
  by (auto simp: capture_problems_def Let_def card_classes_def split: option.splits)

section \<open>Properties\<close>

text \<open>C27: The matrix is expanded into the cartesian product of its axes, each combination once:
  there are as many cells as the product of the axes' sizes, in the lexicographic order of
  the declared values with the first axis outermost; the params of a cell are an object
  with exactly the axis names as keys and the combination's values, and its hash is the
  hash of those params. No axis gives one cell with empty params.\<close>

theorem expand_cells_product:
  assumes "bm_inv (bd_parameterise d)"
  shows "length (expand_cells sha tt d) = prod_list (map (length \<circ> snd) (bd_parameterise d))
    \<and> (\<forall>i < length (expand_cells sha tt d). let c = expand_cells sha tt d ! i;
          vs = product_lists (map snd (bd_parameterise d)) ! i in
        (\<exists>m. cell_params c = JObject m \<and> set (bm_keys m) = set (bm_keys (bd_parameterise d)) \<and> bm_inv m
           \<and> (\<forall>j < length vs. bm_get m (fst (bd_parameterise d ! j)) = Some (vs ! j)))
        \<and> length vs = length (bd_parameterise d)
        \<and> cell_params_hash c = params_hash sha tt (cell_params c))"
proof -
  let ?ax = "bd_parameterise d"
  have len: "length (expand_cells sha tt d) = length (product_lists (map snd ?ax))"
    by (simp add: expand_cells_def combos_product)
  have dist: "distinct (map fst ?ax)" using bm.keys_distinct [OF assms] .
  have each: "(\<exists>m. cell_params c = JObject m \<and> set (bm_keys m) = set (bm_keys ?ax) \<and> bm_inv m
         \<and> (\<forall>j < length vs. bm_get m (fst (?ax ! j)) = Some (vs ! j)))
       \<and> length vs = length ?ax \<and> cell_params_hash c = params_hash sha tt (cell_params c)"
    if i: "i < length (expand_cells sha tt d)" and c: "c = expand_cells sha tt d ! i"
      and vs: "vs = product_lists (map snd ?ax) ! i" for i c vs
  proof -
    have "vs \<in> set (product_lists (map snd ?ax))" using i vs len by simp
    then have lv: "length vs = length ?ax" using in_set_product_lists_length by fastforce
    define m where "m = fold (\<lambda>((name, _), v). bm_insert name v) (zip ?ax vs) bm_empty"
    have cm: "c = \<lparr>cell_params = JObject m, cell_params_hash = params_hash sha tt (JObject m)\<rparr>"
      using i len by (simp add: c vs m_def expand_cells_def combos_product cell_of_def Let_def)
    have get: "bm_get m k = map_of (zip (map fst ?ax) vs) k" for k
      unfolding m_def by (rule cell_get [OF dist lv])
    have inv_fold: "bm_inv n \<Longrightarrow> bm_inv (fold (\<lambda>(k, v). bm_insert k v) kvs n)"
      for n and kvs :: "(string \<times> json) list"
      by (induction kvs arbitrary: n) auto
    have inv: "bm_inv m" unfolding m_def cell_fold by (rule inv_fold) simp
    have "set (bm_keys m) = {k. map_of (zip (map fst ?ax) vs) k \<noteq> None}"
      unfolding set_eq_iff mem_Collect_eq using bm.keys_get [OF inv] get by metis
    also have "\<dots> = fst ` set (zip (map fst ?ax) vs)" by (auto simp: map_of_eq_None_iff)
    also have "\<dots> = set (map fst ?ax)" using lv by (metis length_map list.set_map map_fst_zip)
    finally have keys: "set (bm_keys m) = set (bm_keys ?ax)" .
    have "bm_get m (fst (?ax ! j)) = Some (vs ! j)" if "j < length vs" for j
    proof -
      have "map_of (zip (map fst ?ax) vs) (map fst ?ax ! j) = Some (vs ! j)"
        using dist that lv by (intro map_of_zip_nth) auto
      then show ?thesis unfolding get using that lv by simp
    qed
    then show ?thesis using cm keys inv lv by auto
  qed
  have n: "length (expand_cells sha tt d) = prod_list (map (length \<circ> snd) ?ax)"
    unfolding len length_product_lists by simp
  show ?thesis unfolding Let_def
    by (intro conjI allI impI n) (use each in blast)+
qed

definition sample_def :: bench_def where
  "sample_def = \<lparr>bd_api_version = ''v0'', bd_name = ''boot'',
     bd_target = \<lparr>ad_name = ''firecracker'', ad_version = '''', ad_commands = bm_empty, ad_config = bm_empty\<rparr>,
     bd_workload = \<lparr>ad_name = ''fio'', ad_version = '''', ad_commands = bm_empty, ad_config = bm_empty\<rparr>,
     bd_gate = \<lparr>gs_mode = ''ab_permutation'', gs_p_threshold = None, gs_noise_threshold = None,
        gs_resamples = None, gs_ignore = []\<rparr>,
     bd_parameterise = [(''mem'', [JNumber (PosInt 256), JNumber (PosInt 512)]),
        (''vcpu'', [JNumber (PosInt 1), JNumber (PosInt 2), JNumber (PosInt 4)])],
     bd_compare = Some ''mem'',
     bd_capture = [\<lparr>ce_probe = ''kvm'', ce_gadget = None,
        ce_cardinality = \<lparr>cd_class = ''bounded'', cd_key_source = Some ''cgroup'', cd_max_keys = Some 64\<rparr>,
        ce_attach = Some ''tracepoint'', ce_hot_path = True, ce_args = []\<rparr>],
     bd_host_prep = JNull, bd_tenancy = ''density''\<rparr>"

theorem expand_cells_product_witness:
  "length (expand_cells (\<lambda>s. map of_char s) (\<lambda>v. ''x'') sample_def) = 6"
proof -
  have "bm_inv (bd_parameterise sample_def)" unfolding bm_inv_def by code_simp
  then have "length (expand_cells (\<lambda>s. map of_char s) (\<lambda>v. ''x'') sample_def)
      = prod_list (map (length \<circ> snd) (bd_parameterise sample_def))"
    using expand_cells_product [of sample_def "\<lambda>s. map of_char s" "\<lambda>v. ''x''"] by blast
  then show ?thesis by (simp add: sample_def_def)
qed

text \<open>The hash of a cell's params does not depend on the order the object holds its entries
  in: two objects with the same entries, each key once, have the same hash.\<close>

theorem params_hash_order:
  assumes "mset kvs = mset kvs'" and "distinct (map fst kvs)"
  shows "params_hash sha tt (JObject kvs) = params_hash sha tt (JObject kvs')"
proof -
  have m: "mset (canonical_fields tt kvs) = mset (canonical_fields tt kvs')"
    unfolding canonical_fields_map using assms(1) by simp
  have "map fst (canonical_fields tt kvs) = map fst kvs" by (induction kvs) auto
  then have "inj_on fst (set (canonical_fields tt kvs))" using assms(2) by (metis distinct_map)
  then have "sort_key fst (canonical_fields tt kvs) = sort_key fst (canonical_fields tt kvs')"
    by (rule sort_key_eq_sort_key [OF m])
  then show ?thesis by (simp add: params_hash_def)
qed

theorem params_hash_order_witness:
  "params_hash (map (\<lambda>c. of_char c)) (\<lambda>_. ''x'') (JObject [(''vcpu'', JNull), (''mem'', JNull)])
   = params_hash (map (\<lambda>c. of_char c)) (\<lambda>_. ''x'') (JObject [(''mem'', JNull), (''vcpu'', JNull)])"
  by (rule params_hash_order) simp_all

text \<open>C30: A definition is accepted iff it obeys the load-time rules: a known gate mode and
  tenancy, a compared axis (if any) that is declared with exactly two values, and for
  every capture entry a cardinality that is singleton or bounded, a key source and a
  positive key ceiling when it is bounded, a known attach kind if one is declared, and
  no uprobe on a hot path.\<close>

theorem validate_bench_rules:
  "is_ok (validate_bench d) =
    (gs_mode (bd_gate d) \<in> {''ab_permutation'', ''longitudinal_drift'', ''subsystem_triad''}
     \<and> bd_tenancy d \<in> {''single_tenant'', ''density''}
     \<and> (\<forall>axis. bd_compare d = Some axis \<longrightarrow> (\<exists>v w. bm_get (bd_parameterise d) axis = Some [v, w]))
     \<and> (\<forall>c \<in> set (bd_capture d). let card = ce_cardinality c in
          cd_class card \<in> {''singleton'', ''bounded''}
          \<and> (cd_class card = ''bounded'' \<longrightarrow>
               cd_key_source card \<noteq> None \<and> (\<exists>n. cd_max_keys card = Some n \<and> n \<noteq> 0))
          \<and> (\<forall>a. ce_attach c = Some a \<longrightarrow> a \<in> set attach_kinds)
          \<and> \<not> (ce_attach c = Some ''uprobe'' \<and> ce_hot_path c)))"
proof -
  have g: "gate_problems d = [] \<longleftrightarrow> gs_mode (bd_gate d) \<in> {''ab_permutation'', ''longitudinal_drift'', ''subsystem_triad''}
     \<and> bd_tenancy d \<in> {''single_tenant'', ''density''}"
    by (simp add: gate_problems_def gate_modes_def tenancies_def)
  have two: "length vs = 2 \<longleftrightarrow> (\<exists>v w. vs = [v, w])" for vs :: "json list"
    by (auto simp: length_Suc_conv numeral_2_eq_2)
  have c: "compare_problems d = [] \<longleftrightarrow>
      (\<forall>axis. bd_compare d = Some axis \<longrightarrow> (\<exists>v w. bm_get (bd_parameterise d) axis = Some [v, w]))"
    by (auto simp: compare_problems_def two split: option.splits if_splits)
  show ?thesis unfolding validate_bench_problems g c capture_problems_none by blast
qed

theorem validate_bench_rules_witness:
  "is_ok (validate_bench sample_def) \<and> \<not> is_ok (validate_bench (sample_def\<lparr>bd_tenancy := ''shared''\<rparr>))"
  unfolding validate_bench_rules by (simp add: sample_def_def attach_kinds_def)

end
