(* ===== verification/Capture.thy ===== *)
theory Capture
  imports Template Effects Contract BenchDef
begin

text \<open>
  \<open>crates/orchestrate/src/capture.rs\<close>: the launches of the capture gadgets and the
  collection of their fragments. A runner is the trait \<open>GadgetRunner\<close>, its operations
  effects on a world; \<open>subprocess_runner\<close> is the real one over the process and file
  operations of the standard library. \<open>observed\<close> wraps any runner in a log of its calls,
  which is what the lemmas on the order of the calls are stated over.
\<close>

section \<open>Launches\<close>

record gadget_invocation =
  gi_gadget :: string
  gi_probe :: string
  gi_args :: "string list"
  gi_out_path :: string

definition sanitize :: "string \<Rightarrow> string" where
  "sanitize s = map (\<lambda>c. if is_ascii_alpha c \<or> is_ascii_digit c \<or> c = CHR ''-'' \<or> c = CHR ''_''
     then c else CHR ''_'') s"

text \<open>\<open>Path::join\<close> with a relative name.\<close>

definition path_join :: "string \<Rightarrow> string \<Rightarrow> string" where
  "path_join d n = (if d = '''' \<or> ends_with ''/'' d then d @ n else d @ ''/'' @ n)"

definition plan_gadget ::
  "u64 \<Rightarrow> string \<Rightarrow> (string, string) bmap \<Rightarrow> capture_entry \<Rightarrow> string + gadget_invocation" where
  "plan_gadget duration out_dir vs e = (case ce_gadget e of
     None \<Rightarrow> Inl (''capture '' @ quoted (ce_probe e) @ '' names no gadget binary to run'')
   | Some gadget \<Rightarrow> let out_path = path_join out_dir (sanitize (ce_probe e) @ ''.frag.json'') in
       Inr \<lparr>gi_gadget = gadget, gi_probe = ce_probe e,
         gi_args = [''--duration'', show_u64 duration, ''--out'', out_path] @ map (\<lambda>a. render a vs) (ce_args e),
         gi_out_path = out_path\<rparr>)"

definition plan_gadgets ::
  "capture_entry list \<Rightarrow> u64 \<Rightarrow> string \<Rightarrow> (string, string) bmap \<Rightarrow> string + gadget_invocation list" where
  "plan_gadgets entries duration out_dir vs = map_res (plan_gadget duration out_dir vs) entries"

section \<open>Running them\<close>

record ('w, 'h) runner =
  rn_spawn :: "gadget_invocation \<Rightarrow> ('w, 'h) io"
  rn_wait :: "gadget_invocation \<Rightarrow> 'h \<Rightarrow> ('w, fragment) io"
  rn_kill :: "'h \<Rightarrow> 'w \<Rightarrow> 'w"

text \<open>The spawning loop: all the handles, or the error with the handles spawned before it.\<close>

fun spawn_all :: "('w, 'h) runner \<Rightarrow> gadget_invocation list \<Rightarrow> 'h list \<Rightarrow> 'w
    \<Rightarrow> (string \<times> 'h list + 'h list) \<times> 'w" where
  "spawn_all r [] hs w = (Inr hs, w)"
| "spawn_all r (gi # gis) hs w = (case rn_spawn r gi w of
     (Inr h, w') \<Rightarrow> spawn_all r gis (hs @ [h]) w'
   | (Inl e, w') \<Rightarrow> (Inl (e, hs), w'))"

fun wait_all :: "('w, 'h) runner \<Rightarrow> (gadget_invocation \<times> 'h) list \<Rightarrow> ('w, fragment list) io" where
  "wait_all r [] w = (Inr [], w)"
| "wait_all r ((gi, h) # rest) w = (case rn_wait r gi h w of
     (Inl e, w') \<Rightarrow> (Inl e, w')
   | (Inr fr, w') \<Rightarrow> (case wait_all r rest w' of
       (Inl e, w'') \<Rightarrow> (Inl e, w'') | (Inr frs, w'') \<Rightarrow> (Inr (fr # frs), w'')))"

definition capture :: "gadget_invocation list \<Rightarrow> ('w, 'h) runner \<Rightarrow> ('w, fragment list) io" where
  "capture plan r w = (case spawn_all r plan [] w of
     (Inl (e, hs), w') \<Rightarrow> (Inl e, fold (rn_kill r) hs w')
   | (Inr hs, w') \<Rightarrow> wait_all r (zip plan hs) w')"

section \<open>Subprocesses\<close>

text \<open>\<open>Command::spawn\<close>, \<open>Child::wait\<close> and \<open>Child::kill\<close>, \<open>read_to_string\<close>, and the JSON reader.\<close>

record ('w, 'h) process_ops =
  po_spawn :: "string \<Rightarrow> string list \<Rightarrow> ('w, 'h) io"
  po_wait :: "'h \<Rightarrow> ('w, bool \<times> string) io"
  po_kill :: "'h \<Rightarrow> ('w, unit) io"
  po_read :: "string \<Rightarrow> ('w, string) io"
  po_fragment :: "string \<Rightarrow> string + fragment"

definition named_probe :: "gadget_invocation \<Rightarrow> string" where
  "named_probe gi = gi_gadget gi @ '' ('' @ gi_probe gi @ '')''"

definition subprocess_runner :: "('w, 'h) process_ops \<Rightarrow> ('w, 'h) runner" where
  "subprocess_runner os = \<lparr>
     rn_spawn = (\<lambda>gi. io_map_err (\<lambda>e. ''launching '' @ named_probe gi @ '': '' @ e)
       (po_spawn os (gi_gadget gi) (gi_args gi))),
     rn_wait = (\<lambda>gi h.
       io_then (io_map_err (\<lambda>e. ''waiting on '' @ named_probe gi @ '': '' @ e) (po_wait os h)) (\<lambda>(success, status).
       if \<not> success then io_err (named_probe gi @ '' exited with '' @ status)
       else io_then (io_map_err (\<lambda>e. ''reading fragment from '' @ gi_out_path gi @ '': '' @ e) (po_read os (gi_out_path gi)))
         (\<lambda>text. io_of (map_err (\<lambda>e. ''parsing fragment from '' @ gi_probe gi @ '' ('' @ e @ ''): '' @ e) (po_fragment os text))))),
     rn_kill = (\<lambda>h w. io_ignore (po_wait os h) (io_ignore (po_kill os h) w))\<rparr>"

section \<open>Lemmas: the plan\<close>

lemma plan_gadget_Inr:
  "plan_gadget d out vs e = Inr g \<Longrightarrow> ce_gadget e = Some (gi_gadget g) \<and> gi_probe g = ce_probe e
     \<and> gi_out_path g = path_join out (sanitize (ce_probe e) @ ''.frag.json'')
     \<and> gi_args g = [''--duration'', show_u64 d, ''--out'', gi_out_path g] @ map (\<lambda>a. render a vs) (ce_args e)"
  by (auto simp: plan_gadget_def Let_def split: option.splits)

lemma plan_gadgets_Inr:
  assumes "plan_gadgets es d out vs = Inr plan"
  shows "length plan = length es"
    and "i < length es \<Longrightarrow> plan_gadget d out vs (es ! i) = Inr (plan ! i)"
  using assms map_res_Inr_length map_res_Inr_nth by (fastforce simp: plan_gadgets_def)+

lemma plan_gadgets_ok: "is_ok (plan_gadgets es d out vs) \<longleftrightarrow> (\<forall>e \<in> set es. ce_gadget e \<noteq> None)"
proof (induction es)
  case (Cons e es)
  then show ?case
    by (cases "plan_gadgets es d out vs") (auto simp: plan_gadgets_def plan_gadget_def Let_def split: option.splits)
qed (simp add: plan_gadgets_def)

lemma sanitize_safe: "c \<in> set (sanitize s) \<Longrightarrow> c \<noteq> CHR ''/'' \<and> c \<noteq> CHR ''.''"
  by (auto simp: sanitize_def is_ascii_alpha_def is_ascii_digit_def split: if_splits)

lemma length_sanitize [simp]: "length (sanitize s) = length s"
  by (simp add: sanitize_def)

section \<open>Lemmas: the order of the calls\<close>

datatype 'h gadget_call = Spawned gadget_invocation 'h | SpawnFailed gadget_invocation
  | Waited gadget_invocation 'h bool | Killed 'h

definition observed :: "('w, 'h) runner \<Rightarrow> ('w \<times> 'h gadget_call list, 'h) runner" where
  "observed r = \<lparr>
     rn_spawn = (\<lambda>gi (w, t). case rn_spawn r gi w of
        (Inr h, w') \<Rightarrow> (Inr h, w', t @ [Spawned gi h])
      | (Inl e, w') \<Rightarrow> (Inl e, w', t @ [SpawnFailed gi])),
     rn_wait = (\<lambda>gi h (w, t). case rn_wait r gi h w of
        (res, w') \<Rightarrow> (res, w', t @ [Waited gi h (is_ok res)])),
     rn_kill = (\<lambda>h (w, t). (rn_kill r h w, t @ [Killed h]))\<rparr>"

abbreviation spawned :: "gadget_invocation list \<Rightarrow> 'h list \<Rightarrow> 'h gadget_call list" where
  "spawned gis hs \<equiv> map (\<lambda>(gi, h). Spawned gi h) (zip gis hs)"

abbreviation waited :: "(gadget_invocation \<times> 'h) list \<Rightarrow> 'h gadget_call list" where
  "waited ihs \<equiv> map (\<lambda>(gi, h). Waited gi h True) ihs"

lemma spawn_all_observed:
  assumes "spawn_all (observed r) plan hs0 (w, t) = (res, w', t')"
  shows "case res of
      Inr hs \<Rightarrow> \<exists>new. length new = length plan \<and> hs = hs0 @ new \<and> t' = t @ spawned plan new
    | Inl (e, hs) \<Rightarrow> \<exists>new k. k < length plan \<and> length new = k \<and> hs = hs0 @ new
        \<and> t' = t @ spawned (take k plan) new @ [SpawnFailed (plan ! k)]"
  using assms
proof (induction plan arbitrary: hs0 w t)
  case Nil
  then show ?case by auto
next
  case (Cons gi plan)
  obtain q w1 where q: "rn_spawn r gi w = (q, w1)" by (cases "rn_spawn r gi w")
  show ?case
  proof (cases q)
    case (Inl e)
    then have "res = Inl (e, hs0)" "t' = t @ [SpawnFailed gi]"
      using Cons.prems q by (auto simp: observed_def)
    then show ?thesis by (auto intro: exI [of _ "[]"] exI [of _ 0])
  next
    case (Inr h)
    then have rest: "spawn_all (observed r) plan (hs0 @ [h]) (w1, t @ [Spawned gi h]) = (res, w', t')"
      using Cons.prems q by (simp add: observed_def)
    show ?thesis
    proof (cases res)
      case (Inr hs)
      obtain new where "length new = length plan" "hs = (hs0 @ [h]) @ new"
        "t' = (t @ [Spawned gi h]) @ spawned plan new"
        using Cons.IH [OF rest] Inr by auto
      then have "length (h # new) = length (gi # plan)" "hs = hs0 @ (h # new)"
        "t' = t @ spawned (gi # plan) (h # new)"
        by simp_all
      then show ?thesis unfolding Inr sum.case by blast
    next
      case (Inl ehs)
      obtain e hs where ehs: "ehs = (e, hs)" by (cases ehs)
      obtain new k where "k < length plan" "length new = k" "hs = (hs0 @ [h]) @ new"
        "t' = (t @ [Spawned gi h]) @ spawned (take k plan) new @ [SpawnFailed (plan ! k)]"
        using Cons.IH [OF rest] Inl ehs by auto
      then have "Suc k < length (gi # plan)" "length (h # new) = Suc k" "hs = hs0 @ (h # new)"
        "t' = t @ spawned (take (Suc k) (gi # plan)) (h # new) @ [SpawnFailed ((gi # plan) ! Suc k)]"
        by simp_all
      then show ?thesis unfolding Inl ehs sum.case prod.case by blast
    qed
  qed
qed

lemma wait_all_observed:
  assumes "wait_all (observed r) ihs (w, t) = (res, w', t')"
  shows "case res of
      Inr frs \<Rightarrow> length frs = length ihs \<and> t' = t @ waited ihs
    | Inl e \<Rightarrow> \<exists>k < length ihs. t' = t @ waited (take k ihs) @ [Waited (fst (ihs ! k)) (snd (ihs ! k)) False]"
  using assms
proof (induction ihs arbitrary: w t res)
  case Nil
  then show ?case by auto
next
  case (Cons ih ihs)
  obtain gi h where ih: "ih = (gi, h)" by (cases ih)
  obtain q w1 where q: "rn_wait r gi h w = (q, w1)" by (cases "rn_wait r gi h w")
  show ?case
  proof (cases q)
    case (Inl e)
    then have "res = Inl e" "t' = t @ [Waited gi h False]"
      using Cons.prems q by (auto simp: observed_def ih)
    then show ?thesis by (auto simp: ih intro!: exI [of _ 0])
  next
    case (Inr fr)
    obtain res1 where rest: "wait_all (observed r) ihs (w1, t @ [Waited gi h True]) = (res1, w', t')"
      and res: "res = map_ok (\<lambda>frs. fr # frs) res1"
      using Cons.prems q Inr by (auto simp: observed_def ih split: prod.splits sum.splits)
    show ?thesis
    proof (cases res1)
      case (Inr frs)
      then show ?thesis using Cons.IH [OF rest] res by (simp add: ih)
    next
      case (Inl e)
      then obtain k where "k < length ihs"
        "t' = (t @ [Waited gi h True]) @ waited (take k ihs) @ [Waited (fst (ihs ! k)) (snd (ihs ! k)) False]"
        using Cons.IH [OF rest] by auto
      then show ?thesis using res Inl by (auto simp: ih intro!: exI [of _ "Suc k"])
    qed
  qed
qed

lemma kill_all_observed: "fold (rn_kill (observed r)) hs (w, t) = (fold (rn_kill r) hs w, t @ map Killed hs)"
  by (induction hs arbitrary: w t) (auto simp: observed_def)

section \<open>Properties\<close>

text \<open>The plan launches each entry's own binary: an accepted plan has one launch per entry in
  order, each told its window and its output file first and then the entry's own
  arguments rendered with the cell's variables, and the file it is told is the file its
  fragment is read from. Two launches share that file exactly when their probe names
  agree after sanitising.\<close>

theorem plan_launches:
  assumes "plan_gadgets es duration out vs = Inr plan" and "i < length es" and "j < length es"
  shows "length plan = length es
    \<and> ce_gadget (es ! i) = Some (gi_gadget (plan ! i)) \<and> gi_probe (plan ! i) = ce_probe (es ! i)
    \<and> gi_args (plan ! i) = [''--duration'', show_u64 duration, ''--out'', gi_out_path (plan ! i)]
         @ map (\<lambda>a. render a vs) (ce_args (es ! i))
    \<and> (gi_out_path (plan ! i) = gi_out_path (plan ! j)
         \<longleftrightarrow> sanitize (ce_probe (es ! i)) = sanitize (ce_probe (es ! j)))"
proof -
  note e = plan_gadgets_Inr [OF assms(1)]
  have one: "ce_gadget (es ! k) = Some (gi_gadget (plan ! k)) \<and> gi_probe (plan ! k) = ce_probe (es ! k)
      \<and> gi_out_path (plan ! k) = path_join out (sanitize (ce_probe (es ! k)) @ ''.frag.json'')
      \<and> gi_args (plan ! k) = [''--duration'', show_u64 duration, ''--out'', gi_out_path (plan ! k)]
         @ map (\<lambda>a. render a vs) (ce_args (es ! k))" if "k < length es" for k
    using plan_gadget_Inr [OF e(2) [OF that]] .
  have "path_join out a = path_join out b \<longleftrightarrow> a = b" for a b by (simp add: path_join_def)
  then show ?thesis using e(1) one [OF assms(2)] one [OF assms(3)] by simp
qed

definition sample_entries :: "capture_entry list" where
  "sample_entries = map (\<lambda>p. \<lparr>ce_probe = p, ce_gadget = Some ''kvm'',
     ce_cardinality = \<lparr>cd_class = ''singleton'', cd_key_source = None, cd_max_keys = None\<rparr>,
     ce_attach = None, ce_hot_path = False, ce_args = [''--f={def_dir}'']\<rparr>) [''kvm.exit'', ''kvm_exit'']"

theorem plan_launches_witness:
  "\<exists>plan. plan_gadgets sample_entries 30 ''/tmp'' [(''def_dir'', ''/d'')] = Inr plan
     \<and> gi_out_path (plan ! 0) = gi_out_path (plan ! 1) \<and> drop 4 (gi_args (plan ! 1)) = [''--f=/d'']"
proof -
  have ok: "is_ok (plan_gadgets sample_entries 30 ''/tmp'' [(''def_dir'', ''/d'')])"
    by (simp add: plan_gadgets_ok sample_entries_def)
  then obtain plan where p: "plan_gadgets sample_entries 30 ''/tmp'' [(''def_dir'', ''/d'')] = Inr plan"
    by (auto simp: is_ok_iff)
  have "sanitize (ce_probe (sample_entries ! 0)) = sanitize (ce_probe (sample_entries ! 1))"
    "map (\<lambda>a. render a [(''def_dir'', ''/d'')]) (ce_args (sample_entries ! 1)) = [''--f=/d'']"
    by code_simp+
  then show ?thesis using plan_launches [OF p, of 1 0] p by (simp add: sample_entries_def)
qed

text \<open>C35: All gadgets see the same window: no gadget is waited on before the last one is spawned,
  and they are collected in the order of the plan. When a spawn fails, nothing is waited
  on and exactly the gadgets already running are killed; when a gadget fails, the
  capture ends there with its error.\<close>

theorem capture_order:
  assumes "capture plan (observed r) (w, []) = (res, w', t)"
  shows "case res of
      Inr frs \<Rightarrow> \<exists>hs. length hs = length plan \<and> length frs = length plan
        \<and> t = spawned plan hs @ waited (zip plan hs)
    | Inl _ \<Rightarrow> (\<exists>hs k. length hs = length plan \<and> k < length plan
          \<and> t = spawned plan hs @ waited (take k (zip plan hs)) @ [Waited (plan ! k) (hs ! k) False])
        \<or> (\<exists>hs k. length hs = k \<and> k < length plan
          \<and> t = spawned (take k plan) hs @ [SpawnFailed (plan ! k)] @ map Killed hs)"
proof -
  obtain q w1 t1 where q: "spawn_all (observed r) plan [] (w, []) = (q, w1, t1)"
    by (cases "spawn_all (observed r) plan [] (w, [])")
  note sp = spawn_all_observed [OF q]
  show ?thesis
  proof (cases q)
    case (Inl ehs)
    obtain e hs where ehs: "ehs = (e, hs)" by (cases ehs)
    have "res = Inl e" "t = t1 @ map Killed hs"
      using assms q Inl ehs by (auto simp: capture_def kill_all_observed)
    then show ?thesis using sp Inl ehs by fastforce
  next
    case (Inr hs)
    have hs: "length hs = length plan" "t1 = spawned plan hs" using sp Inr by auto
    have wt: "wait_all (observed r) (zip plan hs) (w1, t1) = (res, w', t)"
      using assms q Inr by (simp add: capture_def)
    show ?thesis using wait_all_observed [OF wt] hs by (cases res) fastforce+
  qed
qed

text \<open>A runner whose second spawn fails.\<close>

definition two_slots :: "(nat, nat) runner" where
  "two_slots = \<lparr>rn_spawn = (\<lambda>gi n. if n = 1 then (Inl ''full'', n) else (Inr n, n + 1)),
     rn_wait = (\<lambda>gi h n. (Inl ''gone'', n)), rn_kill = (\<lambda>h n. n - 1)\<rparr>"

definition launch :: "string \<Rightarrow> gadget_invocation" where
  "launch p = \<lparr>gi_gadget = p, gi_probe = p, gi_args = [], gi_out_path = p\<rparr>"

theorem capture_order_witness:
  "\<exists>w' t. capture [launch ''a'', launch ''b''] (observed two_slots) (0, []) = (Inl ''full'', w', t)
     \<and> (\<exists>e \<in> set t. e = SpawnFailed (launch ''b''))"
proof -
  let ?run = "capture [launch ''a'', launch ''b''] (observed two_slots) (0, [])"
  obtain res w' t where run: "?run = (res, w', t)" by (cases ?run)
  have "fst ?run = Inl ''full''" by code_simp
  then have res: "res = Inl ''full''" by (simp add: run)
  have "snd (snd ?run) = [Spawned (launch ''a'') 0, SpawnFailed (launch ''b''), Killed 0]" by code_simp
  then have t: "SpawnFailed (launch ''b'') \<in> set t" by (simp add: run)
  show ?thesis using capture_order [OF run] run res t by auto
qed

end
