(* ===== verification/Adapter.thy ===== *)
theory Adapter
  imports Capture
begin

text \<open>
  \<open>crates/orchestrate/src/adapter.rs\<close>, the adapters: the traits \<open>Target\<close> and \<open>Workload\<close> as
  records of effects on a world (the shell is bound when the record is built), the command
  adapter, the fan-out of one target over many, and the synthetic fragments for host
  memory and page-cache residency. The JSON readers of \<open>serde_json\<close>, the clock and the
  system calls behind \<open>mincore\<close> are parameters.
\<close>

section \<open>The traits\<close>

record net_attribution =
  na_tap :: string
  na_ifindex :: u32
  na_guest_mac :: string
  na_netns_inum :: u32

record 'w target =
  tg_version :: "'w \<Rightarrow> string \<times> 'w"
  tg_provision :: "('w, unit) io"
  tg_start :: "('w, unit) io"
  tg_reach_steady :: "('w, unit) io"
  tg_spans :: "('w, json list) io"
  tg_teardown :: "('w, unit) io"
  tg_pinning_layout :: "'w \<Rightarrow> json option"
  tg_resident_files :: "'w \<Rightarrow> (string \<times> string) list"
  tg_net_attribution :: "'w \<Rightarrow> net_attribution list \<times> 'w"

record 'w workload =
  wl_version :: "'w \<Rightarrow> string \<times> 'w"
  wl_start :: "('w, unit) io"
  wl_stop :: "('w, unit) io"
  wl_report :: "('w, json) io"

section \<open>The shell\<close>

text \<open>\<open>Command::output\<close>: success, the printed status, and the two streams decoded.\<close>

type_synonym 'w process_output = "string \<Rightarrow> string list \<Rightarrow> ('w, bool \<times> string \<times> string \<times> string) io"

definition system_shell :: "'w process_output \<Rightarrow> 'w shell" where
  "system_shell output cmd =
     io_then (io_map_err (\<lambda>e. ''running `'' @ cmd @ ''`: '' @ e) (output ''sh'' [''-c'', cmd]))
       (\<lambda>(success, status, stdout, stderr).
          if \<not> success then io_err (''command failed ('' @ status @ ''): '' @ cmd @ [newline] @ trim stderr)
          else io_ok stdout)"

section \<open>The command adapter\<close>

record command_set =
  cs_commands :: "(string, string) bmap"
  cs_vars :: "(string, string) bmap"

definition exec :: "'w shell \<Rightarrow> command_set \<Rightarrow> string \<Rightarrow> ('w, string option) io" where
  "exec sh cs phase = (case bm_get (cs_commands cs) phase of
     Some t \<Rightarrow> io_map Some (sh (render t (cs_vars cs)))
   | None \<Rightarrow> io_ok None)"

definition version_or :: "'w shell \<Rightarrow> command_set \<Rightarrow> string \<Rightarrow> 'w \<Rightarrow> string \<times> 'w" where
  "version_or sh cs dflt w = (case exec sh cs ''version'' w of
     (Inr (Some s), w') \<Rightarrow> (if trim s = '''' then dflt else trim s, w')
   | (_, w') \<Rightarrow> (dflt, w'))"

definition exec_unit :: "'w shell \<Rightarrow> command_set \<Rightarrow> string \<Rightarrow> ('w, unit) io" where
  "exec_unit sh cs phase = io_map (\<lambda>_. ()) (exec sh cs phase)"

text \<open>The output of a phase read as JSON, or a dflt when there is none.\<close>

definition exec_json ::
  "'w shell \<Rightarrow> (string \<Rightarrow> string + 'a) \<Rightarrow> string \<Rightarrow> 'a \<Rightarrow> command_set \<Rightarrow> string \<Rightarrow> ('w, 'a) io" where
  "exec_json sh from_str what dflt cs phase = io_then (exec sh cs phase) (\<lambda>out. case out of
     Some s \<Rightarrow> if trim s = '''' then io_ok dflt
       else io_of (map_err (\<lambda>e. ''parsing '' @ what @ '' json: '' @ e) (from_str (trim s)))
   | None \<Rightarrow> io_ok dflt)"

definition command_target :: "'w shell \<Rightarrow> (string \<Rightarrow> string + json list) \<Rightarrow> command_set \<Rightarrow> 'w target" where
  "command_target sh from_str cs = \<lparr>
     tg_version = version_or sh cs ''command-adapter'',
     tg_provision = exec_unit sh cs ''provision'',
     tg_start = exec_unit sh cs ''start'',
     tg_reach_steady = exec_unit sh cs ''reach_steady'',
     tg_spans = exec_json sh from_str ''spans'' [] cs ''spans'',
     tg_teardown = exec_unit sh cs ''teardown'',
     tg_pinning_layout = (\<lambda>w. None), tg_resident_files = (\<lambda>w. []), tg_net_attribution = (\<lambda>w. ([], w))\<rparr>"

definition command_workload :: "'w shell \<Rightarrow> (string \<Rightarrow> string + json) \<Rightarrow> command_set \<Rightarrow> 'w workload" where
  "command_workload sh from_str cs = \<lparr>
     wl_version = version_or sh cs ''command-adapter'',
     wl_start = exec_unit sh cs ''start'',
     wl_stop = exec_unit sh cs ''stop'',
     wl_report = exec_json sh from_str ''report'' JNull cs ''report''\<rparr>"

definition command_set_of :: "adapter_spec \<Rightarrow> (string, string) bmap \<Rightarrow> command_set" where
  "command_set_of spec vs = \<lparr>cs_commands = ad_commands spec, cs_vars = vs\<rparr>"

section \<open>Fan-out\<close>

text \<open>The fan-out's own cells next to the world its inner targets act on.\<close>

record fanout_state =
  fo_start_ns :: u64
  fo_spans :: "json list"

definition fanout_new :: fanout_state where
  "fanout_new = \<lparr>fo_start_ns = 0, fo_spans = []\<rparr>"

definition on_inner :: "('w, 'a) io \<Rightarrow> ('w \<times> 's, 'a) io" where
  "on_inner m = (\<lambda>(w, st). case m w of (r, w') \<Rightarrow> (r, w', st))"

text \<open>The name of the aggregate span: that of the last span of the first instance.\<close>

definition span_name :: "json list \<Rightarrow> string option" where
  "span_name spans = (if spans = [] then None else get_str (last spans) ''name'')"

definition aggregate_name :: "'w target list \<Rightarrow> 'w \<Rightarrow> string \<times> 'w" where
  "aggregate_name inners w = (case inners of [] \<Rightarrow> (''reach_steady'', w)
     | t # _ \<Rightarrow> (case tg_spans t w of
         (Inr spans, w') \<Rightarrow> (or_else (span_name spans) ''reach_steady'', w')
       | (Inl _, w') \<Rightarrow> (''reach_steady'', w')))"

fun teardown_all :: "'w target list \<Rightarrow> string + unit \<Rightarrow> ('w, unit) io" where
  "teardown_all [] acc w = (acc, w)"
| "teardown_all (t # ts) acc w = (case tg_teardown t w of
     (Inl e, w') \<Rightarrow> teardown_all ts (Inl e) w'
   | (Inr _, w') \<Rightarrow> teardown_all ts acc w')"

fun net_all :: "'w target list \<Rightarrow> 'w \<Rightarrow> net_attribution list \<times> 'w" where
  "net_all [] w = ([], w)"
| "net_all (t # ts) w = (let (ns, w') = tg_net_attribution t w; (rest, w'') = net_all ts w' in (ns @ rest, w''))"

definition instance_label :: "nat \<Rightarrow> string" where
  "instance_label i = ''instance'' @ show_nat i"

definition fanout_pinning :: "'w target list \<Rightarrow> 'w \<Rightarrow> json option" where
  "fanout_pinning inners w = (let layouts = List.map_filter (\<lambda>(i, t).
       map_option (\<lambda>l. (instance_label i, l)) (tg_pinning_layout t w)) (enumerate 0 inners)
     in if layouts = [] then None else Some (jobj layouts))"

definition fanout_resident :: "'w target list \<Rightarrow> 'w \<Rightarrow> (string \<times> string) list" where
  "fanout_resident inners w = concat (map (\<lambda>(i, t).
     map (\<lambda>(_, path). (instance_label i, path)) (tg_resident_files t w)) (enumerate 0 inners))"

definition fanout_provision :: "('w \<Rightarrow> u64 \<times> 'w) \<Rightarrow> 'w target list \<Rightarrow> ('w \<times> fanout_state, unit) io" where
  "fanout_provision now inners = (\<lambda>(w, st). let (t0, w1) = now w in
     on_inner (io_each tg_provision inners) (w1, st\<lparr>fo_start_ns := t0\<rparr>))"

definition fanout_reach_steady :: "('w \<Rightarrow> u64 \<times> 'w) \<Rightarrow> 'w target list \<Rightarrow> ('w \<times> fanout_state, unit) io" where
  "fanout_reach_steady now inners = io_then (on_inner (io_each tg_reach_steady inners)) (\<lambda>_ (w, st). let
     (t1, w1) = now w; (name, w2) = aggregate_name inners w1;
     span = jobj [(''name'', JString name), (''start_unix_nano'', JNumber (PosInt (fo_start_ns st))),
       (''end_unix_nano'', JNumber (PosInt t1))]
     in (Inr (), w2, st\<lparr>fo_spans := fo_spans st @ [span]\<rparr>))"

definition fanout_target :: "('w \<Rightarrow> u64 \<times> 'w) \<Rightarrow> 'w target list \<Rightarrow> ('w \<times> fanout_state) target" where
  "fanout_target now inners = \<lparr>
     tg_version = (\<lambda>(w, st). case inners of [] \<Rightarrow> (''fanout'', w, st)
       | t # _ \<Rightarrow> (let (v, w') = tg_version t w in (v, w', st))),
     tg_provision = fanout_provision now inners,
     tg_start = on_inner (io_each tg_start inners),
     tg_reach_steady = fanout_reach_steady now inners,
     tg_spans = (\<lambda>(w, st). (Inr (fo_spans st), w, st)),
     tg_teardown = on_inner (teardown_all inners (Inr ())),
     tg_pinning_layout = (\<lambda>(w, st). fanout_pinning inners w),
     tg_resident_files = (\<lambda>(w, st). fanout_resident inners w),
     tg_net_attribution = (\<lambda>(w, st). let (ns, w') = net_all inners w in (ns, w', st))\<rparr>"

section \<open>Host memory\<close>

definition meminfo_field :: "string \<Rightarrow> string \<Rightarrow> i64" where
  "meminfo_field text name = or_else (Option.bind (Option.bind
     (find (starts_with name) (str_lines text))
     (\<lambda>l. let fs = split_ws l in if 1 < length fs then Some (fs ! 1) else None)) parse_i64) 0"

definition parse_meminfo :: "string \<Rightarrow> i64 \<times> i64" where
  "parse_meminfo text = (meminfo_field text ''MemAvailable:'', meminfo_field text ''Cached:'')"

definition sample_meminfo :: "'w shell \<Rightarrow> 'w \<Rightarrow> (i64 \<times> i64) \<times> 'w" where
  "sample_meminfo sh w = (case sh ''cat /proc/meminfo'' w of
     (Inr s, w') \<Rightarrow> (parse_meminfo s, w') | (Inl _, w') \<Rightarrow> (parse_meminfo '''', w'))"

definition singleton_card :: json where
  "singleton_card = jobj [(''class'', JString ''singleton'')]"

definition gauge_data :: "json \<Rightarrow> json" where
  "gauge_data v = jobj [(''value'', v), (''time_unix_nano'', JNumber (PosInt 0))]"

definition hostmem_gauge :: "string \<Rightarrow> i64 \<Rightarrow> json" where
  "hostmem_gauge name v = jobj [(''name'', JString name), (''unit'', JString ''KiBy''),
     (''kind'', JString ''gauge''), (''source'', JString ''hostmem''),
     (''cardinality'', singleton_card), (''data'', gauge_data (json_i64 v))]"

definition hostmem_fragment :: "i64 \<times> i64 \<Rightarrow> i64 \<times> i64 \<Rightarrow> fragment" where
  "hostmem_fragment before after = \<lparr>
     g_series = [hostmem_gauge ''hostmem.mem_consumed_kib'' (fst before - fst after),
       hostmem_gauge ''hostmem.cached_delta_kib'' (snd after - snd before)],
     g_self_metrics = [],
     g_capture_meta = Some (jobj [(''gadget'', JString ''hostmem''), (''source'', JString ''/proc/meminfo'')])\<rparr>"

section \<open>Residency\<close>

text \<open>
  The system calls behind it: the length of a file that opens, the page size, whether the
  mapping succeeds, and the residency bytes of a mapping of that many pages.
\<close>

record 'w residency_ops =
  rs_len :: "string \<Rightarrow> 'w \<Rightarrow> nat option"
  rs_page :: int
  rs_maps :: "string \<Rightarrow> 'w \<Rightarrow> bool"
  rs_mincore :: "string \<Rightarrow> nat \<Rightarrow> 'w \<Rightarrow> u8 list option"

definition div_ceil :: "nat \<Rightarrow> nat \<Rightarrow> nat" where
  "div_ceil a b = (if a mod b = 0 then a div b else a div b + 1)"

definition sample_residency :: "'w residency_ops \<Rightarrow> 'w \<Rightarrow> string \<Rightarrow> (u64 \<times> u64) option" where
  "sample_residency rs w path = (case rs_len rs path w of None \<Rightarrow> None
     | Some len \<Rightarrow> if rs_page rs \<le> 0 then None
       else if len = 0 then Some (0, 0)
       else let pages = div_ceil len (nat (rs_page rs)) in
         if \<not> rs_maps rs path w then None
         else (case rs_mincore rs path pages w of None \<Rightarrow> None
           | Some bytes \<Rightarrow> Some (of_nat (length (filter (\<lambda>b. and b 1 = 1) bytes)), of_nat pages)))"

definition resident_card :: "nat \<Rightarrow> string \<Rightarrow> json" where
  "resident_card n label = (if 1 < n \<and> label \<noteq> ''''
     then jobj [(''class'', JString ''bounded''), (''key_source'', JString ''guest_index''), (''max_keys'', json_nat n)]
     else singleton_card)"

definition resident_gauge :: "nat \<Rightarrow> string \<Rightarrow> string \<Rightarrow> json \<Rightarrow> json" where
  "resident_gauge n label name v = jobj ([(''name'', JString name), (''unit'', JString ''1''),
     (''kind'', JString ''gauge''), (''source'', JString ''resident'')]
     @ (if label = '''' then [] else [(''key'', JString label)])
     @ [(''cardinality'', resident_card n label), (''data'', gauge_data v)])"

definition resident_fraction :: "u64 \<Rightarrow> u64 \<Rightarrow> f64" where
  "resident_fraction resident pages = (if 0 < pages then f_of_u64 resident / f_of_u64 pages else f_lit 0)"

definition resident_series :: "nat \<Rightarrow> string \<times> u64 \<times> u64 \<Rightarrow> json list" where
  "resident_series n = (\<lambda>(label, resident, pages).
     [resident_gauge n label ''resident.snapshot_resident_pages'' (JNumber (PosInt resident)),
      resident_gauge n label ''resident.snapshot_total_pages'' (JNumber (PosInt pages)),
      resident_gauge n label ''resident.snapshot_fraction'' (json_f64 (resident_fraction resident pages))])"

definition resident_fragment :: "(string \<times> u64 \<times> u64) list \<Rightarrow> fragment option" where
  "resident_fragment measured = (if measured = [] then None else Some \<lparr>
     g_series = concat (map (resident_series (length measured)) measured),
     g_self_metrics = [],
     g_capture_meta = Some (jobj [(''gadget'', JString ''resident''), (''source'', JString ''mincore'')])\<rparr>)"

section \<open>Lemmas: fan-out\<close>

text \<open>The results of tearing the instances down one after the other.\<close>

fun teardown_results :: "'w target list \<Rightarrow> 'w \<Rightarrow> (string + unit) list" where
  "teardown_results [] w = []"
| "teardown_results (t # ts) w = (case tg_teardown t w of (r, w') \<Rightarrow> r # teardown_results ts w')"

definition last_error :: "(string + unit) list \<Rightarrow> string + unit" where
  "last_error rs = (case filter (\<lambda>r. \<not> is_ok r) rs of [] \<Rightarrow> Inr () | es \<Rightarrow> last es)"

lemma teardown_all_results:
  "teardown_all ts acc w = (case filter (\<lambda>r. \<not> is_ok r) (teardown_results ts w) of [] \<Rightarrow> acc | es \<Rightarrow> last es,
     fold (\<lambda>t. io_ignore (tg_teardown t)) ts w)"
proof (induction ts arbitrary: acc w)
  case (Cons t ts)
  obtain r w' where t: "tg_teardown t w = (r, w')" by (cases "tg_teardown t w")
  show ?case
    by (cases r) (auto simp: t Cons.IH io_ignore_def split: list.split)
qed simp

lemma io_each_Inr: "io_each f xs w = (Inr u, w') \<Longrightarrow> u = ()"
  by simp

section \<open>Properties\<close>

text \<open>Tearing a fan-out down tears every instance down, in order, however many of them fail,
  and reports the last failure.\<close>

theorem fanout_tears_all_down:
  "tg_teardown (fanout_target now ts) (w, st)
     = (last_error (teardown_results ts w), fold (\<lambda>t. io_ignore (tg_teardown t)) ts w, st)"
  by (simp add: fanout_target_def on_inner_def last_error_def teardown_all_results)

text \<open>A fan-out that comes up records one span: from the clock's reading before the first
  instance was provisioned to its reading after the last one reached steady, under the
  name of the first instance's own last lifecycle span.\<close>

theorem fanout_one_span:
  assumes "tg_provision (fanout_target now ts) (w, fanout_new) = (Inr (), w1, st1)"
    and "tg_start (fanout_target now ts) (w1, st1) = (Inr (), w2, st2)"
    and "tg_reach_steady (fanout_target now ts) (w2, st2) = (Inr (), w3, st3)"
  shows "\<exists>w4 w5. io_each tg_reach_steady ts w2 = (Inr (), w4) \<and> now w4 = (fst (now w4), w5)
    \<and> tg_spans (fanout_target now ts) (w3, st3) = (Inr [jobj [
        (''name'', JString (fst (aggregate_name ts w5))),
        (''start_unix_nano'', JNumber (PosInt (fst (now w)))),
        (''end_unix_nano'', JNumber (PosInt (fst (now w4))))]], w3, st3)"
proof -
  have st1: "fo_start_ns st1 = fst (now w)" "fo_spans st1 = []"
    using assms(1) by (auto simp: fanout_target_def fanout_provision_def on_inner_def fanout_new_def split: prod.splits)
  have st2: "st2 = st1" using assms(2) by (auto simp: fanout_target_def on_inner_def split: prod.splits)
  obtain w4 where w4: "io_each tg_reach_steady ts w2 = (Inr (), w4)"
    and st3: "fo_spans st3 = [jobj [(''name'', JString (fst (aggregate_name ts (snd (now w4))))),
        (''start_unix_nano'', JNumber (PosInt (fst (now w)))),
        (''end_unix_nano'', JNumber (PosInt (fst (now w4))))]]"
    using assms(3) st1 st2
    by (auto simp: fanout_target_def fanout_reach_steady_def on_inner_def io_simps split: prod.splits)
  then show ?thesis by (intro exI [of _ w4] exI [of _ "snd (now w4)"]) (simp add: fanout_target_def)
qed

text \<open>An instance that counts the calls made of it and always succeeds.\<close>

definition counting_target :: "nat target" where
  "counting_target = \<lparr>tg_version = (\<lambda>n. (''1'', n)), tg_provision = (\<lambda>n. (Inr (), n + 1)), tg_start = (\<lambda>n. (Inr (), n + 1)),
     tg_reach_steady = (\<lambda>n. (Inr (), n + 1)),
     tg_spans = (\<lambda>n. (Inr [jobj [(''name'', JString ''boot.vmm_ready'')]], n)), tg_teardown = (\<lambda>n. (Inr (), n + 1)),
     tg_pinning_layout = (\<lambda>w. None), tg_resident_files = (\<lambda>w. []), tg_net_attribution = (\<lambda>w. ([], w))\<rparr>"

theorem fanout_one_span_witness:
  "\<exists>w3 st3. tg_spans (fanout_target (\<lambda>n. (of_nat n, n)) [counting_target, counting_target]) (w3, st3)
     = (Inr [jobj [(''name'', JString ''boot.vmm_ready''), (''start_unix_nano'', JNumber (PosInt 0)),
          (''end_unix_nano'', JNumber (PosInt 6))]], w3, st3)"
proof -
  let ?t = "fanout_target (\<lambda>n. (of_nat n, n)) [counting_target, counting_target]"
  let ?st = "\<lparr>fo_start_ns = 0, fo_spans = []\<rparr>"
  have 1: "tg_provision ?t (0, fanout_new) = (Inr (), 2, ?st)"
    and 2: "tg_start ?t (2, ?st) = (Inr (), 4, ?st)"
    by (simp_all add: fanout_target_def fanout_provision_def on_inner_def counting_target_def fanout_new_def)
  have each: "io_each tg_reach_steady [counting_target, counting_target] 4 = (Inr (), 6)"
    by (simp add: counting_target_def)
  have name: "fst (aggregate_name [counting_target, counting_target] 6) = ''boot.vmm_ready''"
    by code_simp
  obtain w3 st3 where 3: "tg_reach_steady ?t (4, ?st) = (Inr (), w3, st3)"
    by (simp add: fanout_target_def fanout_reach_steady_def on_inner_def io_then_def counting_target_def
        aggregate_name_def)
  from fanout_one_span [OF 1 2 3] show ?thesis using each name by auto
qed

end
