(* ===== verification/Netattrib.thy ===== *)
theory Netattrib
  imports Contract
begin

text \<open>
  \<open>crates/orchestrate/src/netattrib.rs\<close>: per-VM attribution on the orchestrator's side.
  Dense handles and their provenance, the rewriting of \<open>labels.vm_id\<close> in the fragments,
  and the request/reply client of the map owner. A channel is the three operations of the
  socket, each with its outcome and the state it leaves.
\<close>

section \<open>Lifecycle states and addresses\<close>

definition LIFECYCLE_RUNNING :: u8 where "LIFECYCLE_RUNNING = 0"

definition LIFECYCLE_PAUSING :: u8 where "LIFECYCLE_PAUSING = 1"

definition LIFECYCLE_PAUSED :: u8 where "LIFECYCLE_PAUSED = 2"

definition LIFECYCLE_RESUMING :: u8 where "LIFECYCLE_RESUMING = 3"

lemmas lifecycle_defs = LIFECYCLE_RUNNING_def LIFECYCLE_PAUSING_def LIFECYCLE_PAUSED_def
  LIFECYCLE_RESUMING_def

definition state_name :: "u8 \<Rightarrow> string" where
  "state_name s = (if s = LIFECYCLE_PAUSING then ''PAUSING'' else if s = LIFECYCLE_PAUSED then ''PAUSED''
     else if s = LIFECYCLE_RESUMING then ''RESUMING'' else ''RUNNING'')"

definition guest_mac_for :: "u64 \<Rightarrow> string" where
  "guest_mac_for index = (let hi = and (drop_bit 8 index) 0xff; lo = and index 0xff in
     ''02:00:00:00:'' @ show_hex 2 (uint hi) @ '':'' @ show_hex 2 (uint lo))"

section \<open>The handle table\<close>

record vm_provenance =
  vp_handle :: u64
  vp_vm_id :: string
  vp_tap :: string
  vp_guest_mac :: string
  vp_ifindex :: u32
  vp_netns_inum :: u32

record handle_table =
  ht_by_handle :: "(u64, vm_provenance) bmap"
  ht_next :: u64

definition table_new :: handle_table where
  "table_new = \<lparr>ht_by_handle = bm_empty, ht_next = 0\<rparr>"

definition reserve :: "handle_table \<Rightarrow> u64 \<times> handle_table" where
  "reserve t = (ht_next t, t\<lparr>ht_next := ht_next t + 1\<rparr>)"

definition table_insert :: "vm_provenance \<Rightarrow> handle_table \<Rightarrow> handle_table" where
  "table_insert p t = t\<lparr>ht_by_handle := bm_insert (vp_handle p) p (ht_by_handle t)\<rparr>"

definition assign :: "string \<Rightarrow> string \<Rightarrow> string \<Rightarrow> u32 \<Rightarrow> u32 \<Rightarrow> handle_table \<Rightarrow> u64 \<times> handle_table" where
  "assign vm_id tap mac ifindex netns t = (let (h, t') = reserve t in
     (h, table_insert \<lparr>vp_handle = h, vp_vm_id = vm_id, vp_tap = tap, vp_guest_mac = mac,
        vp_ifindex = ifindex, vp_netns_inum = netns\<rparr> t'))"

definition table_get :: "handle_table \<Rightarrow> u64 \<Rightarrow> vm_provenance option" where
  "table_get t h = bm_get (ht_by_handle t) h"

definition table_len :: "handle_table \<Rightarrow> nat" where
  "table_len t = length (ht_by_handle t)"

definition table_is_empty :: "handle_table \<Rightarrow> bool" where
  "table_is_empty t = (ht_by_handle t = [])"

definition provenance_row :: "vm_provenance \<Rightarrow> json" where
  "provenance_row p = jobj [(''handle'', JNumber (PosInt (vp_handle p))), (''vm_id'', JString (vp_vm_id p)),
     (''tap'', JString (vp_tap p)), (''guest_mac'', JString (vp_guest_mac p)),
     (''ifindex'', JNumber (PosInt (ucast (vp_ifindex p)))),
     (''netns_inum'', JNumber (PosInt (ucast (vp_netns_inum p))))]"

definition provenance_json :: "handle_table \<Rightarrow> json" where
  "provenance_json t = JArray (map provenance_row (bm_values (ht_by_handle t)))"

section \<open>Rewriting the labels\<close>

definition series_vm_id :: "json \<Rightarrow> string option" where
  "series_vm_id s = Option.bind (Option.bind (jget s ''labels'') (\<lambda>l. jget l ''vm_id'')) as_str"

text \<open>\<open>v[k] = x\<close> on an object.\<close>

fun jset :: "string \<Rightarrow> json \<Rightarrow> json \<Rightarrow> json" where
  "jset k x (JObject m) = JObject (bm_insert k x m)"
| "jset k x v = v"

definition set_vm_id :: "string \<Rightarrow> json \<Rightarrow> json" where
  "set_vm_id vm s = (case jget s ''labels'' of
     Some l \<Rightarrow> jset ''labels'' (jset ''vm_id'' (JString vm) l) s | None \<Rightarrow> s)"

definition rewrite_series :: "handle_table \<Rightarrow> string list \<Rightarrow> json \<Rightarrow> string list \<times> json" where
  "rewrite_series t unknown s = (case series_vm_id s of
     None \<Rightarrow> (unknown, s)
   | Some raw \<Rightarrow> (case parse_u64 raw of
       None \<Rightarrow> (unknown, s)
     | Some h \<Rightarrow> (case table_get t h of
         Some p \<Rightarrow> (unknown, set_vm_id (vp_vm_id p) s)
       | None \<Rightarrow> (push_new raw unknown, s))))"

fun rewrite_all :: "handle_table \<Rightarrow> string list \<Rightarrow> json list \<Rightarrow> string list \<times> json list" where
  "rewrite_all t unknown [] = (unknown, [])"
| "rewrite_all t unknown (s # ss) = (let
     (unknown', s') = rewrite_series t unknown s;
     (unknown'', ss') = rewrite_all t unknown' ss in (unknown'', s' # ss'))"

fun rewrite_fragments :: "handle_table \<Rightarrow> string list \<Rightarrow> fragment list \<Rightarrow> string list \<times> fragment list" where
  "rewrite_fragments t unknown [] = (unknown, [])"
| "rewrite_fragments t unknown (fr # frs) = (let
     (unknown', ss) = rewrite_all t unknown (g_series fr);
     (unknown'', frs') = rewrite_fragments t unknown' frs in (unknown'', fr\<lparr>g_series := ss\<rparr> # frs'))"

definition rewrite_vm_id_labels :: "fragment list \<Rightarrow> handle_table \<Rightarrow> string list \<times> fragment list" where
  "rewrite_vm_id_labels frs t = rewrite_fragments t [] frs"

section \<open>The control client\<close>

record 'c channel =
  ch_write :: "string \<Rightarrow> 'c \<Rightarrow> (string + unit) \<times> 'c"
  ch_flush :: "'c \<Rightarrow> (string + unit) \<times> 'c"
  ch_read :: "'c \<Rightarrow> (string + string) \<times> 'c"

record 'c client =
  cl_stream :: 'c
  cl_poisoned :: bool

definition command_reply :: "string \<Rightarrow> string \<Rightarrow> string + unit" where
  "command_reply line reply = (let r = trim reply in
     case strip_prefix ''err'' r of
       Some msg \<Rightarrow> Inl (''attribution owner rejected '' @ [CHR 0x27] @ line @ [CHR 0x27] @ '':'' @ msg)
     | None \<Rightarrow> if r = ''ok'' then Inr ()
         else Inl (''unexpected reply to '' @ [CHR 0x27] @ line @ [CHR 0x27] @ '': '' @ debug_str r))"

definition command :: "'c channel \<Rightarrow> string \<Rightarrow> 'c client \<Rightarrow> (string + unit) \<times> 'c client" where
  "command ch line c =
     (if cl_poisoned c
      then (Inl (''attribution control channel is desynchronised after an earlier I/O error, refusing ''
              @ [CHR 0x27] @ line @ [CHR 0x27]), c)
      else let (w, s1) = ch_write ch (line @ [newline]) (cl_stream c) in
        case w of Inl e \<Rightarrow> (Inl (''sending '' @ [CHR 0x27] @ line @ [CHR 0x27] @ '': '' @ e), \<lparr>cl_stream = s1, cl_poisoned = True\<rparr>)
        | Inr _ \<Rightarrow> let (f, s2) = ch_flush ch s1 in
            case f of Inl e \<Rightarrow> (Inl (''flushing '' @ [CHR 0x27] @ line @ [CHR 0x27] @ '': '' @ e), \<lparr>cl_stream = s2, cl_poisoned = True\<rparr>)
            | Inr _ \<Rightarrow> let (r, s3) = ch_read ch s2 in
                case r of Inl e \<Rightarrow> (Inl (''reading reply to '' @ [CHR 0x27] @ line @ [CHR 0x27] @ '': '' @ e), \<lparr>cl_stream = s3, cl_poisoned = True\<rparr>)
                | Inr reply \<Rightarrow> (command_reply line reply, \<lparr>cl_stream = s3, cl_poisoned = False\<rparr>))"

definition add_line :: "u32 \<Rightarrow> u64 \<Rightarrow> u32 \<Rightarrow> string" where
  "add_line ifindex handle netns = str_join '' '' [''add'', show_u32 ifindex, show_u64 handle, show_u32 netns]"

definition state_line :: "u64 \<Rightarrow> u8 \<Rightarrow> string" where
  "state_line handle st = str_join '' '' [''state'', show_u64 handle, state_name st]"

definition remove_line :: "u64 \<Rightarrow> string" where
  "remove_line handle = str_join '' '' [''remove'', show_u64 handle]"

definition client_add :: "'c channel \<Rightarrow> u32 \<Rightarrow> u64 \<Rightarrow> u32 \<Rightarrow> 'c client \<Rightarrow> (string + unit) \<times> 'c client" where
  "client_add ch ifindex handle netns c = command ch (add_line ifindex handle netns) c"

definition client_state :: "'c channel \<Rightarrow> u64 \<Rightarrow> u8 \<Rightarrow> 'c client \<Rightarrow> (string + unit) \<times> 'c client" where
  "client_state ch handle st c = command ch (state_line handle st) c"

definition client_remove :: "'c channel \<Rightarrow> u64 \<Rightarrow> 'c client \<Rightarrow> (string + unit) \<times> 'c client" where
  "client_remove ch handle c = command ch (remove_line handle) c"

text \<open>
  Connecting to an owner that may still be starting: try, and retry every 20 ms until the
  deadline. The socket, the monotonic clock (in nanoseconds) and the pause are the
  operations of the world; whether the loop ends is up to them.
\<close>

record ('w, 's) socket_ops =
  so_connect :: "string \<Rightarrow> 'w \<Rightarrow> (string + 's) \<times> 'w"
  so_now :: "'w \<Rightarrow> int \<times> 'w"
  so_sleep :: "int \<Rightarrow> 'w \<Rightarrow> 'w"

partial_function (option) connect_loop ::
  "('w, 's) socket_ops \<Rightarrow> string \<Rightarrow> int \<Rightarrow> 'w \<Rightarrow> ((string + 's client) \<times> 'w) option" where
  "connect_loop so path deadline w = (case so_connect so path w of
     (Inr s, w1) \<Rightarrow> Some (Inr \<lparr>cl_stream = s, cl_poisoned = False\<rparr>, w1)
   | (Inl e, w1) \<Rightarrow> (case so_now so w1 of (now, w2) \<Rightarrow>
       if deadline \<le> now then Some (Inl (''control socket '' @ path @ '' never accepted: '' @ e), w2)
       else connect_loop so path deadline (so_sleep so 20000000 w2)))"

definition connect ::
  "('w, 's) socket_ops \<Rightarrow> string \<Rightarrow> int \<Rightarrow> 'w \<Rightarrow> ((string + 's client) \<times> 'w) option" where
  "connect so path timeout w = (case so_now so w of (now, w1) \<Rightarrow> connect_loop so path (now + timeout) w1)"

section \<open>The session\<close>

record 'c session =
  se_client :: "'c client"
  se_table :: handle_table

definition register ::
  "'c channel \<Rightarrow> string \<Rightarrow> string \<Rightarrow> string \<Rightarrow> u32 \<Rightarrow> u32 \<Rightarrow> 'c session \<Rightarrow> (string + u64) \<times> 'c session" where
  "register ch vm_id tap mac ifindex netns se = (let
     (handle, t) = reserve (se_table se);
     (r, c) = client_add ch ifindex handle netns (se_client se)
     in case r of
       Inl e \<Rightarrow> (Inl e, \<lparr>se_client = c, se_table = t\<rparr>)
     | Inr _ \<Rightarrow> (Inr handle, \<lparr>se_client = c, se_table = table_insert
         \<lparr>vp_handle = handle, vp_vm_id = vm_id, vp_tap = tap, vp_guest_mac = mac,
          vp_ifindex = ifindex, vp_netns_inum = netns\<rparr> t\<rparr>))"

definition set_state :: "'c channel \<Rightarrow> u64 \<Rightarrow> u8 \<Rightarrow> 'c session \<Rightarrow> (string + unit) \<times> 'c session" where
  "set_state ch handle st se = (let (r, c) = client_state ch handle st (se_client se) in
     (r, se\<lparr>se_client := c\<rparr>))"

definition deregister :: "'c channel \<Rightarrow> u64 \<Rightarrow> 'c session \<Rightarrow> (string + unit) \<times> 'c session" where
  "deregister ch handle se = (let (r, c) = client_remove ch handle (se_client se) in
     (r, se\<lparr>se_client := c\<rparr>))"

section \<open>Lemmas: registering\<close>

type_synonym vm_request = "string \<times> string \<times> string \<times> u32 \<times> u32"

definition provenance_of :: "u64 \<Rightarrow> vm_request \<Rightarrow> vm_provenance" where
  "provenance_of h q = (let (vm_id, tap, mac, ifindex, netns) = q in
     \<lparr>vp_handle = h, vp_vm_id = vm_id, vp_tap = tap, vp_guest_mac = mac,
      vp_ifindex = ifindex, vp_netns_inum = netns\<rparr>)"

text \<open>A series of registrations on one session, failed ones included.\<close>

fun register_all :: "'c channel \<Rightarrow> vm_request list \<Rightarrow> 'c session \<Rightarrow> (string + u64) list \<times> 'c session" where
  "register_all ch [] se = ([], se)"
| "register_all ch ((vm_id, tap, mac, ifindex, netns) # qs) se = (let
     (r, se') = register ch vm_id tap mac ifindex netns se;
     (rs, se'') = register_all ch qs se' in (r # rs, se''))"

lemma register_step:
  assumes "register ch vm tap mac ifx ns se = (r, se')"
  shows "ht_next (se_table se') = ht_next (se_table se) + 1"
    and "\<exists>e. r = Inl e \<and> (\<forall>h. table_get (se_table se') h = table_get (se_table se) h)
       \<or> r = Inr (ht_next (se_table se)) \<and> (\<forall>h. table_get (se_table se') h =
           (if h = ht_next (se_table se) then Some (provenance_of h (vm, tap, mac, ifx, ns))
            else table_get (se_table se) h))"
  using assms
  by (auto simp: register_def reserve_def table_insert_def table_get_def provenance_of_def Let_def
      split: prod.splits sum.splits)

lemma of_nat_u64_inj: "i < 2 ^ 64 \<Longrightarrow> j < 2 ^ 64 \<Longrightarrow> (of_nat i :: u64) = of_nat j \<longleftrightarrow> i = j"
proof -
  assume "i < 2 ^ 64" and "j < 2 ^ 64"
  then have "unat (of_nat i :: u64) = i" "unat (of_nat j :: u64) = j" by (simp_all add: unat_of_nat)
  then show ?thesis by metis
qed

text \<open>A table that names only handles below \<open>n\<close>; a request that was answered with its handle or left none.\<close>

definition names_below :: "nat \<Rightarrow> handle_table \<Rightarrow> bool" where
  "names_below n t = (\<forall>h p. table_get t h = Some p \<longrightarrow> (\<exists>i < n. h = of_nat i))"

definition answered :: "handle_table \<Rightarrow> u64 \<Rightarrow> vm_request \<Rightarrow> string + u64 \<Rightarrow> bool" where
  "answered t h q r = ((\<exists>e. r = Inl e \<and> table_get t h = None) \<or> r = Inr h \<and> table_get t h = Some (provenance_of h q))"

lemma names_below_None: "names_below n t \<Longrightarrow> n < 2 ^ 64 \<Longrightarrow> table_get t (of_nat n) = None"
proof (rule ccontr)
  assume n: "names_below n t" "n < 2 ^ 64" and "table_get t (of_nat n) \<noteq> None"
  then obtain i where "i < n" "(of_nat n :: u64) = of_nat i" unfolding names_below_def by blast
  then show False using n(2) of_nat_u64_inj [of n i] by simp
qed

lemma register_first:
  assumes "register ch vm tap mac ifx ns se = (r, se1)" and "ht_next (se_table se) = of_nat n"
    and "names_below n (se_table se)" and "n < 2 ^ 64"
  shows "ht_next (se_table se1) = of_nat (Suc n)" and "names_below (Suc n) (se_table se1)"
    and "answered (se_table se1) (of_nat n) (vm, tap, mac, ifx, ns) r"
    and "i < n \<Longrightarrow> table_get (se_table se1) (of_nat i) = table_get (se_table se) (of_nat i)"
proof -
  note step = register_step [OF assms(1), unfolded assms(2)]
  show "ht_next (se_table se1) = of_nat (Suc n)" using step(1) by (simp add: add.commute)
  have "\<exists>i < Suc n. h = of_nat i" if p: "table_get (se_table se1) h = Some p" for h p
  proof (cases "h = of_nat n")
    case False
    then have "table_get (se_table se) h = Some p" using step(2) p by auto
    then show ?thesis using assms(3) less_SucI unfolding names_below_def by blast
  qed blast
  then show "names_below (Suc n) (se_table se1)" by (simp add: names_below_def)
  show "answered (se_table se1) (of_nat n) (vm, tap, mac, ifx, ns) r"
    using step(2) names_below_None [OF assms(3,4)] by (auto simp: answered_def)
  show "i < n \<Longrightarrow> table_get (se_table se1) (of_nat i) = table_get (se_table se) (of_nat i)"
    using step(2) of_nat_u64_inj [of i n] assms(4) by auto
qed

lemma register_all_from:
  assumes "register_all ch qs se = (rs, se')" and "ht_next (se_table se) = of_nat n"
    and "names_below n (se_table se)" and "n + length qs \<le> 2 ^ 64"
  shows "length rs = length qs \<and> (\<forall>i < length qs. answered (se_table se') (of_nat (n + i)) (qs ! i) (rs ! i))
    \<and> (\<forall>i < n. table_get (se_table se') (of_nat i) = table_get (se_table se) (of_nat i))
    \<and> names_below (n + length qs) (se_table se')"
  using assms
proof (induction qs arbitrary: se rs n)
  case (Cons q qs)
  obtain vm tap mac ifx ns where q: "q = (vm, tap, mac, ifx, ns)" by (cases q)
  obtain r se1 where r: "register ch vm tap mac ifx ns se = (r, se1)" by (cases "register ch vm tap mac ifx ns se")
  obtain rs1 where rest: "register_all ch qs se1 = (rs1, se')" and rs: "rs = r # rs1"
    using Cons.prems(1) by (auto simp: q r split: prod.splits)
  have n: "n < 2 ^ 64" "Suc n + length qs \<le> 2 ^ 64" using Cons.prems(4) by simp_all
  note first = register_first [OF r Cons.prems(2,3) n(1)]
  have IH: "length rs1 = length qs" "\<forall>i < length qs. answered (se_table se') (of_nat (Suc n + i)) (qs ! i) (rs1 ! i)"
    "\<forall>i < Suc n. table_get (se_table se') (of_nat i) = table_get (se_table se1) (of_nat i)"
    "names_below (Suc n + length qs) (se_table se')"
    using Cons.IH [OF rest first(1,2) n(2)] by blast+
  have "answered (se_table se') (of_nat n) q r" using first(3) IH(3) by (simp add: answered_def q)
  then have "answered (se_table se') (of_nat (n + i)) ((q # qs) ! i) (rs ! i)" if "i < length (q # qs)" for i
    using that IH(2) by (cases i) (simp_all add: rs)
  moreover have "table_get (se_table se') (of_nat i) = table_get (se_table se) (of_nat i)" if "i < n" for i
    using that IH(3) first(4) by simp
  ultimately show ?case using IH(1,4) rs by simp
qed simp

section \<open>Lemmas: rewriting\<close>

text \<open>What a series resolves to, and the handle it names that the table does not know.\<close>

definition series_handle :: "json \<Rightarrow> (string \<times> u64) option" where
  "series_handle s = Option.bind (series_vm_id s) (\<lambda>raw. map_option (Pair raw) (parse_u64 raw))"

definition resolve :: "handle_table \<Rightarrow> json \<Rightarrow> json" where
  "resolve t s = (case Option.bind (series_handle s) (\<lambda>(raw, h). table_get t h) of
     Some p \<Rightarrow> set_vm_id (vp_vm_id p) s | None \<Rightarrow> s)"

definition stale :: "handle_table \<Rightarrow> json \<Rightarrow> string option" where
  "stale t s = (case series_handle s of
     Some (raw, h) \<Rightarrow> if table_get t h = None then Some raw else None | None \<Rightarrow> None)"

lemma rewrite_series_eq: "rewrite_series t unknown s =
    (case stale t s of Some raw \<Rightarrow> push_new raw unknown | None \<Rightarrow> unknown, resolve t s)"
  by (auto simp: rewrite_series_def stale_def resolve_def series_handle_def split: option.splits)

lemma rewrite_all_eq: "rewrite_all t unknown ss =
    (foldl (\<lambda>acc x. push_new x acc) unknown (List.map_filter (stale t) ss), map (resolve t) ss)"
  by (induction ss arbitrary: unknown)
    (auto simp: rewrite_series_eq List.map_filter_def Let_def split: option.split)

abbreviation resolve_fragment :: "handle_table \<Rightarrow> fragment \<Rightarrow> fragment" where
  "resolve_fragment t fr \<equiv> fr\<lparr>g_series := map (resolve t) (g_series fr)\<rparr>"

lemma rewrite_fragments_eq: "rewrite_fragments t unknown frs =
    (foldl (\<lambda>acc x. push_new x acc) unknown (List.map_filter (stale t) (concat (map g_series frs))),
     map (resolve_fragment t) frs)"
  by (induction frs arbitrary: unknown) (auto simp: rewrite_all_eq Let_def List.map_filter_def)

lemma rewrite_eq: "rewrite_vm_id_labels frs t =
    (first_seen (List.map_filter (stale t) (concat (map g_series frs))), map (resolve_fragment t) frs)"
  by (simp add: rewrite_vm_id_labels_def rewrite_fragments_eq first_seen_def)

lemma set_vm_id_get:
  assumes "series_vm_id s = Some raw"
  shows "series_vm_id (set_vm_id vm s) = Some vm"
  using assms
  by (cases s; cases "jget s ''labels''"; cases "the (jget s ''labels'')")
    (auto simp: series_vm_id_def set_vm_id_def)

lemma resolve_again:
  assumes "\<And>h p. table_get t h = Some p \<Longrightarrow> parse_u64 (vp_vm_id p) = None"
  shows "resolve t (resolve t s) = resolve t s" and "stale t (resolve t s) = stale t s"
proof -
  consider (hit) raw h p where "series_vm_id s = Some raw" "parse_u64 raw = Some h" "table_get t h = Some p"
    | (miss) "Option.bind (series_handle s) (\<lambda>(raw, h). table_get t h) = None"
    by (cases "series_vm_id s"; cases "parse_u64 (the (series_vm_id s))") (auto simp: series_handle_def)
  then have "resolve t (resolve t s) = resolve t s \<and> stale t (resolve t s) = stale t s"
  proof cases
    case hit
    then have r: "resolve t s = set_vm_id (vp_vm_id p) s" by (simp add: resolve_def series_handle_def)
    have "series_handle (resolve t s) = None"
      using set_vm_id_get [OF hit(1)] assms [OF hit(3)] by (simp add: r series_handle_def)
    then show ?thesis using hit by (simp add: resolve_def [of t "resolve t s"] stale_def series_handle_def)
  next
    case miss
    then show ?thesis by (simp add: resolve_def)
  qed
  then show "resolve t (resolve t s) = resolve t s" and "stale t (resolve t s) = stale t s" by auto
qed

section \<open>Lemmas: the client\<close>

fun commands :: "'c channel \<Rightarrow> string list \<Rightarrow> 'c client \<Rightarrow> (string + unit) list \<times> 'c client" where
  "commands ch [] c = ([], c)"
| "commands ch (l # ls) c = (let (r, c') = command ch l c; (rs, c'') = commands ch ls c' in (r # rs, c''))"

lemma commands_poisoned:
  "cl_poisoned c \<Longrightarrow> snd (commands ch ls c) = c \<and> length (fst (commands ch ls c)) = length ls
     \<and> list_all (\<lambda>r. \<not> is_ok r) (fst (commands ch ls c))"
  by (induction ls) (auto simp: command_def Let_def split: prod.splits)

section \<open>Properties\<close>

text \<open>C37: Handles are dense and never reused: over a series of registrations on a fresh table,
  the i-th one (from 0) either succeeds with the handle i and leaves exactly its own
  provenance under i, or fails and leaves nothing under i; a failed registration burns
  its number, no other entry exists.\<close>

theorem register_dense:
  assumes "register_all ch qs \<lparr>se_client = c, se_table = table_new\<rparr> = (rs, se')"
    and "length qs \<le> 2 ^ 64"
  shows "length rs = length qs
    \<and> (\<forall>i < length qs.
        (\<exists>e. rs ! i = Inl e \<and> table_get (se_table se') (of_nat i) = None)
        \<or> rs ! i = Inr (of_nat i)
          \<and> table_get (se_table se') (of_nat i) = Some (provenance_of (of_nat i) (qs ! i)))
    \<and> (\<forall>h p. table_get (se_table se') h = Some p \<longrightarrow> (\<exists>i < length qs. h = of_nat i))"
proof -
  let ?se = "\<lparr>se_client = c, se_table = table_new\<rparr>"
  have nx: "ht_next (se_table ?se) = of_nat 0" by (simp add: table_new_def)
  have dom: "names_below 0 (se_table ?se)" by (simp add: names_below_def table_new_def table_get_def)
  have len: "0 + length qs \<le> 2 ^ 64" using assms(2) by simp
  show ?thesis using register_all_from [OF assms(1) nx dom len] by (auto simp: answered_def names_below_def)
qed

text \<open>A channel that writes and flushes and answers from a list of replies.\<close>

definition scripted :: "string list channel" where
  "scripted = \<lparr>ch_write = (\<lambda>s c. (Inr (), c)), ch_flush = (\<lambda>c. (Inr (), c)),
     ch_read = (\<lambda>c. case c of [] \<Rightarrow> (Inl ''closed'', []) | r # rs \<Rightarrow> (Inr r, rs))\<rparr>"

theorem register_dense_witness:
  "let (rs, se') = register_all scripted
       [(''01A'', ''tap0'', ''02:00:00:00:00:00'', 7, 1), (''01B'', ''tap1'', ''02:00:00:00:00:01'', 8, 1)]
       \<lparr>se_client = \<lparr>cl_stream = [''err full'', ''ok''], cl_poisoned = False\<rparr>, se_table = table_new\<rparr>
   in rs ! 1 = Inr 1 \<and> table_get (se_table se') 0 = None"
proof -
  let ?qs = "[(''01A'', ''tap0'', ''02:00:00:00:00:00'', 7, 1), (''01B'', ''tap1'', ''02:00:00:00:00:01'', 8, 1)]"
  let ?c = "\<lparr>cl_stream = [''err full'', ''ok''], cl_poisoned = False\<rparr>"
  obtain rs se' where r: "register_all scripted ?qs \<lparr>se_client = ?c, se_table = table_new\<rparr> = (rs, se')"
    by (cases "register_all scripted ?qs \<lparr>se_client = ?c, se_table = table_new\<rparr>")
  have ok: "map is_ok (fst (register_all scripted ?qs \<lparr>se_client = ?c, se_table = table_new\<rparr>)) = [False, True]"
    by code_simp
  have len: "length ?qs \<le> 2 ^ 64" by simp
  have D: "length rs = 2" "(\<exists>e. rs ! 0 = Inl e \<and> table_get (se_table se') 0 = None) \<or> rs ! 0 = Inr 0"
    "(\<exists>e. rs ! 1 = Inl e) \<or> rs ! 1 = Inr 1"
    using register_dense [OF r len] by (auto simp: less_Suc_eq numeral_2_eq_2)
  have ok': "is_ok (rs ! 0) = False" "is_ok (rs ! 1) = True"
    using ok D(1) r nth_map [of 0 rs is_ok] nth_map [of 1 rs is_ok] by auto
  show ?thesis using D ok' unfolding r by auto
qed

text \<open>Rewriting replaces \<open>labels.vm_id\<close> by the VM's id in exactly the series whose label is a
  handle of the table, in every fragment, and changes nothing else; the handles it does
  not know are returned once each, in the order first seen; text that is not a number is
  neither changed nor reported.\<close>

theorem rewrite_resolves:
  "rewrite_vm_id_labels frs t =
     (first_seen (List.map_filter (\<lambda>s. case series_vm_id s of None \<Rightarrow> None
          | Some raw \<Rightarrow> (case parse_u64 raw of None \<Rightarrow> None
              | Some h \<Rightarrow> if table_get t h = None then Some raw else None))
        (concat (map g_series frs))),
      map (\<lambda>fr. fr\<lparr>g_series := map (\<lambda>s. case series_vm_id s of None \<Rightarrow> s
          | Some raw \<Rightarrow> (case parse_u64 raw of None \<Rightarrow> s
              | Some h \<Rightarrow> (case table_get t h of None \<Rightarrow> s
                  | Some p \<Rightarrow> set_vm_id (vp_vm_id p) s))) (g_series fr)\<rparr>) frs)"
proof -
  have "stale t = (\<lambda>s. case series_vm_id s of None \<Rightarrow> None
          | Some raw \<Rightarrow> (case parse_u64 raw of None \<Rightarrow> None
              | Some h \<Rightarrow> if table_get t h = None then Some raw else None))"
    by (rule ext) (auto simp: stale_def series_handle_def split: option.split)
  moreover have "resolve t = (\<lambda>s. case series_vm_id s of None \<Rightarrow> s
          | Some raw \<Rightarrow> (case parse_u64 raw of None \<Rightarrow> s
              | Some h \<Rightarrow> (case table_get t h of None \<Rightarrow> s
                  | Some p \<Rightarrow> set_vm_id (vp_vm_id p) s)))"
    by (rule ext) (auto simp: resolve_def series_handle_def split: option.split)
  ultimately show ?thesis by (simp add: rewrite_eq)
qed

text \<open>A second rewriting pass changes nothing and reports the same unknown handles, as long
  as no VM id of the table reads as a number (a run id never does).\<close>

theorem rewrite_idempotent:
  assumes "\<And>h p. table_get t h = Some p \<Longrightarrow> parse_u64 (vp_vm_id p) = None"
    and "rewrite_vm_id_labels frs t = (unknown, frs')"
  shows "rewrite_vm_id_labels frs' t = (unknown, frs')"
proof -
  have f: "frs' = map (resolve_fragment t) frs" and u: "unknown = first_seen (List.map_filter (stale t) (concat (map g_series frs)))"
    using assms(2) by (auto simp: rewrite_eq)
  have 1: "map (resolve_fragment t) frs' = frs'"
    using resolve_again(1) [OF assms(1)] by (simp add: f)
  have "List.map_filter (stale t) (map (resolve t) ss) = List.map_filter (stale t) ss" for ss
    using resolve_again(2) [OF assms(1)] by (induction ss) (auto simp: List.map_filter_def)
  moreover have "concat (map g_series frs') = map (resolve t) (concat (map g_series frs))"
    by (simp add: f map_concat comp_def)
  ultimately show ?thesis using 1 by (simp add: rewrite_eq u)
qed

definition sample_table :: handle_table where
  "sample_table = snd (assign ''01HXYZ'' ''tap0'' ''02:00:00:00:00:00'' 7 1 table_new)"

definition labelled :: "string \<Rightarrow> fragment" where
  "labelled vm = \<lparr>g_series = [jobj [(''labels'', jobj [(''vm_id'', JString vm)])]],
     g_self_metrics = [], g_capture_meta = None\<rparr>"

theorem rewrite_idempotent_witness:
  "rewrite_vm_id_labels [labelled ''01HXYZ'', labelled ''9''] sample_table = ([''9''], [labelled ''01HXYZ'', labelled ''9''])"
proof -
  have "parse_u64 (vp_vm_id p) = None" if "table_get sample_table h = Some p" for h p
  proof -
    have "vp_vm_id p = ''01HXYZ''"
      using that by (auto simp: sample_table_def assign_def reserve_def table_insert_def table_get_def
          table_new_def bm_empty_def split: if_splits)
    moreover have "parse_u64 ''01HXYZ'' = None" by code_simp
    ultimately show ?thesis by simp
  qed
  moreover have "rewrite_vm_id_labels [labelled ''0'', labelled ''9''] sample_table
      = ([''9''], [labelled ''01HXYZ'', labelled ''9''])"
    by code_simp
  ultimately show ?thesis by (rule rewrite_idempotent)
qed

text \<open>After an I/O error the control channel is never used again: from the first command
  that fails to write, flush or read on, every command is refused without touching the
  stream, so no later command can take an earlier one's reply for its own.\<close>

theorem client_fails_closed:
  assumes "command ch l c = (r, c')" and "cl_poisoned c'"
  shows "\<not> is_ok r \<and> snd (commands ch ls c') = c'
    \<and> length (fst (commands ch ls c')) = length ls \<and> list_all (\<lambda>r. \<not> is_ok r) (fst (commands ch ls c'))"
proof -
  have "\<not> is_ok r"
    using assms by (auto simp: command_def Let_def split: if_splits prod.splits sum.splits)
  then show ?thesis using commands_poisoned [OF assms(2)] by blast
qed

theorem client_fails_closed_witness:
  "commands scripted [''remove 1''] (snd (command scripted ''remove 0'' \<lparr>cl_stream = [], cl_poisoned = False\<rparr>))
     \<noteq> ([Inr ()], \<lparr>cl_stream = [], cl_poisoned = True\<rparr>)"
proof -
  let ?c = "\<lparr>cl_stream = [], cl_poisoned = False\<rparr>"
  obtain r c' where c: "command scripted ''remove 0'' ?c = (r, c')" by (cases "command scripted ''remove 0'' ?c")
  moreover have "cl_poisoned (snd (command scripted ''remove 0'' ?c))" by code_simp
  ultimately show ?thesis using client_fails_closed [OF c, of "[''remove 1'']"] by auto
qed

section \<open>Connecting ends\<close>

text \<open>What the monotonic clock promises: a call never turns it back, a pause lets it pass.\<close>

definition clock_moves :: "('w, 's) socket_ops \<Rightarrow> ('w \<Rightarrow> int) \<Rightarrow> bool" where
  "clock_moves so clock \<longleftrightarrow> (\<forall>w. fst (so_now so w) = clock w \<and> clock w \<le> clock (snd (so_now so w)))
     \<and> (\<forall>path w. clock w \<le> clock (snd (so_connect so path w)))
     \<and> (\<forall>d w. clock w + d \<le> clock (so_sleep so d w))"

lemma connect_loop_ends:
  assumes "clock_moves so clock"
  shows "\<exists>r w'. connect_loop so path deadline w = Some (r, w')
    \<and> (case r of Inr c \<Rightarrow> \<not> cl_poisoned c | Inl _ \<Rightarrow> deadline \<le> clock w')"
proof (induction "nat (deadline - clock w)" arbitrary: w rule: less_induct)
  case less
  obtain q w1 where q: "so_connect so path w = (q, w1)" by (cases "so_connect so path w")
  have c1: "clock w \<le> clock w1" using assms q unfolding clock_moves_def by (metis snd_conv)
  show ?case
  proof (cases q)
    case (Inr s)
    then show ?thesis using q by (subst connect_loop.simps) simp
  next
    case (Inl e)
    obtain now w2 where now: "so_now so w1 = (now, w2)" by (cases "so_now so w1")
    have c2: "now = clock w1" "clock w1 \<le> clock w2"
      using assms now unfolding clock_moves_def by (metis fst_conv, metis snd_conv)
    show ?thesis
    proof (cases "deadline \<le> now")
      case True
      then show ?thesis using q Inl now c2 by (subst connect_loop.simps) simp
    next
      case False
      have "clock w2 + 20000000 \<le> clock (so_sleep so 20000000 w2)"
        using assms unfolding clock_moves_def by blast
      then have "nat (deadline - clock (so_sleep so 20000000 w2)) < nat (deadline - clock w)"
        using False c1 c2 by linarith
      from less [OF this] show ?thesis using q Inl now False by (subst connect_loop.simps) simp
    qed
  qed
qed

text \<open>C33: Connecting always returns: on a clock that moves, whatever the socket does, the retry loop
  ends with a client that is not poisoned or, once the timeout has passed, with an error.\<close>

theorem connect_returns:
  assumes "clock_moves so clock"
  shows "\<exists>r w'. connect so path timeout w = Some (r, w')
    \<and> (case r of Inr c \<Rightarrow> \<not> cl_poisoned c | Inl _ \<Rightarrow> clock w + timeout \<le> clock w')"
proof -
  obtain now w1 where now: "so_now so w = (now, w1)" by (cases "so_now so w")
  have "now = clock w" using assms now unfolding clock_moves_def by (metis fst_conv)
  then show ?thesis using connect_loop_ends [OF assms, of path "clock w + timeout" w1] now by (simp add: connect_def)
qed

text \<open>A world that is its clock, and a socket that opens at a given time.\<close>

definition opens_at :: "int \<Rightarrow> (int, unit) socket_ops" where
  "opens_at t0 = \<lparr>so_connect = (\<lambda>path t. (if t0 \<le> t then Inr () else Inl ''refused'', t)),
     so_now = (\<lambda>t. (t, t)), so_sleep = (\<lambda>d t. t + d)\<rparr>"

theorem connect_returns_witness:
  "\<exists>r w'. connect (opens_at 9000000000) ''/run/s'' 5000000000 0 = Some (r, w')"
proof -
  have "clock_moves (opens_at 9000000000) (\<lambda>t. t)" by (simp add: clock_moves_def opens_at_def)
  from connect_returns [OF this, of "''/run/s''" 5000000000 0] show ?thesis by blast
qed

end
