(* ===== verification/ExecuteRun.thy ===== *)
theory ExecuteRun
  imports Adapter Netattrib
begin

text \<open>
  \<open>execute_run\<close> of \<open>crates/orchestrate/src/adapter.rs\<close>: one run from provisioning to
  teardown, with attribution when a session is given. The control socket is part of the
  world: the session's stream is the world as each call on it finds it. What the run calls
  of its surroundings is the record \<open>run_env\<close>. The lemmas speak of a watched run, whose
  target, workload and runner log their calls.
\<close>

section \<open>The environment of a run\<close>

record 'w run_env =
  re_shell :: "'w shell"
  re_channel :: "'w channel"
  re_new_id :: "'w \<Rightarrow> string \<times> 'w"
  re_residency :: "'w residency_ops"

record run_artifacts =
  ra_fragments :: "fragment list"
  ra_spans :: "json list"
  ra_workload_report :: json
  ra_vm_attribution :: "json option"

definition with_session :: "('w session \<Rightarrow> 'r \<times> 'w session) \<Rightarrow> 'w session \<Rightarrow> 'w \<Rightarrow> 'r \<times> 'w session \<times> 'w" where
  "with_session f se w = (let (r, se') = f (se\<lparr>se_client := (se_client se)\<lparr>cl_stream := w\<rparr>\<rparr>)
     in (r, se', cl_stream (se_client se')))"

section \<open>Attribution\<close>

fun deregister_each :: "'w channel \<Rightarrow> u64 list \<Rightarrow> 'w session \<Rightarrow> 'w \<Rightarrow> 'w session \<times> 'w" where
  "deregister_each ch [] se w = (se, w)"
| "deregister_each ch (h # hs) se w = (let (_, se', w') = with_session (deregister ch h) se w in
     deregister_each ch hs se' w')"

definition deregister_all ::
  "'w channel \<Rightarrow> u64 list \<Rightarrow> 'w session option \<times> 'w \<Rightarrow> 'w session option \<times> 'w" where
  "deregister_all ch hs = (\<lambda>(attrib, w). case attrib of None \<Rightarrow> (None, w)
     | Some se \<Rightarrow> let (se', w') = deregister_each ch hs se w in (Some se', w'))"

text \<open>Registering each VM: the handles registered so far, with the error that ended the loop.\<close>

fun attribute_vms ::
  "'w channel \<Rightarrow> ('w \<Rightarrow> string \<times> 'w) \<Rightarrow> net_attribution list \<Rightarrow> u64 list \<Rightarrow> 'w session \<Rightarrow> 'w \<Rightarrow>
   (string + unit) \<times> u64 list \<times> 'w session \<times> 'w" where
  "attribute_vms ch new_id [] attributed se w = (Inr (), attributed, se, w)"
| "attribute_vms ch new_id (na # nas) attributed se w = (let
     (vm_id, w1) = new_id w;
     (r, se1, w2) = with_session
       (register ch vm_id (na_tap na) (na_guest_mac na) (na_ifindex na) (na_netns_inum na)) se w1
     in case r of Inl e \<Rightarrow> (Inl e, attributed, se1, w2)
     | Inr handle \<Rightarrow> (let (r2, se2, w3) = with_session (set_state ch handle LIFECYCLE_RUNNING) se1 w2
         in case r2 of Inl e \<Rightarrow> (Inl e, attributed @ [handle], se2, w3)
         | Inr _ \<Rightarrow> attribute_vms ch new_id nas (attributed @ [handle]) se2 w3))"

definition no_tap_error :: string where
  "no_tap_error = ''attribution enabled but the target set up no tap (note: tap networking is cold boot only, so a snapshot-restore def will not have one even with the key set); set `network: tap` on a cold-boot target''"

text \<open>The abort path: deregister what was registered, tear down, return the error.\<close>

definition abort_run ::
  "'w run_env \<Rightarrow> 'w target \<Rightarrow> u64 list \<Rightarrow> string \<Rightarrow> 'w session option \<times> 'w \<Rightarrow>
   (string + 'a) \<times> 'w session option \<times> 'w" where
  "abort_run env tgt attributed e st = (let (attrib, w) = deregister_all (re_channel env) attributed st
     in (Inl e, attrib, io_ignore (tg_teardown tgt) w))"

definition attribute_run ::
  "'w run_env \<Rightarrow> 'w target \<Rightarrow> 'w session option \<times> 'w \<Rightarrow> (string + u64 list) \<times> 'w session option \<times> 'w" where
  "attribute_run env tgt = (\<lambda>(attrib, w). case attrib of None \<Rightarrow> (Inr [], None, w)
     | Some se \<Rightarrow> (let (vms, w1) = tg_net_attribution tgt w in
         if vms = [] then (Inl no_tap_error, Some se, io_ignore (tg_teardown tgt) w1)
         else (let (r, attributed, se', w2) = attribute_vms (re_channel env) (re_new_id env) vms [] se w1
           in case r of Inl e \<Rightarrow> abort_run env tgt attributed e (Some se', w2)
           | Inr _ \<Rightarrow> (Inr attributed, Some se', w2))))"

section \<open>The phases of a run\<close>

definition bring_up :: "'w run_env \<Rightarrow> 'w target \<Rightarrow> ('w, (i64 \<times> i64) \<times> (i64 \<times> i64)) io" where
  "bring_up env tgt w = (let (before, w0) = sample_meminfo (re_shell env) w in
     io_then (tg_provision tgt) (\<lambda>_. io_then (tg_start tgt) (\<lambda>_. io_then (tg_reach_steady tgt) (\<lambda>_ w1.
       let (after, w2) = sample_meminfo (re_shell env) w1 in (Inr (before, after), w2)))) w0)"

text \<open>The capture window: gadgets spawned, workload started, gadgets collected.\<close>

definition capture_window ::
  "'w run_env \<Rightarrow> ('w, 'h) runner \<Rightarrow> 'w target \<Rightarrow> 'w workload \<Rightarrow> gadget_invocation list \<Rightarrow> u64 list \<Rightarrow>
   'w session option \<times> 'w \<Rightarrow> (string + fragment list) \<times> 'w session option \<times> 'w" where
  "capture_window env rn tgt wl gadgets attributed = (\<lambda>(attrib, w).
     case spawn_all rn gadgets [] w of
       (Inl (e, _), w1) \<Rightarrow> abort_run env tgt attributed e (attrib, w1)
     | (Inr hs, w1) \<Rightarrow> (case wl_start wl w1 of
         (Inl e, w2) \<Rightarrow> abort_run env tgt attributed e (attrib, w2)
       | (Inr _, w2) \<Rightarrow> (case wait_all rn (zip gadgets hs) w2 of
           (Inl e, w3) \<Rightarrow> abort_run env tgt attributed e (attrib, io_ignore (wl_stop wl) w3)
         | (Inr frs, w3) \<Rightarrow> (Inr frs, attrib, w3))))"

definition measure_residency :: "'w run_env \<Rightarrow> 'w target \<Rightarrow> 'w \<Rightarrow> (string \<times> u64 \<times> u64) list" where
  "measure_residency env tgt w = List.map_filter (\<lambda>(label, path).
     map_option (\<lambda>(r, t). (label, r, t)) (sample_residency (re_residency env) w path)) (tg_resident_files tgt w)"

definition vm_attribution_json :: "handle_table \<Rightarrow> string list \<Rightarrow> json" where
  "vm_attribution_json t unknown = (let prov = jobj [(''vms'', provenance_json t)] in
     if unknown = [] then prov else jset ''unresolved_handles'' (JArray (map JString unknown)) prov)"

definition attach_provenance ::
  "'w session option \<Rightarrow> u64 list \<Rightarrow> fragment list \<Rightarrow> json option \<times> fragment list" where
  "attach_provenance attrib attributed frs = (case attrib of None \<Rightarrow> (None, frs)
     | Some se \<Rightarrow> if attributed = [] then (None, frs)
         else (let (unknown, frs') = rewrite_vm_id_labels frs (se_table se)
           in (Some (vm_attribution_json (se_table se) unknown), frs')))"

definition wind_down ::
  "'w run_env \<Rightarrow> 'w target \<Rightarrow> 'w workload \<Rightarrow> (i64 \<times> i64) \<times> (i64 \<times> i64) \<Rightarrow> u64 list \<Rightarrow> fragment list \<Rightarrow>
   'w session option \<times> 'w \<Rightarrow> (string + run_artifacts) \<times> 'w session option \<times> 'w" where
  "wind_down env tgt wl mem attributed frs = (\<lambda>(attrib, w). let
     w1 = io_ignore (wl_stop wl) w;
     (report, w2) = io_option (wl_report wl) w1
     in case tg_spans tgt w2 of (Inl e, w3) \<Rightarrow> (Inl e, attrib, w3)
     | (Inr spans, w3) \<Rightarrow> (let
         resident = measure_residency env tgt w3;
         (attrib', w4) = deregister_all (re_channel env) attributed (attrib, w3);
         (teardown, w5) = tg_teardown tgt w4;
         frs1 = frs @ [hostmem_fragment (fst mem) (snd mem)]
           @ (case resident_fragment resident of Some f \<Rightarrow> [f] | None \<Rightarrow> []);
         (prov, frs2) = attach_provenance attrib' attributed frs1
         in (map_ok (\<lambda>_. \<lparr>ra_fragments = frs2, ra_spans = spans,
               ra_workload_report = or_else report JNull, ra_vm_attribution = prov\<rparr>) teardown, attrib', w5)))"

definition execute_run ::
  "'w run_env \<Rightarrow> ('w, 'h) runner \<Rightarrow> 'w target \<Rightarrow> 'w workload \<Rightarrow> gadget_invocation list \<Rightarrow>
   'w session option \<Rightarrow> 'w \<Rightarrow> (string + run_artifacts) \<times> 'w session option \<times> 'w" where
  "execute_run env rn tgt wl gadgets attrib w = (case bring_up env tgt w of
     (Inl e, w1) \<Rightarrow> (Inl e, attrib, w1)
   | (Inr mem, w1) \<Rightarrow> (case attribute_run env tgt (attrib, w1) of
       (Inl e, st) \<Rightarrow> (Inl e, st)
     | (Inr attributed, st) \<Rightarrow> (case capture_window env rn tgt wl gadgets attributed st of
         (Inl e, st') \<Rightarrow> (Inl e, st')
       | (Inr frs, st') \<Rightarrow> wind_down env tgt wl mem attributed frs st')))"

section \<open>The watched run\<close>

datatype run_event = Provision bool | Start bool | Steady bool | Spans bool | Teardown bool
  | Spawn gadget_invocation bool | Wait gadget_invocation bool
  | WorkStart bool | WorkStop bool | WorkReport bool

type_synonym 'w watched = "'w \<times> run_event list"

definition watch :: "(bool \<Rightarrow> run_event) \<Rightarrow> ('w, 'a) io \<Rightarrow> ('w watched, 'a) io" where
  "watch ev m = (\<lambda>(w, t). case m w of (r, w') \<Rightarrow> (r, w', t @ [ev (is_ok r)]))"

definition unwatched :: "('w \<Rightarrow> 'r \<times> 'w) \<Rightarrow> 'w watched \<Rightarrow> 'r \<times> 'w watched" where
  "unwatched m = (\<lambda>(w, t). case m w of (r, w') \<Rightarrow> (r, w', t))"

definition watched_target :: "'w target \<Rightarrow> 'w watched target" where
  "watched_target tgt = \<lparr>tg_version = unwatched (tg_version tgt),
     tg_provision = watch Provision (tg_provision tgt), tg_start = watch Start (tg_start tgt),
     tg_reach_steady = watch Steady (tg_reach_steady tgt), tg_spans = watch Spans (tg_spans tgt),
     tg_teardown = watch Teardown (tg_teardown tgt),
     tg_pinning_layout = (\<lambda>(w, t). tg_pinning_layout tgt w),
     tg_resident_files = (\<lambda>(w, t). tg_resident_files tgt w),
     tg_net_attribution = unwatched (tg_net_attribution tgt)\<rparr>"

definition watched_workload :: "'w workload \<Rightarrow> 'w watched workload" where
  "watched_workload wl = \<lparr>wl_version = unwatched (wl_version wl), wl_start = watch WorkStart (wl_start wl),
     wl_stop = watch WorkStop (wl_stop wl), wl_report = watch WorkReport (wl_report wl)\<rparr>"

definition watched_runner :: "('w, 'h) runner \<Rightarrow> ('w watched, 'h) runner" where
  "watched_runner rn = \<lparr>rn_spawn = (\<lambda>g. watch (Spawn g) (rn_spawn rn g)),
     rn_wait = (\<lambda>g h. watch (Wait g) (rn_wait rn g h)),
     rn_kill = (\<lambda>h (w, t). (rn_kill rn h w, t))\<rparr>"

definition watched_env :: "'w run_env \<Rightarrow> 'w watched run_env" where
  "watched_env env = \<lparr>re_shell = (\<lambda>cmd. unwatched (re_shell env cmd)),
     re_channel = \<lparr>ch_write = (\<lambda>line. unwatched (ch_write (re_channel env) line)),
       ch_flush = unwatched (ch_flush (re_channel env)), ch_read = unwatched (ch_read (re_channel env))\<rparr>,
     re_new_id = unwatched (re_new_id env),
     re_residency = \<lparr>rs_len = (\<lambda>p (w, t). rs_len (re_residency env) p w), rs_page = rs_page (re_residency env),
       rs_maps = (\<lambda>p (w, t). rs_maps (re_residency env) p w),
       rs_mincore = (\<lambda>p n (w, t). rs_mincore (re_residency env) p n w)\<rparr>\<rparr>"

section \<open>The protocol of a run\<close>

text \<open>
  What a run promises its target, workload and gadgets, as a state machine over their
  calls. \<open>Abandoned\<close> is a run that ends without teardown; \<open>Aborted\<close> and \<open>Ended\<close> end with it.
\<close>

datatype phase = Fresh | Provisioned | Started | Up nat | Window nat | Failing | Aborting
  | Stopped | Reported | Traced | Abandoned | Aborted | Ended bool

inductive lifecycle :: "gadget_invocation list \<Rightarrow> phase \<Rightarrow> run_event \<Rightarrow> phase \<Rightarrow> bool"
  for gs where
  provision: "lifecycle gs Fresh (Provision b) (if b then Provisioned else Abandoned)"
| start: "lifecycle gs Provisioned (Start b) (if b then Started else Abandoned)"
| steady: "lifecycle gs Started (Steady b) (if b then Up 0 else Abandoned)"
| attribution_failed: "lifecycle gs (Up 0) (Teardown b) Aborted"
| spawn: "k < length gs \<Longrightarrow> lifecycle gs (Up k) (Spawn (gs ! k) b) (if b then Up (Suc k) else Aborting)"
| work_start: "lifecycle gs (Up (length gs)) (WorkStart b) (if b then Window 0 else Aborting)"
| wait: "k < length gs \<Longrightarrow> lifecycle gs (Window k) (Wait (gs ! k) b) (if b then Window (Suc k) else Failing)"
| work_stop_failing: "lifecycle gs Failing (WorkStop b) Aborting"
| work_stop: "lifecycle gs (Window (length gs)) (WorkStop b) Stopped"
| report: "lifecycle gs Stopped (WorkReport b) Reported"
| spans: "lifecycle gs Reported (Spans b) (if b then Traced else Abandoned)"
| abort: "lifecycle gs Aborting (Teardown b) Aborted"
| teardown: "lifecycle gs Traced (Teardown b) (Ended b)"

declare lifecycle.intros [intro]

inductive_cases FreshE: "lifecycle gs Fresh e q"
inductive_cases UpE: "lifecycle gs (Up k) e q"
inductive_cases WindowE: "lifecycle gs (Window k) e q"
inductive_simps lifecycle_final [simp]: "lifecycle gs Abandoned e q" "lifecycle gs Aborted e q"
  "lifecycle gs (Ended b) e q"

inductive lifecycle_run :: "gadget_invocation list \<Rightarrow> phase \<Rightarrow> run_event list \<Rightarrow> phase \<Rightarrow> bool"
  for gs where
  done_: "lifecycle_run gs p [] p"
| step: "lifecycle gs p e q \<Longrightarrow> lifecycle_run gs q es r \<Longrightarrow> lifecycle_run gs p (e # es) r"

lemma lifecycle_run_append:
  "lifecycle_run gs p es q \<Longrightarrow> lifecycle_run gs q fs r \<Longrightarrow> lifecycle_run gs p (es @ fs) r"
  by (induction rule: lifecycle_run.induct) (auto intro: lifecycle_run.step)

lemma lifecycle_run_one: "lifecycle gs p e q \<Longrightarrow> lifecycle_run gs p [e] q"
  by (blast intro: lifecycle_run.intros)

lemma lifecycle_run_snoc:
  "lifecycle_run gs p es q \<Longrightarrow> lifecycle gs q e r \<Longrightarrow> lifecycle_run gs p (es @ [e]) r"
  using lifecycle_run_append lifecycle_run_one by blast

section \<open>Lemmas: each phase keeps to the protocol\<close>

lemma watch_run: "watch ev m (w, t) = (r, w', t') \<longleftrightarrow> m w = (r, w') \<and> t' = t @ [ev (is_ok r)]"
  by (auto simp: watch_def split: prod.splits)

lemma unwatched_run: "unwatched m (w, t) = (r, w', t') \<longleftrightarrow> m w = (r, w') \<and> t' = t"
  by (auto simp: unwatched_def split: prod.splits)

lemma unwatched_log: "snd (snd (unwatched m wt)) = snd wt"
  by (cases wt) (auto simp: unwatched_def split: prod.splits)

lemma ignore_watched: "io_ignore (watch ev m) (w, t) = (w', t') \<Longrightarrow> \<exists>b. t' = t @ [ev b]"
  by (auto simp: io_ignore_def watch_def split: prod.splits)

text \<open>The calls on the session are not watched, and change nothing of the log.\<close>

lemma command_log: "snd (cl_stream (snd (command (re_channel (watched_env env)) line c))) = snd (cl_stream c)"
  by (auto simp: command_def watched_env_def Let_def unwatched_def split: prod.splits sum.splits)

lemma with_session_log:
  assumes "\<And>se. snd (cl_stream (se_client (snd (f se)))) = snd (cl_stream (se_client se))"
    and "with_session f se wt = (r, se', wt')"
  shows "snd wt' = snd wt"
  using assms(2) assms(1) [of "se\<lparr>se_client := (se_client se)\<lparr>cl_stream := wt\<rparr>\<rparr>"]
  by (auto simp: with_session_def split: prod.splits)

lemma session_ops_log:
  shows "snd (cl_stream (se_client (snd (register (re_channel (watched_env env)) v tp mac i ns se)))) = snd (cl_stream (se_client se))"
    and "snd (cl_stream (se_client (snd (set_state (re_channel (watched_env env)) h s se)))) = snd (cl_stream (se_client se))"
    and "snd (cl_stream (se_client (snd (deregister (re_channel (watched_env env)) h se)))) = snd (cl_stream (se_client se))"
proof -
  let ?ch = "re_channel (watched_env env)"
  have cl: "snd (cl_stream c) = snd (cl_stream (se_client se))"
    if "command ?ch line (se_client se) = (q, c)" for line q c
    using command_log [of env line "se_client se"] that by simp
  obtain q c where add: "command ?ch (add_line i (ht_next (se_table se)) ns) (se_client se) = (q, c)"
    by (meson surj_pair)
  show "snd (cl_stream (se_client (snd (register ?ch v tp mac i ns se)))) = snd (cl_stream (se_client se))"
    using cl [OF add] by (simp add: register_def client_add_def reserve_def add split: sum.split)
  obtain q2 c2 where st: "command ?ch (state_line h s) (se_client se) = (q2, c2)"
    by (meson surj_pair)
  show "snd (cl_stream (se_client (snd (set_state ?ch h s se)))) = snd (cl_stream (se_client se))"
    using cl [OF st] by (simp add: set_state_def client_state_def st)
  obtain q3 c3 where rm: "command ?ch (remove_line h) (se_client se) = (q3, c3)"
    by (meson surj_pair)
  show "snd (cl_stream (se_client (snd (deregister ?ch h se)))) = snd (cl_stream (se_client se))"
    using cl [OF rm] by (simp add: deregister_def client_remove_def rm)
qed

lemma deregister_each_log:
  "deregister_each (re_channel (watched_env env)) hs se wt = (se', wt') \<Longrightarrow> snd wt' = snd wt"
proof (induction hs arbitrary: se wt)
  case (Cons h hs)
  obtain r se1 wt1 where d: "with_session (deregister (re_channel (watched_env env)) h) se wt = (r, se1, wt1)"
    by (cases "with_session (deregister (re_channel (watched_env env)) h) se wt")
  have "snd wt1 = snd wt" by (rule with_session_log [OF session_ops_log(3) d])
  then show ?case using Cons d by simp
qed simp

lemma deregister_all_log:
  "deregister_all (re_channel (watched_env env)) hs (attrib, w, t) = (attrib', w', t') \<Longrightarrow> t' = t"
  using deregister_each_log [of env hs _ "(w, t)"]
  by (fastforce simp: deregister_all_def split: option.splits prod.splits)

lemma attribute_vms_log:
  "attribute_vms (re_channel (watched_env env)) (re_new_id (watched_env env)) nas hs se wt = (r, hs', se', wt')
     \<Longrightarrow> snd wt' = snd wt"
proof (induction nas arbitrary: hs se wt)
  case (Cons na nas)
  let ?ch = "re_channel (watched_env env)"
  obtain v wt1 where v: "re_new_id (watched_env env) wt = (v, wt1)" by (cases "re_new_id (watched_env env) wt")
  have "snd wt1 = snd wt" using v unwatched_log [of "re_new_id env" wt] by (simp add: watched_env_def)
  moreover obtain q se1 wt2 where q: "with_session (register ?ch v (na_tap na) (na_guest_mac na)
      (na_ifindex na) (na_netns_inum na)) se wt1 = (q, se1, wt2)"
    by (meson prod_cases3)
  have "snd wt2 = snd wt1" by (rule with_session_log [OF session_ops_log(1) q])
  moreover have "snd wt' = snd wt2"
  proof (cases q)
    case (Inl e)
    then show ?thesis using Cons.prems v q by simp
  next
    case (Inr h)
    obtain q2 se2 wt3 where q2: "with_session (set_state ?ch h LIFECYCLE_RUNNING) se1 wt2 = (q2, se2, wt3)"
      by (meson prod_cases3)
    have "snd wt3 = snd wt2" by (rule with_session_log [OF session_ops_log(2) q2])
    then show ?thesis using Cons v q Inr q2 by (cases q2) auto
  qed
  ultimately show ?case by simp
qed simp

lemma abort_run_log:
  assumes "abort_run (watched_env env) (watched_target tgt) hs e (attrib, w, t) = (r, attrib', w', t')"
  shows "r = Inl e \<and> (\<exists>b. t' = t @ [Teardown b])"
proof -
  obtain a1 w1 t1 where d: "deregister_all (re_channel (watched_env env)) hs (attrib, w, t) = (a1, w1, t1)"
    by (meson prod_cases3)
  have "t1 = t" by (rule deregister_all_log [OF d])
  have down: "io_ignore (watch Teardown (tg_teardown tgt)) (w1, t1) = (w', t')" and "r = Inl e"
    using assms d by (simp_all add: abort_run_def watched_target_def)
  obtain b where "t' = t1 @ [Teardown b]" using ignore_watched [OF down] by (elim exE)
  with \<open>t1 = t\<close> \<open>r = Inl e\<close> show ?thesis by simp
qed

lemma sample_log:
  "sample_meminfo (re_shell (watched_env env)) (w, t) = (x, w', t') \<Longrightarrow> t' = t"
  by (auto simp: sample_meminfo_def watched_env_def unwatched_def split: prod.splits sum.splits)

lemma bring_up_protocol:
  assumes "bring_up (watched_env env) (watched_target tgt) (w, t) = (r, w', t')"
  shows "\<exists>es. t' = t @ es \<and> lifecycle_run gs Fresh es (if is_ok r then Up 0 else Abandoned)"
proof -
  obtain mb w0 where s0: "sample_meminfo (re_shell (watched_env env)) (w, t) = (mb, w0, t)"
    using sample_log by (metis prod_cases3)
  obtain p w1 where p: "tg_provision tgt w0 = (p, w1)" by fastforce
  show ?thesis
  proof (cases p)
    case (Inl e)
    then have "r = Inl e" "t' = t @ [Provision False]"
      using assms s0 p by (simp_all add: bring_up_def io_then_def watched_target_def watch_def)
    then show ?thesis using lifecycle_run_one [OF provision [of gs False]] by auto
  next
    case (Inr u)
    obtain q w2 where q: "tg_start tgt w1 = (q, w2)" by fastforce
    note one = lifecycle_run.step [OF provision [of gs True, simplified]]
    show ?thesis
    proof (cases q)
      case (Inl e)
      then have "r = Inl e" "t' = t @ [Provision True, Start False]"
        using assms s0 p q \<open>p = Inr u\<close>
        by (simp_all add: bring_up_def io_then_def watched_target_def watch_def)
      then show ?thesis using one [OF lifecycle_run_one [OF start [of gs False]]] by auto
    next
      case (Inr u2)
      obtain x w3 where x: "tg_reach_steady tgt w2 = (x, w3)" by fastforce
      note two = one [OF lifecycle_run.step [OF start [of gs True, simplified]]]
      have "t' = t @ [Provision True, Start True, Steady (is_ok x)] \<and> is_ok r = is_ok x"
      proof (cases x)
        case (Inl e)
        then show ?thesis using assms s0 p q x \<open>p = Inr u\<close> \<open>q = Inr u2\<close>
          by (auto simp: bring_up_def io_then_def watched_target_def watch_def)
      next
        case (Inr u3)
        obtain ma w4 where s4: "sample_meminfo (re_shell (watched_env env))
            (w3, t @ [Provision True, Start True, Steady True]) = (ma, w4, t @ [Provision True, Start True, Steady True])"
          using sample_log by (metis prod_cases3)
        then show ?thesis using assms s0 p q x \<open>p = Inr u\<close> \<open>q = Inr u2\<close> Inr
          by (auto simp: bring_up_def io_then_def watched_target_def watch_def)
      qed
      then show ?thesis using two [OF lifecycle_run_one [OF steady [of gs "is_ok x"]]] by auto
    qed
  qed
qed

lemma attribute_run_protocol:
  assumes "attribute_run (watched_env env) (watched_target tgt) (attrib, w, t) = (r, attrib', w', t')"
  shows "\<exists>es. t' = t @ es \<and> lifecycle_run gs (Up 0) es (if is_ok r then Up 0 else Aborted)"
proof (cases attrib)
  case None
  then have "t' = t" "is_ok r" using assms by (auto simp: attribute_run_def)
  then show ?thesis by (auto intro: lifecycle_run.done_)
next
  case (Some se)
  have fails: ?thesis if "is_ok r = False" "\<exists>b. t' = t @ [Teardown b]"
    using that lifecycle_run_one [OF attribution_failed [of gs]] by auto
  obtain vms w1 where net: "tg_net_attribution (watched_target tgt) (w, t) = (vms, w1, t)"
    by (cases "tg_net_attribution tgt w") (simp add: watched_target_def unwatched_def)
  show ?thesis
  proof (cases "vms = []")
    case True
    then have "r = Inl no_tap_error" "io_ignore (watch Teardown (tg_teardown tgt)) (w1, t) = (w', t')"
      using assms Some net by (simp_all add: attribute_run_def watched_target_def)
    then show ?thesis using ignore_watched fails by force
  next
    case False
    obtain q hs se2 w2 t2 where vm: "attribute_vms (re_channel (watched_env env)) (re_new_id (watched_env env))
        vms [] se (w1, t) = (q, hs, se2, w2, t2)"
      by (metis prod.collapse)
    have t2: "t2 = t" using attribute_vms_log [OF vm] by simp
    show ?thesis
    proof (cases q)
      case (Inl e)
      then have "abort_run (watched_env env) (watched_target tgt) hs e (Some se2, w2, t) = (r, attrib', w', t')"
        using assms Some net False vm t2 by (simp add: attribute_run_def)
      from abort_run_log [OF this] show ?thesis using fails by auto
    next
      case (Inr u)
      then have "is_ok r" "t' = t" using assms Some net False vm t2 by (auto simp: attribute_run_def)
      then show ?thesis by (auto intro: lifecycle_run.done_)
    qed
  qed
qed

lemma spawn_all_protocol:
  assumes "spawn_all (watched_runner rn) rest hs (w, t) = (r, w', t')" and "gs = pre @ rest"
  shows "\<exists>es. t' = t @ es \<and> (case r of
      Inr hs' \<Rightarrow> length hs' = length hs + length rest \<and> lifecycle_run gs (Up (length pre)) es (Up (length gs))
    | Inl _ \<Rightarrow> lifecycle_run gs (Up (length pre)) es Aborting)"
  using assms
proof (induction rest arbitrary: pre hs w t)
  case Nil
  then show ?case by (auto intro: lifecycle_run.done_)
next
  case (Cons g rest)
  obtain q w1 where q: "rn_spawn rn g w = (q, w1)" by fastforce
  have "gs ! length pre = g" "length pre < length gs" using Cons.prems(2) by simp_all
  then have st: "lifecycle gs (Up (length pre)) (Spawn g (is_ok q)) (if is_ok q then Up (Suc (length pre)) else Aborting)"
    using spawn [of "length pre" gs] by metis
  show ?case
  proof (cases q)
    case (Inl e)
    then have "r = Inl (e, hs)" "t' = t @ [Spawn g False]"
      using Cons.prems(1) q by (auto simp: watched_runner_def watch_def)
    then show ?thesis using lifecycle_run_one [OF st] Inl by auto
  next
    case (Inr h)
    have run: "spawn_all (watched_runner rn) rest (hs @ [h]) (w1, t @ [Spawn g True]) = (r, w', t')"
      using Cons.prems(1) q Inr by (simp add: watched_runner_def watch_def)
    obtain es where es: "t' = (t @ [Spawn g True]) @ es" "case r of
        Inr hs' \<Rightarrow> length hs' = length (hs @ [h]) + length rest
          \<and> lifecycle_run gs (Up (length (pre @ [g]))) es (Up (length gs))
      | Inl _ \<Rightarrow> lifecycle_run gs (Up (length (pre @ [g]))) es Aborting"
      using Cons.IH [OF run, of "pre @ [g]"] Cons.prems(2) by auto
    have "lifecycle gs (Up (length pre)) (Spawn g True) (Up (length (pre @ [g])))" using st Inr by simp
    then show ?thesis using es lifecycle_run.step by (intro exI [of _ "Spawn g True # es"]) (auto split: sum.splits)
  qed
qed

lemma wait_all_protocol:
  assumes "wait_all (watched_runner rn) (zip rest hs) (w, t) = (r, w', t')" and "gs = pre @ rest"
    and "length hs = length rest"
  shows "\<exists>es. t' = t @ es \<and> (case r of
      Inr frs \<Rightarrow> length frs = length rest \<and> lifecycle_run gs (Window (length pre)) es (Window (length gs))
    | Inl _ \<Rightarrow> lifecycle_run gs (Window (length pre)) es Failing)"
  using assms
proof (induction rest arbitrary: pre hs w t r)
  case Nil
  then show ?case by (auto intro: lifecycle_run.done_)
next
  case (Cons g rest)
  obtain h hs1 where hs: "hs = h # hs1" "length hs1 = length rest" using Cons.prems(3) by (cases hs) auto
  obtain q w1 where q: "rn_wait rn g h w = (q, w1)" by fastforce
  have "gs ! length pre = g" "length pre < length gs" using Cons.prems(2) by simp_all
  then have st: "lifecycle gs (Window (length pre)) (Wait g (is_ok q)) (if is_ok q then Window (Suc (length pre)) else Failing)"
    using wait [of "length pre" gs] by metis
  show ?case
  proof (cases q)
    case (Inl e)
    then have "r = Inl e" "t' = t @ [Wait g False]"
      using Cons.prems(1) q hs by (auto simp: watched_runner_def watch_def)
    then show ?thesis using lifecycle_run_one [OF st] Inl by auto
  next
    case (Inr fr)
    obtain r1 where run: "wait_all (watched_runner rn) (zip rest hs1) (w1, t @ [Wait g True]) = (r1, w', t')"
      and r: "r = map_ok (\<lambda>frs. fr # frs) r1"
      using Cons.prems(1) q Inr hs by (auto simp: watched_runner_def watch_def split: prod.splits sum.splits)
    obtain es where es: "t' = (t @ [Wait g True]) @ es" "case r1 of
        Inr frs \<Rightarrow> length frs = length rest \<and> lifecycle_run gs (Window (length (pre @ [g]))) es (Window (length gs))
      | Inl _ \<Rightarrow> lifecycle_run gs (Window (length (pre @ [g]))) es Failing"
      using Cons.IH [OF run, of "pre @ [g]"] Cons.prems(2) hs by auto
    have "lifecycle gs (Window (length pre)) (Wait g True) (Window (length (pre @ [g])))" using st Inr by simp
    then show ?thesis using es r lifecycle_run.step
      by (intro exI [of _ "Wait g True # es"]) (cases r1; auto)
  qed
qed

lemma abort_protocol:
  assumes "abort_run (watched_env env) (watched_target tgt) hs e (at1, w1, t1) = (r, attrib', w', t')"
    and "t1 = t @ es1" and "lifecycle_run gs (Up 0) es1 Aborting"
  shows "\<exists>es. t' = t @ es \<and> lifecycle_run gs (Up 0) es (if is_ok r then Window (length gs) else Aborted)"
proof -
  obtain b where "r = Inl e" "t' = t1 @ [Teardown b]" using abort_run_log [OF assms(1)] by blast
  then show ?thesis using lifecycle_run_snoc [OF assms(3) abort [of gs b]] assms(2) by auto
qed

lemma window_protocol:
  assumes y: "wait_all (watched_runner rn) (zip gs hs') (w2, t2) = (y, w3, t3)" and "length hs' = length gs"
    and t2: "t2 = t @ es1" and up: "lifecycle_run gs (Up 0) es1 (Window 0)"
    and run: "(case y of Inl e \<Rightarrow> abort_run (watched_env env) (watched_target tgt) hs e
          (attrib, io_ignore (wl_stop (watched_workload wl)) (w3, t3))
        | Inr frs \<Rightarrow> (Inr frs, attrib, w3, t3)) = (r, attrib', w', t')"
  shows "\<exists>es. t' = t @ es \<and> lifecycle_run gs (Up 0) es (if is_ok r then Window (length gs) else Aborted)"
proof -
  obtain es2 where t3: "t3 = t2 @ es2" and wt: "lifecycle_run gs (Window 0) es2 (if is_ok y then Window (length gs) else Failing)"
    using wait_all_protocol [OF y, of gs "[]"] assms(2) by (cases y) auto
  note waited = lifecycle_run_append [OF up wt]
  show ?thesis
  proof (cases y)
    case (Inl e)
    obtain w4 t4 where st: "io_ignore (wl_stop (watched_workload wl)) (w3, t3) = (w4, t4)" by fastforce
    obtain b where t4: "t4 = t3 @ [WorkStop b]"
      using ignore_watched [of WorkStop "wl_stop wl" w3 t3] st by (auto simp: watched_workload_def)
    have a: "abort_run (watched_env env) (watched_target tgt) hs e (attrib, w4, t4) = (r, attrib', w', t')"
      using run st Inl by simp
    have "lifecycle_run gs (Up 0) (es1 @ es2) Failing" using waited Inl by simp
    from lifecycle_run_snoc [OF this work_stop_failing [of gs b]]
    show ?thesis by (rule abort_protocol [OF a, rotated]) (simp add: t4 t3 t2)
  next
    case (Inr frs)
    then show ?thesis using run waited t3 t2 by auto
  qed
qed

lemma capture_window_protocol:
  assumes "capture_window (watched_env env) (watched_runner rn) (watched_target tgt) (watched_workload wl)
      gs hs (attrib, w, t) = (r, attrib', w', t')"
  shows "\<exists>es. t' = t @ es \<and> lifecycle_run gs (Up 0) es (if is_ok r then Window (length gs) else Aborted)"
proof -
  obtain q w1 t1 where q: "spawn_all (watched_runner rn) gs [] (w, t) = (q, w1, t1)" by (metis prod.collapse)
  obtain es1 where t1: "t1 = t @ es1" and sp: "case q of
      Inr hs' \<Rightarrow> length hs' = length gs \<and> lifecycle_run gs (Up 0) es1 (Up (length gs))
    | Inl _ \<Rightarrow> lifecycle_run gs (Up 0) es1 Aborting"
    using spawn_all_protocol [OF q, of gs "[]"] by (cases q) auto
  show ?thesis
  proof (cases q)
    case (Inl ehs)
    obtain e0 hs0 where e0: "ehs = (e0, hs0)" by (cases ehs)
    have "abort_run (watched_env env) (watched_target tgt) hs e0 (attrib, w1, t1) = (r, attrib', w', t')"
      using assms q Inl e0 by (simp add: capture_window_def)
    then show ?thesis by (rule abort_protocol [OF _ t1]) (use sp Inl e0 in simp)
  next
    case (Inr hs')
    then have n: "length hs' = length gs" and up: "lifecycle_run gs (Up 0) es1 (Up (length gs))" using sp by auto
    obtain x w2 where x: "wl_start wl w1 = (x, w2)" by fastforce
    have ws: "wl_start (watched_workload wl) (w1, t1) = (x, w2, t1 @ [WorkStart (is_ok x)])"
      using x by (simp add: watched_workload_def watch_def)
    note started = lifecycle_run_snoc [OF up work_start [of gs "is_ok x"]]
    show ?thesis
    proof (cases x)
      case (Inl e)
      have "abort_run (watched_env env) (watched_target tgt) hs e (attrib, w2, t1 @ [WorkStart False]) = (r, attrib', w', t')"
        using assms q ws Inl \<open>q = Inr hs'\<close> by (simp add: capture_window_def)
      then show ?thesis by (rule abort_protocol) (use t1 started Inl in auto)
    next
      case (Inr u)
      obtain y w3 t3 where y: "wait_all (watched_runner rn) (zip gs hs') (w2, t1 @ [WorkStart True]) = (y, w3, t3)"
        by (metis prod.collapse)
      show ?thesis
        by (rule window_protocol [OF y n, of t "es1 @ [WorkStart True]"])
          (use started t1 assms q ws y Inr \<open>q = Inr hs'\<close> in \<open>auto simp: capture_window_def split: sum.splits\<close>)
    qed
  qed
qed

lemma wind_down_protocol:
  assumes "wind_down (watched_env env) (watched_target tgt) (watched_workload wl) mem hs frs (attrib, w, t)
      = (r, attrib', w', t')"
  shows "\<exists>es p. t' = t @ es \<and> lifecycle_run gs (Window (length gs)) es p
    \<and> p \<in> {Abandoned, Ended (is_ok r)} \<and> (is_ok r \<longrightarrow> p = Ended True)"
proof -
  obtain w1 t1 where stop: "io_ignore (wl_stop (watched_workload wl)) (w, t) = (w1, t1)" by fastforce
  obtain b1 where t1: "t1 = t @ [WorkStop b1]"
    using ignore_watched [of WorkStop "wl_stop wl" w t] stop by (auto simp: watched_workload_def)
  obtain rep w2 where rep: "wl_report wl w1 = (rep, w2)" by fastforce
  have report: "io_option (wl_report (watched_workload wl)) (w1, t1)
      = (case rep of Inr x \<Rightarrow> Some x | Inl _ \<Rightarrow> None, w2, t1 @ [WorkReport (is_ok rep)])"
    using rep by (simp add: watched_workload_def io_option_def watch_def split: sum.split)
  obtain sp w3 where sp: "tg_spans tgt w2 = (sp, w3)" by fastforce
  let ?t3 = "t @ [WorkStop b1, WorkReport (is_ok rep), Spans (is_ok sp)]"
  have spn: "tg_spans (watched_target tgt) (w2, t1 @ [WorkReport (is_ok rep)]) = (sp, w3, ?t3)"
    using sp t1 by (simp add: watched_target_def watch_def)
  have run: "lifecycle_run gs (Window (length gs)) [WorkStop b1, WorkReport (is_ok rep), Spans (is_ok sp)]
      (if is_ok sp then Traced else Abandoned)"
    by (rule lifecycle_run.step [OF work_stop lifecycle_run.step [OF lifecycle.report lifecycle_run_one [OF spans]]])
  show ?thesis
  proof (cases sp)
    case (Inl e)
    then have "r = Inl e" "t' = ?t3" using assms stop report spn by (auto simp: wind_down_def)
    then show ?thesis using run Inl by auto
  next
    case (Inr spans)
    obtain a4 w4 t4 where d: "deregister_all (re_channel (watched_env env)) hs (attrib, w3, ?t3) = (a4, w4, t4)"
      by (metis prod.collapse)
    have t4: "t4 = ?t3" by (rule deregister_all_log [OF d])
    obtain td w5 where td: "tg_teardown tgt w4 = (td, w5)" by fastforce
    have tdn: "tg_teardown (watched_target tgt) (w4, t4) = (td, w5, ?t3 @ [Teardown (is_ok td)])"
      using td t4 by (simp add: watched_target_def watch_def)
    have "is_ok r = is_ok td \<and> t' = ?t3 @ [Teardown (is_ok td)]"
      using assms stop report spn d tdn Inr
      by (cases td) (auto simp: wind_down_def Let_def split: prod.splits)
    moreover have "lifecycle_run gs (Window (length gs)) (([WorkStop b1, WorkReport (is_ok rep), Spans (is_ok sp)])
        @ [Teardown (is_ok td)]) (Ended (is_ok td))"
      by (rule lifecycle_run_snoc [OF run]) (use Inr in auto)
    ultimately show ?thesis by (intro exI [of _ "[WorkStop b1, WorkReport (is_ok rep), Spans (is_ok sp), Teardown (is_ok td)]"]
        exI [of _ "Ended (is_ok td)"]) auto
  qed
qed

lemma execute_run_protocol:
  assumes "execute_run (watched_env env) (watched_runner rn) (watched_target tgt) (watched_workload wl) gs attrib (w, t)
      = (r, attrib', w', t')"
  shows "\<exists>es p. t' = t @ es \<and> lifecycle_run gs Fresh es p
    \<and> p \<in> {Abandoned, Aborted, Ended (is_ok r)} \<and> (is_ok r \<longrightarrow> p = Ended True)"
proof -
  obtain q w1 t1 where q: "bring_up (watched_env env) (watched_target tgt) (w, t) = (q, w1, t1)"
    by (metis prod.collapse)
  obtain es1 where t1: "t1 = t @ es1" and r1: "lifecycle_run gs Fresh es1 (if is_ok q then Up 0 else Abandoned)"
    using bring_up_protocol [OF q] by blast
  show ?thesis
  proof (cases q)
    case (Inl e)
    then show ?thesis using assms q t1 r1 by (auto simp: execute_run_def)
  next
    case (Inr mem)
    obtain y a2 w2 t2 where y: "attribute_run (watched_env env) (watched_target tgt) (attrib, w1, t1) = (y, a2, w2, t2)"
      by (metis prod.collapse)
    obtain es2 where t2: "t2 = t1 @ es2" and r2: "lifecycle_run gs (Up 0) es2 (if is_ok y then Up 0 else Aborted)"
      using attribute_run_protocol [OF y] by blast
    have r12: "lifecycle_run gs Fresh (es1 @ es2) (if is_ok y then Up 0 else Aborted)"
      using lifecycle_run_append r1 r2 Inr by simp
    show ?thesis
    proof (cases y)
      case (Inl e)
      then show ?thesis using assms q y t1 t2 r12 \<open>q = Inr mem\<close> by (auto simp: execute_run_def)
    next
      case (Inr hs)
      obtain z a3 w3 t3 where z: "capture_window (watched_env env) (watched_runner rn) (watched_target tgt)
          (watched_workload wl) gs hs (a2, w2, t2) = (z, a3, w3, t3)"
        by (metis prod.collapse)
      obtain es3 where t3: "t3 = t2 @ es3"
        and r3: "lifecycle_run gs (Up 0) es3 (if is_ok z then Window (length gs) else Aborted)"
        using capture_window_protocol [OF z] by blast
      have r123: "lifecycle_run gs Fresh ((es1 @ es2) @ es3) (if is_ok z then Window (length gs) else Aborted)"
        by (rule lifecycle_run_append [OF _ r3]) (use r12 Inr in simp)
      show ?thesis
      proof (cases z)
        case (Inl e)
        then show ?thesis using assms q y z t1 t2 t3 r123 \<open>q = Inr mem\<close> \<open>y = Inr hs\<close>
          by (auto simp: execute_run_def)
      next
        case (Inr frs)
        have wd: "wind_down (watched_env env) (watched_target tgt) (watched_workload wl) mem hs frs (a3, w3, t3)
            = (r, attrib', w', t')"
          using assms q y z \<open>q = Inr mem\<close> \<open>y = Inr hs\<close> Inr by (simp add: execute_run_def)
        obtain es4 p where "t' = t3 @ es4" "lifecycle_run gs (Window (length gs)) es4 p"
          "p \<in> {Abandoned, Ended (is_ok r)}" "is_ok r \<longrightarrow> p = Ended True"
          using wind_down_protocol [OF wd] by blast
        moreover have "lifecycle_run gs Fresh ((es1 @ es2) @ es3) (Window (length gs))" using r123 Inr by simp
        ultimately show ?thesis using lifecycle_run_append t1 t2 t3 by fastforce
      qed
    qed
  qed
qed

section \<open>Lemmas: what the protocol says of teardown\<close>

fun is_teardown :: "run_event \<Rightarrow> bool" where
  "is_teardown (Teardown b) = True"
| "is_teardown _ = False"

text \<open>The four failures after which the code returns at once.\<close>

definition gives_up :: "run_event \<Rightarrow> bool" where
  "gives_up e \<longleftrightarrow> e \<in> {Provision False, Start False, Steady False, Spans False}"

fun torn_down :: "phase \<Rightarrow> bool" where
  "torn_down Aborted = True"
| "torn_down (Ended b) = True"
| "torn_down _ = False"

lemma lifecycle_teardown:
  assumes "lifecycle gs p e q"
  shows "\<not> torn_down p" and "is_teardown e = torn_down q" and "q = Abandoned \<longleftrightarrow> gives_up e" and "p \<noteq> Abandoned"
  using assms by (cases; auto simp: gives_up_def)+

lemma run_of_final:
  "lifecycle_run gs p es q \<Longrightarrow> torn_down p \<or> p = Abandoned \<Longrightarrow> es = [] \<and> q = p"
  by (induction rule: lifecycle_run.induct) (auto dest: lifecycle_teardown)

lemma lifecycle_run_teardown:
  assumes "lifecycle_run gs p es q"
  shows "length (filter is_teardown es) + (if torn_down p then 1 else 0) = (if torn_down q then 1 else 0)"
    and "q = Abandoned \<longleftrightarrow> p = Abandoned \<or> (\<exists>e \<in> set es. gives_up e)"
    and "torn_down q \<Longrightarrow> \<not> torn_down p \<Longrightarrow> \<exists>es' b. es = es' @ [Teardown b]"
  using assms
proof (induction rule: lifecycle_run.induct)
  case (done_ p)
  { case 1 then show ?case by simp }
  { case 2 then show ?case by simp }
  { case 3 then show ?case by simp }
next
  case (step p e q es r)
  note t = lifecycle_teardown [OF step.hyps(1)]
  { case 1
    have "torn_down q \<Longrightarrow> r = q" using run_of_final [OF step.hyps(2)] by simp
    then show ?case using t step.IH(1) by (cases "torn_down q") auto }
  { case 2
    have "q = Abandoned \<Longrightarrow> r = Abandoned" using run_of_final [OF step.hyps(2)] by simp
    then show ?case using t step.IH(2) by auto }
  { case 3
    show ?case
    proof (cases "torn_down q")
      case True
      then have "es = []" "is_teardown e" using run_of_final [OF step.hyps(2)] t by auto
      then show ?thesis by (cases e) auto
    next
      case False
      then show ?thesis using step.IH(3) 3 by (metis append_Cons)
    qed }
qed

section \<open>Properties\<close>

text \<open>C4: A run keeps to its protocol: for any target, workload, gadgets and environment, the calls
  a run makes of them are a path of the lifecycle state machine to one of its ends, and
  the run returns a result exactly at the end where every step it must not ignore, the
  teardown included, succeeded. So gadgets are spawned in order once the target is steady,
  all before the workload starts, and collected in order while it runs.\<close>

theorem run_keeps_protocol:
  assumes "execute_run (watched_env env) (watched_runner rn) (watched_target tgt) (watched_workload wl) gs attrib (w, [])
    = (r, attrib', w', t)"
  shows "\<exists>p. lifecycle_run gs Fresh t p \<and> p \<in> {Abandoned, Aborted, Ended (is_ok r)} \<and> (is_ok r \<longleftrightarrow> p = Ended True)"
  using execute_run_protocol [OF assms] by auto

text \<open>A surrounding that does nothing and succeeds, but for the calls named.\<close>

definition plain_env :: "unit run_env" where
  "plain_env = \<lparr>re_shell = (\<lambda>cmd. io_ok ''''), re_channel = \<lparr>ch_write = (\<lambda>l. io_ok ()), ch_flush = io_ok (), ch_read = io_ok ''ok''\<rparr>,
     re_new_id = (\<lambda>w. (''id'', w)), re_residency = \<lparr>rs_len = (\<lambda>p w. None), rs_page = 4096, rs_maps = (\<lambda>p w. False), rs_mincore = (\<lambda>p n w. None)\<rparr>\<rparr>"

definition plain_target :: "bool \<Rightarrow> unit target" where
  "plain_target spans_ok = \<lparr>tg_version = (\<lambda>w. (''1'', w)), tg_provision = io_ok (), tg_start = io_ok (), tg_reach_steady = io_ok (),
     tg_spans = (if spans_ok then io_ok [] else io_err ''no spans''), tg_teardown = io_ok (),
     tg_pinning_layout = (\<lambda>w. None), tg_resident_files = (\<lambda>w. []), tg_net_attribution = (\<lambda>w. ([], w))\<rparr>"

definition plain_workload :: "unit workload" where
  "plain_workload = \<lparr>wl_version = (\<lambda>w. (''1'', w)), wl_start = io_ok (), wl_stop = io_ok (), wl_report = io_ok JNull\<rparr>"

definition plain_runner :: "(unit, unit) runner" where
  "plain_runner = \<lparr>rn_spawn = (\<lambda>g. io_ok ()), rn_wait = (\<lambda>g h. io_ok \<lparr>g_series = [], g_self_metrics = [], g_capture_meta = None\<rparr>),
     rn_kill = (\<lambda>h w. w)\<rparr>"

definition plain_run :: "bool \<Rightarrow> (string + run_artifacts) \<times> unit watched session option \<times> unit watched" where
  "plain_run spans_ok = execute_run (watched_env plain_env) (watched_runner plain_runner)
     (watched_target (plain_target spans_ok)) (watched_workload plain_workload)
     [\<lparr>gi_gadget = ''g'', gi_probe = ''p'', gi_args = [], gi_out_path = ''o''\<rparr>] None ((), [])"

theorem run_keeps_protocol_witness:
  "\<exists>r a w t. plain_run True = (r, a, w, t) \<and> is_ok r
     \<and> lifecycle_run [\<lparr>gi_gadget = ''g'', gi_probe = ''p'', gi_args = [], gi_out_path = ''o''\<rparr>] Fresh t (Ended True)"
proof -
  obtain r a w t where run: "plain_run True = (r, a, w, t)" by (metis prod.collapse)
  have "is_ok (fst (plain_run True))" by code_simp
  then have ok: "is_ok r" by (simp add: run)
  obtain p where "lifecycle_run [\<lparr>gi_gadget = ''g'', gi_probe = ''p'', gi_args = [], gi_out_path = ''o''\<rparr>] Fresh t p"
    "is_ok r \<longleftrightarrow> p = Ended True"
    using run_keeps_protocol [OF run [unfolded plain_run_def]] by auto
  then show ?thesis using run ok by (intro exI conjI) auto
qed

text \<open>C8: Teardown happens exactly once and is the last call of the run, except after a failure of
  provisioning, starting, reaching steady or reading the spans: then the run returns at
  once and nothing is torn down.\<close>

theorem teardown_exactly_once:
  assumes "execute_run (watched_env env) (watched_runner rn) (watched_target tgt) (watched_workload wl) gs attrib (w, [])
    = (r, attrib', w', t)"
  shows "length (filter is_teardown t) = (if \<exists>e \<in> set t. gives_up e then 0 else 1)
    \<and> ((\<exists>e \<in> set t. gives_up e) \<or> (\<exists>t' b. t = t' @ [Teardown b]))"
proof -
  obtain p where run: "lifecycle_run gs Fresh t p" and p: "p \<in> {Abandoned, Aborted, Ended (is_ok r)}"
    using execute_run_protocol [OF assms] by auto
  note t = lifecycle_run_teardown [OF run]
  show ?thesis
  proof (cases "p = Abandoned")
    case True
    then show ?thesis using t(1,2) by auto
  next
    case False
    then have "torn_down p" using p by auto
    then show ?thesis using t False by auto
  qed
qed

theorem teardown_exactly_once_witness:
  "\<exists>r a w t. plain_run False = (r, a, w, t) \<and> gives_up (Spans False) \<and> length (filter is_teardown t) = 0"
proof -
  obtain r a w t where run: "plain_run False = (r, a, w, t)" by (metis prod.collapse)
  have "\<exists>e \<in> set (snd (snd (snd (plain_run False)))). gives_up e" by code_simp
  then have "\<exists>e \<in> set t. gives_up e" by (simp add: run)
  then show ?thesis
    using teardown_exactly_once [OF run [unfolded plain_run_def]] run by (auto simp: gives_up_def)
qed

end
