(* ===== verification/Bytes.thy ===== *)
theory Bytes
  imports Text
begin

text \<open>
  Machine integers as bytes, in the little-endian order of the hosts the program is built
  for (\<open>to_ne_bytes\<close>, \<open>to_le_bytes\<close>), and back.
\<close>

definition int_bytes :: "nat \<Rightarrow> int \<Rightarrow> u8 list" where
  "int_bytes k n = map (\<lambda>i. word_of_int (n div 256 ^ i)) [0..<k]"

definition bytes_int :: "u8 list \<Rightarrow> int" where
  "bytes_int bs = foldr (\<lambda>b acc. uint b + 256 * acc) bs 0"

definition u64_bytes :: "u64 \<Rightarrow> u8 list" where
  "u64_bytes w = int_bytes 8 (uint w)"

definition u32_bytes :: "u32 \<Rightarrow> u8 list" where
  "u32_bytes w = int_bytes 4 (uint w)"

definition u128_bytes :: "u128 \<Rightarrow> u8 list" where
  "u128_bytes w = int_bytes 16 (uint w)"

text \<open>The bytes a digest is taken of, as the byte string of \<open>Text\<close>.\<close>

definition bytes_text :: "u8 list \<Rightarrow> string" where
  "bytes_text = map (\<lambda>b. char_of (uint b))"

lemma length_int_bytes [simp]: "length (int_bytes k n) = k"
  by (simp add: int_bytes_def)

lemma int_bytes_Suc: "int_bytes (Suc k) n = word_of_int n # int_bytes k (n div 256)"
  by (simp add: int_bytes_def upt_conv_Cons map_Suc_upt [symmetric] zdiv_zmult2_eq comp_def del: upt_Suc)

lemma bytes_int_bytes: "bytes_int (int_bytes k n) = n mod 256 ^ k"
proof (induction k arbitrary: n)
  case 0
  then show ?case by (simp add: int_bytes_def bytes_int_def)
next
  case (Suc k)
  have "bytes_int (int_bytes (Suc k) n) = n mod 256 + 256 * bytes_int (int_bytes k (n div 256))"
    by (simp add: int_bytes_Suc bytes_int_def uint_word_of_int)
  also have "\<dots> = n mod 256 ^ Suc k"
    unfolding Suc by (simp add: zmod_zmult2_eq)
  finally show ?case .
qed

lemma u64_bytes_word [simp]: "(word_of_int (bytes_int (u64_bytes w)) :: u64) = w"
  using uint_lt2p [of w] by (simp add: u64_bytes_def bytes_int_bytes)

lemma u32_bytes_word [simp]: "(word_of_int (bytes_int (u32_bytes w)) :: u32) = w"
  using uint_lt2p [of w] by (simp add: u32_bytes_def bytes_int_bytes)

lemma length_u64_bytes [simp]: "length (u64_bytes w) = 8"
  by (simp add: u64_bytes_def)

lemma length_u32_bytes [simp]: "length (u32_bytes w) = 4"
  by (simp add: u32_bytes_def)

lemma u32_bytes_inj: "u32_bytes a = u32_bytes b \<longleftrightarrow> a = b"
  by (metis u32_bytes_word)

lemma bytes_int_nonneg: "0 \<le> bytes_int bs \<and> bytes_int bs < 256 ^ length bs"
proof (induction bs)
  case (Cons b bs)
  have "uint b < 256" using uint_lt2p [of b] by simp
  then have "uint b + 256 * bytes_int bs < 256 * (bytes_int bs + 1)" by simp
  also have "\<dots> \<le> 256 * 256 ^ length bs" using Cons by (intro mult_left_mono) auto
  finally show ?case using Cons by (simp add: bytes_int_def)
qed (simp add: bytes_int_def)

lemma int_bytes_int: "int_bytes (length bs) (bytes_int bs) = bs"
proof (induction bs)
  case Nil
  then show ?case by (simp add: int_bytes_def)
next
  case (Cons b bs)
  let ?n = "uint b + 256 * bytes_int bs"
  have "uint b < 256" "0 \<le> uint b" using uint_lt2p [of b] by simp_all
  then have n: "?n div 256 = bytes_int bs" by simp
  have z: "(256 :: u8) = 0" by code_simp
  have "(word_of_int ?n :: u8) = b + 256 * word_of_int (bytes_int bs)" by simp
  then have b: "(word_of_int ?n :: u8) = b" unfolding z by simp
  have "int_bytes (length (b # bs)) (bytes_int (b # bs)) = word_of_int ?n # int_bytes (length bs) (?n div 256)"
    by (simp add: bytes_int_def int_bytes_Suc)
  then show ?case by (simp only: n b Cons.IH)
qed

end
