(* ===== verification/AttribOwner.thy ===== *)
theory AttribOwner
  imports Json Bytes "HOL-Library.AList"
begin

text \<open>
  \<open>capture/netattrib/src/main.rs\<close>: the owner of the shared map from interface to VM. The
  wire commands, the layout of the map value, and how a command is applied to the map and
  the bookkeeping. The map is the kernel's: \<open>map_ops\<close> are the operations the gadget calls
  and the locale \<open>bpf_map\<close> states what the kernel documents of a BPF hash map, with
  \<open>hash_map\<close> the instance that shows the laws can hold.
\<close>

section \<open>The map value\<close>

record vm_ctx =
  vc_vm_id :: u64
  vc_netns_inum :: u32
  vc_lifecycle_state :: u8
  vc_pad :: "u8 list"

definition VM_CTX_BYTES :: nat where "VM_CTX_BYTES = 16"

definition ctx_as_bytes :: "vm_ctx \<Rightarrow> u8 list" where
  "ctx_as_bytes c = u64_bytes (vc_vm_id c) @ u32_bytes (vc_netns_inum c)
     @ [vc_lifecycle_state c] @ replicate (VM_CTX_BYTES - 13) 0"

text \<open>A slice shorter than the struct panics in the code; the kernel hands out whole values.\<close>

definition ctx_from_bytes :: "u8 list \<Rightarrow> vm_ctx" where
  "ctx_from_bytes b = \<lparr>vc_vm_id = word_of_int (bytes_int (take 8 b)),
     vc_netns_inum = word_of_int (bytes_int (take 4 (drop 8 b))),
     vc_lifecycle_state = b ! 12, vc_pad = [0, 0, 0]\<rparr>"

section \<open>Commands\<close>

datatype owner_command = Add u32 u64 u32 | State u64 u8 | Remove u64

definition state_from_name :: "string \<Rightarrow> u8 option" where
  "state_from_name name = (let n = to_upper name in
     if n = ''RUNNING'' then Some 0 else if n = ''PAUSING'' then Some 1
     else if n = ''PAUSED'' then Some 2 else if n = ''RESUMING'' then Some 3 else None)"

text \<open>The standard library's message for a number that does not parse.\<close>

fun scan_digits :: "int \<Rightarrow> int \<Rightarrow> string \<Rightarrow> string + int" where
  "scan_digits limit acc [] = Inr acc"
| "scan_digits limit acc (c # cs) =
     (if \<not> is_ascii_digit c then Inl ''invalid digit found in string''
      else if limit < 10 * acc + digit_value c then Inl ''number too large to fit in target type''
      else scan_digits limit (10 * acc + digit_value c) cs)"

definition int_error :: "int \<Rightarrow> string \<Rightarrow> string" where
  "int_error limit s = (if s = [] then ''cannot parse integer from empty string''
     else case scan_digits limit 0 (drop_plus s) of Inl e \<Rightarrow> e | Inr _ \<Rightarrow> '''')"

definition next_u64_field :: "string \<Rightarrow> string list \<Rightarrow> string + (u64 \<times> string list)" where
  "next_u64_field needs fs = (case fs of [] \<Rightarrow> Inl needs
     | x # rest \<Rightarrow> (case parse_u64 x of Some w \<Rightarrow> Inr (w, rest) | None \<Rightarrow> Inl (int_error (2 ^ 64 - 1) x)))"

definition next_u32_field :: "string \<Rightarrow> string list \<Rightarrow> string + (u32 \<times> string list)" where
  "next_u32_field needs fs = (case fs of [] \<Rightarrow> Inl needs
     | x # rest \<Rightarrow> (case parse_u32 x of Some w \<Rightarrow> Inr (w, rest) | None \<Rightarrow> Inl (int_error (2 ^ 32 - 1) x)))"

definition parse_command :: "string \<Rightarrow> string + owner_command" where
  "parse_command line = (case split_ws line of
     [] \<Rightarrow> Inl ''empty command''
   | verb # fs \<Rightarrow>
       if verb = ''add'' then
         and_then (next_u32_field ''add needs an ifindex'' fs) (\<lambda>(ifindex, fs).
         and_then (next_u64_field ''add needs a handle'' fs) (\<lambda>(handle, fs).
         and_then (next_u32_field ''add needs a netns_inum'' fs) (\<lambda>(netns, fs).
         Inr (Add ifindex handle netns))))
       else if verb = ''state'' then
         and_then (next_u64_field ''state needs a handle'' fs) (\<lambda>(handle, fs).
         case fs of [] \<Rightarrow> Inl ''state needs a state name''
         | name # _ \<Rightarrow> (case state_from_name name of
             Some st \<Rightarrow> Inr (State handle st)
           | None \<Rightarrow> Inl (''unknown state '' @ [CHR 0x27] @ name @ [CHR 0x27])))
       else if verb = ''remove'' then
         and_then (next_u64_field ''remove needs a handle'' fs) (\<lambda>(handle, fs). Inr (Remove handle))
       else Inl (''unknown command '' @ [CHR 0x27] @ verb @ [CHR 0x27]))"

section \<open>Applying commands\<close>

record owner_stats =
  os_peak_live :: u64
  os_final_live :: u64
  os_adds :: u64
  os_states :: u64
  os_removes :: u64
  os_errors :: u64

definition stats_zero :: owner_stats where
  "stats_zero = \<lparr>os_peak_live = 0, os_final_live = 0, os_adds = 0, os_states = 0, os_removes = 0, os_errors = 0\<rparr>"

definition owner_fragment :: "owner_stats \<Rightarrow> u64 \<Rightarrow> json" where
  "owner_fragment st window_ns = jobj [(''series'', JArray []), (''self_metrics'', JArray []),
     (''capture_meta'', jobj [(''gadget'', JString ''assayist-capture-netattrib''),
        (''window_ns'', JNumber (PosInt window_ns)), (''peak_live'', JNumber (PosInt (os_peak_live st))),
        (''final_live'', JNumber (PosInt (os_final_live st))),
        (''commands'', jobj [(''add'', JNumber (PosInt (os_adds st))), (''state'', JNumber (PosInt (os_states st))),
           (''remove'', JNumber (PosInt (os_removes st)))]),
        (''command_errors'', JNumber (PosInt (os_errors st)))])]"

record 'm map_ops =
  mo_keys :: "'m \<Rightarrow> u8 list list"
  mo_lookup :: "'m \<Rightarrow> u8 list \<Rightarrow> string + u8 list option"
  mo_update :: "u8 list \<Rightarrow> u8 list \<Rightarrow> 'm \<Rightarrow> string + 'm"
  mo_delete :: "u8 list \<Rightarrow> 'm \<Rightarrow> string + 'm"

definition carries :: "'m map_ops \<Rightarrow> 'm \<Rightarrow> u64 \<Rightarrow> u8 list \<Rightarrow> bool" where
  "carries ops m handle key = (case mo_lookup ops m key of
     Inr (Some v) \<Rightarrow> vc_vm_id (ctx_from_bytes v) = handle | _ \<Rightarrow> False)"

definition key_for_handle :: "'m map_ops \<Rightarrow> 'm \<Rightarrow> u64 \<Rightarrow> u8 list option" where
  "key_for_handle ops m handle = find (carries ops m handle) (mo_keys ops m)"

definition no_entry :: "u64 \<Rightarrow> string" where
  "no_entry handle = ''no entry for handle '' @ show_u64 handle"

text \<open>The map after a command and the counter it bumps, or the error with neither.\<close>

definition apply_change ::
  "'m map_ops \<Rightarrow> owner_command \<Rightarrow> 'm \<Rightarrow> owner_stats \<Rightarrow> string + ('m \<times> owner_stats)" where
  "apply_change ops cmd m st = (case cmd of
     Add ifindex handle netns \<Rightarrow>
       (let v = \<lparr>vc_vm_id = handle, vc_netns_inum = netns, vc_lifecycle_state = 0, vc_pad = [0, 0, 0]\<rparr> in
        case mo_update ops (u32_bytes ifindex) (ctx_as_bytes v) m of
          Inl _ \<Rightarrow> Inl (''adding ifindex '' @ show_u32 ifindex)
        | Inr m' \<Rightarrow> Inr (m', st\<lparr>os_adds := os_adds st + 1\<rparr>))
   | State handle s \<Rightarrow> (case key_for_handle ops m handle of
       None \<Rightarrow> Inl (no_entry handle)
     | Some key \<Rightarrow> and_then (mo_lookup ops m key) (\<lambda>cur. case cur of
         None \<Rightarrow> Inl (''entry for handle '' @ show_u64 handle @ '' vanished'')
       | Some b \<Rightarrow> let v = (ctx_from_bytes b)\<lparr>vc_lifecycle_state := s\<rparr> in
           and_then (mo_update ops key (ctx_as_bytes v) m) (\<lambda>m'.
             Inr (m', st\<lparr>os_states := os_states st + 1\<rparr>))))
   | Remove handle \<Rightarrow> (case key_for_handle ops m handle of
       None \<Rightarrow> Inl (no_entry handle)
     | Some key \<Rightarrow> and_then (mo_delete ops key m) (\<lambda>m'.
         Inr (m', st\<lparr>os_removes := os_removes st + 1\<rparr>))))"

definition apply_command ::
  "'m map_ops \<Rightarrow> owner_command \<Rightarrow> 'm \<Rightarrow> owner_stats \<Rightarrow> string + ('m \<times> owner_stats)" where
  "apply_command ops cmd m st = and_then (apply_change ops cmd m st) (\<lambda>(m', st').
     let live = of_nat (length (mo_keys ops m')) in
     Inr (m', st'\<lparr>os_final_live := live, os_peak_live := max (os_peak_live st') live\<rparr>))"

text \<open>One line of one peer: the reply, and the map and bookkeeping it leaves.\<close>

definition serve_line :: "'m map_ops \<Rightarrow> string \<Rightarrow> 'm \<times> owner_stats \<Rightarrow> string \<times> 'm \<times> owner_stats" where
  "serve_line ops line ms = (let (m, st) = ms in
     case and_then (parse_command (trim line)) (\<lambda>cmd. apply_command ops cmd m st) of
       Inr (m', st') \<Rightarrow> (''ok'' @ [newline], m', st')
     | Inl e \<Rightarrow> (''err '' @ e @ [newline], m, st\<lparr>os_errors := os_errors st + 1\<rparr>))"

text \<open>The serve loop over the lines in the order its polls read them.\<close>

fun serve :: "'m map_ops \<Rightarrow> string list \<Rightarrow> 'm \<times> owner_stats \<Rightarrow> string list \<times> 'm \<times> owner_stats" where
  "serve ops [] ms = ([], ms)"
| "serve ops (l # ls) ms = (let (reply, ms') = serve_line ops l ms;
     (replies, ms'') = serve ops ls ms' in (reply # replies, ms''))"

section \<open>Lemmas: the layout\<close>

lemma length_ctx_as_bytes [simp]: "length (ctx_as_bytes c) = VM_CTX_BYTES"
  by (simp add: ctx_as_bytes_def VM_CTX_BYTES_def)

lemma ctx_from_as_bytes [simp]: "ctx_from_bytes (ctx_as_bytes c) = c\<lparr>vc_pad := [0, 0, 0]\<rparr>"
  by (simp add: ctx_from_bytes_def ctx_as_bytes_def nth_append)

text \<open>A four-byte key is an interface index.\<close>

definition key_ifindex :: "u8 list \<Rightarrow> u32" where
  "key_ifindex k = word_of_int (bytes_int k)"

lemma key_ifindex_bytes [simp]: "key_ifindex (u32_bytes i) = i"
  by (simp add: key_ifindex_def)

lemma u32_bytes_key: "length k = 4 \<Longrightarrow> u32_bytes (key_ifindex k) = k"
proof -
  assume k: "length k = 4"
  have "0 \<le> bytes_int k" "bytes_int k < 2 ^ 32" using bytes_int_nonneg [of k] k by simp_all
  then have "uint (word_of_int (bytes_int k) :: u32) = bytes_int k" by (simp add: uint_word_of_int)
  then show ?thesis using int_bytes_int [of k] k by (simp add: u32_bytes_def key_ifindex_def)
qed

text \<open>What the datapath reads: the entry of an interface.\<close>

definition owner_entry :: "'m map_ops \<Rightarrow> 'm \<Rightarrow> u32 \<Rightarrow> vm_ctx option" where
  "owner_entry ops m i = (case mo_lookup ops m (u32_bytes i) of
     Inr (Some v) \<Rightarrow> Some (ctx_from_bytes v) | _ \<Rightarrow> None)"

section \<open>The kernel's map\<close>

text \<open>Keys are listed once each, a lookup sees the last update or deletion of its key, and an
  operation of the right sizes keeps the map valid.\<close>

locale bpf_map =
  fixes ops :: "'m map_ops"
    and valid :: "'m \<Rightarrow> bool"
  assumes keys_lookup: "valid m \<Longrightarrow> k \<in> set (mo_keys ops m) \<longleftrightarrow> (\<exists>v. mo_lookup ops m k = Inr (Some v))"
    and keys_distinct: "valid m \<Longrightarrow> distinct (mo_keys ops m)"
    and key_size: "valid m \<Longrightarrow> k \<in> set (mo_keys ops m) \<Longrightarrow> length k = 4"
    and value_size: "valid m \<Longrightarrow> mo_lookup ops m k = Inr (Some v) \<Longrightarrow> length v = VM_CTX_BYTES"
    and update_lookup: "valid m \<Longrightarrow> mo_update ops k v m = Inr m' \<Longrightarrow> length k = 4 \<Longrightarrow> length v = VM_CTX_BYTES \<Longrightarrow>
      valid m' \<and> mo_lookup ops m' k = Inr (Some v) \<and> (\<forall>j. j \<noteq> k \<longrightarrow> mo_lookup ops m' j = mo_lookup ops m j)"
    and delete_lookup: "valid m \<Longrightarrow> mo_delete ops k m = Inr m' \<Longrightarrow>
      valid m' \<and> mo_lookup ops m' k = Inr None \<and> (\<forall>j. j \<noteq> k \<longrightarrow> mo_lookup ops m' j = mo_lookup ops m j)"
begin

lemma entry_update:
  assumes "valid m" and "mo_update ops (u32_bytes i) (ctx_as_bytes c) m = Inr m'"
  shows "valid m'" and "owner_entry ops m' = (owner_entry ops m)(i \<mapsto> c\<lparr>vc_pad := [0, 0, 0]\<rparr>)"
  using update_lookup [OF assms] by (auto simp: owner_entry_def u32_bytes_inj fun_eq_iff)

lemma entry_delete:
  assumes "valid m" and "mo_delete ops (u32_bytes i) m = Inr m'"
  shows "valid m'" and "owner_entry ops m' = (owner_entry ops m)(i := None)"
  using delete_lookup [OF assms] by (auto simp: owner_entry_def u32_bytes_inj fun_eq_iff)

lemma key_found:
  assumes "valid m" and "key_for_handle ops m h = Some k"
  shows "\<exists>c b. k = u32_bytes (key_ifindex k) \<and> mo_lookup ops m k = Inr (Some b) \<and> ctx_from_bytes b = c
    \<and> owner_entry ops m (key_ifindex k) = Some c \<and> vc_vm_id c = h"
proof -
  have k: "k \<in> set (mo_keys ops m)" "carries ops m h k"
    using assms(2) by (auto simp: key_for_handle_def find_Some_iff)
  obtain b where b: "mo_lookup ops m k = Inr (Some b)" using keys_lookup [OF assms(1)] k(1) by blast
  have u: "u32_bytes (key_ifindex k) = k" using key_size [OF assms(1) k(1)] by (rule u32_bytes_key)
  show ?thesis using k(2) b u by (auto simp: carries_def owner_entry_def)
qed

lemma key_missing:
  assumes "valid m" and "key_for_handle ops m h = None" and "owner_entry ops m i = Some c"
  shows "vc_vm_id c \<noteq> h"
proof -
  obtain b where b: "mo_lookup ops m (u32_bytes i) = Inr (Some b)" and c: "c = ctx_from_bytes b"
    using assms(3) by (auto simp: owner_entry_def split: sum.splits option.splits)
  have "u32_bytes i \<in> set (mo_keys ops m)" using keys_lookup [OF assms(1)] b by blast
  then have "\<not> carries ops m h (u32_bytes i)" using assms(2) by (auto simp: key_for_handle_def find_None_iff)
  then show ?thesis using b c by (simp add: carries_def)
qed

text \<open>The abstract step on the partial map from interfaces to VM contexts.\<close>

lemma apply_step:
  assumes "valid m" and "apply_command ops cmd m st = Inr (m', st')"
  shows "valid m' \<and> (case cmd of
      Add i h ns \<Rightarrow> owner_entry ops m' = (owner_entry ops m)(i \<mapsto> \<lparr>vc_vm_id = h, vc_netns_inum = ns, vc_lifecycle_state = 0, vc_pad = [0, 0, 0]\<rparr>)
    | State h s \<Rightarrow> (\<exists>i c. owner_entry ops m i = Some c \<and> vc_vm_id c = h \<and> owner_entry ops m' = (owner_entry ops m)(i \<mapsto> c\<lparr>vc_lifecycle_state := s\<rparr>))
    | Remove h \<Rightarrow> (\<exists>i c. owner_entry ops m i = Some c \<and> vc_vm_id c = h \<and> owner_entry ops m' = (owner_entry ops m)(i := None)))"
proof (cases cmd)
  case (Add i h ns)
  then show ?thesis using assms entry_update [OF assms(1)]
    by (auto simp: apply_command_def apply_change_def result_simps Let_def split: sum.splits)
next
  case (State h s)
  then obtain k b where k: "key_for_handle ops m h = Some k" and b: "mo_lookup ops m k = Inr (Some b)"
    and up: "mo_update ops k (ctx_as_bytes ((ctx_from_bytes b)\<lparr>vc_lifecycle_state := s\<rparr>)) m = Inr m'"
    using assms(2) by (auto simp: apply_command_def apply_change_def result_simps Let_def split: option.splits)
  obtain c where ki: "k = u32_bytes (key_ifindex k)" and c: "ctx_from_bytes b = c"
    and e: "owner_entry ops m (key_ifindex k) = Some c" "vc_vm_id c = h"
    using key_found [OF assms(1) k] b by auto
  have pad: "c\<lparr>vc_lifecycle_state := s, vc_pad := [0, 0, 0]\<rparr> = c\<lparr>vc_lifecycle_state := s\<rparr>"
    using c by (auto simp: ctx_from_bytes_def)
  have "mo_update ops (u32_bytes (key_ifindex k)) (ctx_as_bytes (c\<lparr>vc_lifecycle_state := s\<rparr>)) m = Inr m'"
    using up ki c by metis
  from entry_update [OF assms(1) this] show ?thesis using State e pad by auto
next
  case (Remove h)
  then obtain k where k: "key_for_handle ops m h = Some k" and del: "mo_delete ops k m = Inr m'"
    using assms(2) by (auto simp: apply_command_def apply_change_def result_simps Let_def split: option.splits)
  obtain c where ki: "k = u32_bytes (key_ifindex k)"
    and e: "owner_entry ops m (key_ifindex k) = Some c" "vc_vm_id c = h"
    using key_found [OF assms(1) k] by auto
  have "mo_delete ops (u32_bytes (key_ifindex k)) m = Inr m'" using del ki by metis
  from entry_delete [OF assms(1) this] show ?thesis using Remove e by auto
qed

end

text \<open>The documented hash map with a ceiling, as the list of its entries.\<close>

type_synonym hash_map = "(u8 list \<times> u8 list) list"

definition hash_map_ops :: "nat \<Rightarrow> hash_map map_ops" where
  "hash_map_ops cap = \<lparr>mo_keys = map fst, mo_lookup = (\<lambda>m k. Inr (map_of m k)),
     mo_update = (\<lambda>k v m. if k \<in> fst ` set m then Inr (AList.update k v m)
        else if length m < cap then Inr (AList.update k v m) else Inl ''E2BIG''),
     mo_delete = (\<lambda>k m. if k \<in> fst ` set m then Inr (filter (\<lambda>e. fst e \<noteq> k) m) else Inl ''ENOENT'')\<rparr>"

definition hash_map_valid :: "hash_map \<Rightarrow> bool" where
  "hash_map_valid m \<longleftrightarrow> distinct (map fst m) \<and> (\<forall>e \<in> set m. length (fst e) = 4 \<and> length (snd e) = VM_CTX_BYTES)"

interpretation hash_map: bpf_map "hash_map_ops cap" hash_map_valid
proof unfold_locales
  fix m k
  assume v: "hash_map_valid m"
  show "(k \<in> set (mo_keys (hash_map_ops cap) m)) = (\<exists>v. mo_lookup (hash_map_ops cap) m k = Inr (Some v))"
    by (simp add: hash_map_ops_def image_iff) (metis map_of_SomeD domIff dom_map_of_conv_image_fst fst_conv image_iff option.exhaust)
  show "distinct (mo_keys (hash_map_ops cap) m)" using v by (simp add: hash_map_ops_def hash_map_valid_def)
  show "length k = 4" if "k \<in> set (mo_keys (hash_map_ops cap) m)"
    using v that by (auto simp: hash_map_ops_def hash_map_valid_def)
  show "length w = VM_CTX_BYTES" if "mo_lookup (hash_map_ops cap) m k = Inr (Some w)" for w
    using v that by (auto simp: hash_map_ops_def hash_map_valid_def dest: map_of_SomeD)
  show "hash_map_valid m' \<and> mo_lookup (hash_map_ops cap) m' k = Inr (Some w)
      \<and> (\<forall>j. j \<noteq> k \<longrightarrow> mo_lookup (hash_map_ops cap) m' j = mo_lookup (hash_map_ops cap) m j)"
    if "mo_update (hash_map_ops cap) k w m = Inr m'" "length k = 4" "length w = VM_CTX_BYTES" for w m'
  proof -
    have m': "m' = AList.update k w m" using that(1) by (auto simp: hash_map_ops_def split: if_splits)
    have "set (AList.update k w m) \<subseteq> insert (k, w) (set m)" by (induction m) auto
    then show ?thesis using v that
      by (auto simp: m' hash_map_ops_def hash_map_valid_def update_conv' distinct_update)
  qed
  show "hash_map_valid m' \<and> mo_lookup (hash_map_ops cap) m' k = Inr None
      \<and> (\<forall>j. j \<noteq> k \<longrightarrow> mo_lookup (hash_map_ops cap) m' j = mo_lookup (hash_map_ops cap) m j)"
    if "mo_delete (hash_map_ops cap) k m = Inr m'" for m'
  proof -
    have m': "m' = filter (\<lambda>e. fst e \<noteq> k) m" using that by (auto simp: hash_map_ops_def split: if_splits)
    have "map_of (filter (\<lambda>e. fst e \<noteq> k) m) j = (if j = k then None else map_of m j)" for j
      by (induction m) auto
    then show ?thesis using v
      by (auto simp: m' hash_map_ops_def hash_map_valid_def distinct_map_filter)
  qed
qed

section \<open>Lemmas: accounting\<close>

text \<open>After \<open>n\<close> lines: every line was counted once, and the occupancy is the map's.\<close>

definition accounted :: "'m map_ops \<Rightarrow> nat \<Rightarrow> 'm \<times> owner_stats \<Rightarrow> bool" where
  "accounted ops n ms \<longleftrightarrow> (let (m, st) = ms in
     os_adds st + os_states st + os_removes st + os_errors st = of_nat n
     \<and> os_final_live st = of_nat (length (mo_keys ops m)) \<and> os_final_live st \<le> os_peak_live st)"

lemma apply_change_counts:
  assumes "apply_change ops cmd m st = Inr (m', st')"
  shows "os_adds st' + os_states st' + os_removes st' + os_errors st'
    = os_adds st + os_states st + os_removes st + os_errors st + 1"
  using assms
  by (cases cmd) (auto simp: apply_change_def result_simps Let_def split: sum.splits option.splits)

lemma accounted_line:
  assumes "accounted ops n ms" and "serve_line ops l ms = (reply, ms')"
  shows "accounted ops (Suc n) ms'"
proof -
  obtain m st where ms: "ms = (m, st)" by (cases ms)
  show ?thesis
  proof (cases "and_then (parse_command (trim l)) (\<lambda>cmd. apply_command ops cmd m st)")
    case (Inl e)
    then have "ms' = (m, st\<lparr>os_errors := os_errors st + 1\<rparr>)" using assms(2) by (simp add: serve_line_def ms)
    then show ?thesis using assms(1) by (auto simp: accounted_def ms algebra_simps)
  next
    case (Inr ms1)
    then obtain m' st' where ms1: "ms1 = (m', st')" by (cases ms1)
    have ms': "ms' = (m', st')" using Inr assms(2) by (simp add: serve_line_def ms ms1)
    obtain cmd st1 where ch: "apply_change ops cmd m st = Inr (m', st1)"
      and st': "st' = st1\<lparr>os_final_live := of_nat (length (mo_keys ops m')),
        os_peak_live := max (os_peak_live st1) (of_nat (length (mo_keys ops m')))\<rparr>"
      using Inr by (auto simp: ms1 apply_command_def result_simps Let_def)
    show ?thesis using apply_change_counts [OF ch] assms(1)
      by (simp add: accounted_def ms ms' st' algebra_simps)
  qed
qed

lemma serve_accounted:
  "accounted ops n ms \<Longrightarrow> serve ops ls ms = (replies, ms') \<Longrightarrow>
     length replies = length ls \<and> accounted ops (n + length ls) ms'"
proof (induction ls arbitrary: ms n replies)
  case (Cons l ls)
  obtain reply ms1 where l: "serve_line ops l ms = (reply, ms1)" by (cases "serve_line ops l ms")
  obtain rs where r: "serve ops ls ms1 = (rs, ms')" and rs: "replies = reply # rs"
    using Cons.prems(2) by (auto simp: l split: prod.splits)
  show ?case using Cons.IH [OF accounted_line [OF Cons.prems(1) l] r] rs by simp
qed simp

section \<open>Properties\<close>

text \<open>The map value is the shared ABI: a context is 16 bytes, the handle little-endian in the
  first eight, the namespace in the next four, the state in the thirteenth and zeros
  after it, and reading the bytes back gives the context.\<close>

theorem ctx_round_trip:
  "length (ctx_as_bytes c) = 16
   \<and> take 8 (ctx_as_bytes c) = u64_bytes (vc_vm_id c)
   \<and> take 4 (drop 8 (ctx_as_bytes c)) = u32_bytes (vc_netns_inum c)
   \<and> drop 12 (ctx_as_bytes c) = [vc_lifecycle_state c, 0, 0, 0]
   \<and> ctx_from_bytes (ctx_as_bytes c) = c\<lparr>vc_pad := [0, 0, 0]\<rparr>"
  by (simp add: VM_CTX_BYTES_def) (simp add: ctx_as_bytes_def VM_CTX_BYTES_def numeral_eq_Suc)

text \<open>C34: A command that is accepted does to the map what it says and nothing more, seen by
  interface as the datapath sees it: an add sets the interface's context, running; a
  state change alters only the lifecycle byte of one entry that carries the handle; a
  removal drops one such entry. This holds for every map that obeys the kernel's laws.\<close>

theorem apply_refines:
  assumes "bpf_map ops valid" and "valid m" and "apply_command ops cmd m st = Inr (m', st')"
  shows "valid m' \<and> (case cmd of
      Add i h ns \<Rightarrow> owner_entry ops m' = (owner_entry ops m)(i \<mapsto>
        \<lparr>vc_vm_id = h, vc_netns_inum = ns, vc_lifecycle_state = 0, vc_pad = [0, 0, 0]\<rparr>)
    | State h s \<Rightarrow> (\<exists>i c. owner_entry ops m i = Some c \<and> vc_vm_id c = h
        \<and> owner_entry ops m' = (owner_entry ops m)(i \<mapsto> c\<lparr>vc_lifecycle_state := s\<rparr>))
    | Remove h \<Rightarrow> (\<exists>i c. owner_entry ops m i = Some c \<and> vc_vm_id c = h
        \<and> owner_entry ops m' = (owner_entry ops m)(i := None)))"
  by (rule bpf_map.apply_step [OF assms])

theorem apply_refines_witness:
  "\<exists>m' st'. apply_command (hash_map_ops 2) (Add 7 3 1) [] stats_zero = Inr (m', st')
     \<and> owner_entry (hash_map_ops 2) m' 7
       = Some \<lparr>vc_vm_id = 3, vc_netns_inum = 1, vc_lifecycle_state = 0, vc_pad = [0, 0, 0]\<rparr>"
proof -
  have "is_ok (apply_command (hash_map_ops 2) (Add 7 3 1) [] stats_zero)" by code_simp
  then obtain m' st' where a: "apply_command (hash_map_ops 2) (Add 7 3 1) [] stats_zero = Inr (m', st')"
    by (auto simp: is_ok_iff)
  moreover have "hash_map_valid []" by (simp add: hash_map_valid_def)
  ultimately show ?thesis
    using apply_refines [OF hash_map.bpf_map_axioms [of 2] _ a] by auto
qed

text \<open>The owner answers every line once and accounts for it: over any sequence of lines on an
  empty map, adds, states, removes and errors add up to the number of lines, the final
  occupancy is the number of entries left in the map, and the peak is at least that.\<close>

theorem serve_accounting:
  assumes "mo_keys ops m = []" and "serve ops ls (m, stats_zero) = (replies, m', st')"
  shows "length replies = length ls
    \<and> os_adds st' + os_states st' + os_removes st' + os_errors st' = of_nat (length ls)
    \<and> os_final_live st' = of_nat (length (mo_keys ops m')) \<and> os_final_live st' \<le> os_peak_live st'"
proof -
  have "accounted ops 0 (m, stats_zero)" using assms(1) by (simp add: accounted_def stats_zero_def)
  from serve_accounted [OF this assms(2)] show ?thesis by (auto simp: accounted_def)
qed

theorem serve_accounting_witness:
  "\<exists>replies m' st'. serve (hash_map_ops 2) [''add 7 0 1'', ''bogus'', ''remove 0''] ([], stats_zero) = (replies, m', st')
     \<and> length replies = 3 \<and> os_adds st' + os_states st' + os_removes st' + os_errors st' = 3"
proof -
  obtain replies m' st' where s: "serve (hash_map_ops 2) [''add 7 0 1'', ''bogus'', ''remove 0''] ([], stats_zero)
      = (replies, m', st')"
    by (cases "serve (hash_map_ops 2) [''add 7 0 1'', ''bogus'', ''remove 0''] ([], stats_zero)")
  have "mo_keys (hash_map_ops 2) [] = []" by (simp add: hash_map_ops_def)
  from serve_accounting [OF this s] have "length replies = 3"
    "os_adds st' + os_states st' + os_removes st' + os_errors st' = 3" by simp_all
  then show ?thesis using s by blast
qed

end
