(* ===== verification/AttribLink.thy ===== *)
theory AttribLink
  imports Netattrib AttribOwner
begin

text \<open>
  The two ends of the attribution wire together: the orchestrator's client
  (\<open>Netattrib\<close>) and the owner of the map (\<open>AttribOwner\<close>). \<open>link\<close> is the client's
  channel with the owner at its other end: a line that is written is served, and its reply
  is read back from the bytes the owner wrote. The lemmas show that both ends agree on the
  wire, and that the map the datapath reads and the table the run reports stay consistent.
\<close>

section \<open>The channel to the owner\<close>

text \<open>\<open>read_line\<close>: up to and including the first LF; without one the read times out.\<close>

definition take_line :: "string \<Rightarrow> (string + string) \<times> string" where
  "take_line s = (if newline \<in> set s
     then (Inr (takeWhile (\<lambda>c. c \<noteq> newline) s @ [newline]), tl (dropWhile (\<lambda>c. c \<noteq> newline) s))
     else (Inl ''Resource temporarily unavailable (os error 11)'', []))"

definition link :: "'m map_ops \<Rightarrow> (('m \<times> owner_stats) \<times> string) channel" where
  "link ops = \<lparr>ch_write = (\<lambda>line (ms, pending). let (reply, ms') = serve_line ops line ms in
       (Inr (), ms', pending @ reply)),
     ch_flush = (\<lambda>s. (Inr (), s)),
     ch_read = (\<lambda>(ms, pending). let (r, rest) = take_line pending in (r, ms, rest))\<rparr>"

lemma newline_char: "newline = CHR 0x0A"
  by code_simp

text \<open>A map whose errors, as the kernel's do, are one line.\<close>

locale quiet_map = bpf_map +
  assumes update_error: "mo_update ops k v m = Inl e \<Longrightarrow> newline \<notin> set e"
    and lookup_error: "mo_lookup ops m k = Inl e \<Longrightarrow> newline \<notin> set e"
    and delete_error: "mo_delete ops k m = Inl e \<Longrightarrow> newline \<notin> set e"

interpretation quiet_hash_map: quiet_map "hash_map_ops cap" hash_map_valid
  by unfold_locales (auto simp: hash_map_ops_def newline_char split: if_splits)

section \<open>Lemmas: the wire\<close>

lemma split_on_no_sep: "t \<in> set (split_on P s) \<Longrightarrow> \<forall>c \<in> set t. \<not> P c"
proof (induction s arbitrary: t)
  case (Cons c s)
  show ?case
  proof (cases "P c")
    case True
    then show ?thesis using Cons by auto
  next
    case False
    obtain u us where u: "split_on P s = u # us" by (cases "split_on P s") simp
    then have "t = c # u \<or> t \<in> set us" using Cons.prems False by auto
    moreover have "\<forall>d \<in> set v. \<not> P d" if "v = u \<or> v \<in> set us" for v
      using Cons.IH [of v] u that by auto
    ultimately show ?thesis using False by fastforce
  qed
qed simp

lemma split_ws_tokens: "t \<in> set (split_ws s) \<Longrightarrow> token t"
  by (auto simp: split_ws_def token_def dest: split_on_no_sep)

lemma token_one_line: "token t \<Longrightarrow> newline \<notin> set t"
  using ws_newline by (auto simp: token_def)

lemmas number_one_line = token_one_line [OF u64_codec.enc_token] token_one_line [OF u32_codec.enc_token]

lemma trim_err: "\<exists>u. trim (''err'' @ t) = ''err'' @ u"
proof -
  have "trim (''err'' @ t) = rev (dropWhile is_ws (rev t @ ''rre''))"
    by (simp add: trim_def is_ws_def)
  also have "\<dots> = ''err'' @ rev (dropWhile is_ws (rev t))"
    using dropWhile_append3 [of is_ws "CHR ''r''" "rev t" "''re''"] by (simp add: is_ws_def)
  finally show ?thesis by blast
qed

lemma command_reply_err: "\<exists>e. command_reply line (''err '' @ t) = Inl e"
proof -
  obtain u where "trim (''err'' @ (CHR '' '' # t)) = ''err'' @ u" using trim_err by blast
  then show ?thesis by (simp add: command_reply_def strip_prefix_def starts_with_def)
qed

lemma command_reply_ok: "command_reply line (''ok'' @ [newline]) = Inr ()"
proof -
  have "trim (''ok'' @ [newline]) = ''ok''" by (rule trim_id) (simp_all add: is_ws_def)
  then show ?thesis by (simp add: command_reply_def strip_prefix_def starts_with_def)
qed

lemma next_field_one_line:
  assumes "newline \<notin> set needs"
  shows "next_u64_field needs fs = Inl e \<Longrightarrow> newline \<notin> set e"
    and "next_u32_field needs fs = Inl e \<Longrightarrow> newline \<notin> set e"
proof -
  have scan: "scan_digits limit acc s = Inl d \<Longrightarrow> newline \<notin> set d" for limit acc s d
    by (induction limit acc s rule: scan_digits.induct) (auto simp: newline_char split: if_splits)
  have "newline \<notin> set (int_error limit x)" for limit x
    using scan [of limit 0 "drop_plus x"]
    by (auto simp: int_error_def newline_char split: sum.splits)
  then show "next_u64_field needs fs = Inl e \<Longrightarrow> newline \<notin> set e"
    and "next_u32_field needs fs = Inl e \<Longrightarrow> newline \<notin> set e"
    using assms by (auto simp: next_u64_field_def next_u32_field_def split: list.splits option.splits)
qed


lemma state_one_line:
  assumes "parse_command line = Inl e" and verb: "split_ws line = ''state'' # fs"
  shows "newline \<notin> set e"
proof (cases "next_u64_field ''state needs a handle'' fs")
  case (Inl d)
  then have "newline \<notin> set d" by (rule next_field_one_line(1) [rotated]) (simp add: newline_char)
  then show ?thesis using assms Inl by (simp add: parse_command_def)
next
  case (Inr hg)
  obtain h gs where hg: "hg = (h, gs)" by (cases hg)
  show ?thesis
  proof (cases gs)
    case Nil
    then show ?thesis using assms Inr hg by (auto simp: parse_command_def newline_char)
  next
    case (Cons name gs')
    have e: "e = ''unknown state '' @ [CHR 0x27] @ name @ [CHR 0x27]"
      using assms Inr hg Cons by (simp add: parse_command_def split: option.splits)
    have "name \<in> set fs" using Inr hg Cons by (auto simp: next_u64_field_def split: list.splits option.splits)
    then have "newline \<notin> set name" using split_ws_tokens [of name line] verb by (simp add: token_one_line)
    then show ?thesis using e by (auto simp: newline_char)
  qed
qed

lemma parse_command_one_line:
  assumes "parse_command line = Inl e"
  shows "newline \<notin> set e"
proof (cases "split_ws line")
  case Nil
  then show ?thesis using assms by (auto simp: parse_command_def newline_char)
next
  case (Cons verb fs)
  note simps = parse_command_def Cons result_simps
  consider "verb = ''add''" | "verb = ''state''" | "verb = ''remove''"
    | "verb \<notin> {''add'', ''state'', ''remove''}" by blast
  then show ?thesis
  proof cases
    case 1
    then consider "next_u32_field ''add needs an ifindex'' fs = Inl e"
      | gs where "next_u64_field ''add needs a handle'' gs = Inl e"
      | gs where "next_u32_field ''add needs a netns_inum'' gs = Inl e"
      using assms by (auto simp: simps)
    then show ?thesis
      by cases (erule next_field_one_line [rotated]; simp add: newline_char)+
  next
    case 2
    then show ?thesis using state_one_line [OF assms] Cons by simp
  next
    case 3
    then have "next_u64_field ''remove needs a handle'' fs = Inl e"
      using assms by (auto simp: simps)
    then show ?thesis by (rule next_field_one_line(1) [rotated]) (simp add: newline_char)
  next
    case 4
    then have "e = ''unknown command '' @ [CHR 0x27] @ verb @ [CHR 0x27]"
      using assms by (auto simp: parse_command_def Cons split: if_splits)
    then show ?thesis using split_ws_tokens [of verb line] token_one_line Cons by (auto simp: newline_char)
  qed
qed

lemma take_line_reply: "newline \<notin> set r \<Longrightarrow> take_line (r @ [newline]) = (Inr (r @ [newline]), [])"
proof -
  assume "newline \<notin> set r"
  then have all: "\<forall>c \<in> set r. c \<noteq> newline" by metis
  then have "takeWhile (\<lambda>c. c \<noteq> newline) (r @ [newline]) = r" by (simp add: takeWhile_append2)
  moreover have "dropWhile (\<lambda>c. c \<noteq> newline) (r @ [newline]) = [newline]"
    using all by (simp add: dropWhile_append2)
  ultimately show ?thesis by (simp add: take_line_def)
qed

context quiet_map
begin

lemma apply_one_line:
  assumes "apply_command ops cmd m st = Inl e"
  shows "newline \<notin> set e"
proof (cases cmd)
  case (Add i h ns)
  then have "e = ''adding ifindex '' @ show_u32 i"
    using assms by (auto simp: apply_command_def apply_change_def result_simps Let_def split: sum.splits)
  then show ?thesis using number_one_line by (auto simp: newline_char)
next
  case (State h s)
  then consider "e = no_entry h" | k where "mo_lookup ops m k = Inl e"
    | "e = ''entry for handle '' @ show_u64 h @ '' vanished''" | k v where "mo_update ops k v m = Inl e"
    using assms by (auto simp: apply_command_def apply_change_def result_simps Let_def
        split: option.splits)
  then show ?thesis
    using number_one_line update_error lookup_error by cases (auto simp: newline_char no_entry_def)
next
  case (Remove h)
  then consider "e = no_entry h" | k where "mo_delete ops k m = Inl e"
    using assms by (auto simp: apply_command_def apply_change_def result_simps Let_def
        split: option.splits)
  then show ?thesis
    using number_one_line delete_error by cases (auto simp: newline_char no_entry_def)
qed

text \<open>A command over the link: the owner's verdict on it, and the channel as it was before.\<close>

lemma link_command:
  assumes "\<not> cl_poisoned c" and "cl_stream c = ((m, st), [])"
  shows "case and_then (parse_command (trim (line @ [newline]))) (\<lambda>cmd. apply_command ops cmd m st) of
      Inr ms \<Rightarrow> command (link ops) line c = (Inr (), \<lparr>cl_stream = (ms, []), cl_poisoned = False\<rparr>)
    | Inl _ \<Rightarrow> \<exists>msg. command (link ops) line c = (Inl msg,
        \<lparr>cl_stream = ((m, st\<lparr>os_errors := os_errors st + 1\<rparr>), []), cl_poisoned = False\<rparr>)"
proof (cases "and_then (parse_command (trim (line @ [newline]))) (\<lambda>cmd. apply_command ops cmd m st)")
  case (Inl e)
  have "newline \<notin> set e"
    using Inl parse_command_one_line apply_one_line by (auto simp: result_simps)
  then have "take_line ((''err '' @ e) @ [newline]) = (Inr ((''err '' @ e) @ [newline]), [])"
    by (intro take_line_reply) (auto simp: newline_char)
  moreover obtain msg where "command_reply line (''err '' @ e @ [newline]) = Inl msg"
    using command_reply_err by blast
  ultimately show ?thesis
    using assms by (simp add: Inl command_def link_def serve_line_def)
next
  case (Inr ms)
  have "take_line (''ok'' @ [newline]) = (Inr (''ok'' @ [newline]), [])"
    by (rule take_line_reply) (simp add: newline_char)
  then show ?thesis
    using assms command_reply_ok by (simp add: Inr command_def link_def serve_line_def split: prod.splits)
qed

text \<open>What each of the three client calls does to the map the datapath reads.\<close>

lemma link_ok_step:
  assumes "\<not> cl_poisoned c" and "cl_stream c = ((m, st), [])" and "valid m"
    and parse: "parse_command (trim (line @ [newline])) = Inr cmd"
    and run: "command (link ops) line c = (r, c')"
  obtains m' st' where "cl_stream c' = ((m', st'), [])" and "\<not> cl_poisoned c'" and "valid m'"
    and "case r of Inr _ \<Rightarrow> apply_command ops cmd m st = Inr (m', st')
      | Inl _ \<Rightarrow> m' = m \<and> \<not> is_ok (apply_command ops cmd m st)"
proof (cases "apply_command ops cmd m st")
  case (Inl e)
  then show ?thesis
    using link_command [OF assms(1,2), of line] parse run that assms(3) by auto
next
  case (Inr ms)
  obtain m' st' where ms: "ms = (m', st')" by (cases ms)
  have "valid m'" using apply_step [OF assms(3) Inr [unfolded ms]] by blast
  then show ?thesis
    using link_command [OF assms(1,2), of line] parse run that [of m' st'] Inr ms by auto
qed

end

lemma split_line:
  assumes "ts \<noteq> []" and "\<forall>t \<in> set ts. token t"
  shows "split_ws (trim (str_join '' '' ts @ [newline])) = ts"
  using trim_join(2) [OF assms] split_ws_join [OF assms(2)] by metis

lemma token_words: "token ''add''" "token ''state''" "token ''remove''" "token (state_name s)"
  by (simp_all add: token_def is_ws_def state_name_def)

lemma state_name_parses: "state_from_name (state_name s) = Some (if s \<in> {1, 2, 3} then s else 0)"
proof -
  have names: "state_from_name ''RUNNING'' = Some 0" "state_from_name ''PAUSING'' = Some 1"
    "state_from_name ''PAUSED'' = Some 2" "state_from_name ''RESUMING'' = Some 3"
    by code_simp+
  show ?thesis by (auto simp: state_name_def lifecycle_defs names)
qed

lemma parse_lines:
  shows parse_add_line: "parse_command (trim (add_line i h n @ [newline])) = Inr (Add i h n)"
    and parse_state_line: "parse_command (trim (state_line h s @ [newline]))
      = Inr (State h (if s \<in> {1, 2, 3} then s else 0))"
    and parse_remove_line: "parse_command (trim (remove_line h @ [newline])) = Inr (Remove h)"
proof -
  note tok = u64_codec.enc_token u32_codec.enc_token token_words
  note dec = u64_codec.decode_enc u32_codec.decode_enc
  have "split_ws (trim (add_line i h n @ [newline])) = [''add'', show_u32 i, show_u64 h, show_u32 n]"
    unfolding add_line_def by (rule split_line) (simp_all add: tok)
  then show "parse_command (trim (add_line i h n @ [newline])) = Inr (Add i h n)"
    by (simp add: parse_command_def next_u32_field_def next_u64_field_def dec)
  have "split_ws (trim (state_line h s @ [newline])) = [''state'', show_u64 h, state_name s]"
    unfolding state_line_def by (rule split_line) (simp_all add: tok)
  then show "parse_command (trim (state_line h s @ [newline]))
      = Inr (State h (if s \<in> {1, 2, 3} then s else 0))"
    by (simp add: parse_command_def next_u64_field_def dec state_name_parses)
  have "split_ws (trim (remove_line h @ [newline])) = [''remove'', show_u64 h]"
    unfolding remove_line_def by (rule split_line) (simp_all add: tok)
  then show "parse_command (trim (remove_line h @ [newline])) = Inr (Remove h)"
    by (simp add: parse_command_def next_u64_field_def dec)
qed

section \<open>Lemmas: the session over the link\<close>

context quiet_map
begin

lemma register_over_link:
  assumes "valid m" and "\<not> cl_poisoned (se_client se)" and "cl_stream (se_client se) = ((m, st), [])"
    and run: "register (link ops) vm tap mac i ns se = (r, se')"
  shows "\<exists>m' st'. cl_stream (se_client se') = ((m', st'), []) \<and> \<not> cl_poisoned (se_client se') \<and> valid m' \<and>
    (case r of
       Inr h \<Rightarrow> h = ht_next (se_table se)
         \<and> table_get (se_table se') = (table_get (se_table se))(h \<mapsto> provenance_of h (vm, tap, mac, i, ns))
         \<and> owner_entry ops m' = (owner_entry ops m)(i \<mapsto>
             \<lparr>vc_vm_id = h, vc_netns_inum = ns, vc_lifecycle_state = 0, vc_pad = [0, 0, 0]\<rparr>)
     | Inl _ \<Rightarrow> m' = m \<and> table_get (se_table se') = table_get (se_table se))"
proof -
  let ?h = "ht_next (se_table se)"
  obtain q c' where q: "command (link ops) (add_line i ?h ns) (se_client se) = (q, c')"
    by (cases "command (link ops) (add_line i ?h ns) (se_client se)")
  obtain m' st' where c': "cl_stream c' = ((m', st'), [])" "\<not> cl_poisoned c'" "valid m'"
    and out: "case q of Inr _ \<Rightarrow> apply_command ops (Add i ?h ns) m st = Inr (m', st')
      | Inl _ \<Rightarrow> m' = m \<and> \<not> is_ok (apply_command ops (Add i ?h ns) m st)"
    using link_ok_step [OF assms(2,3,1) parse_add_line q] by blast
  show ?thesis
  proof (cases q)
    case (Inl e)
    then have "r = Inl e" "se_client se' = c'" "table_get (se_table se') = table_get (se_table se)"
      using run q by (auto simp: register_def reserve_def client_add_def table_get_def)
    then show ?thesis using c' out Inl by auto
  next
    case (Inr u)
    then have r: "r = Inr ?h" "se_client se' = c'"
      using run q by (auto simp: register_def reserve_def client_add_def)
    moreover have "table_get (se_table se') = (table_get (se_table se))(?h \<mapsto> provenance_of ?h (vm, tap, mac, i, ns))"
      using register_step(2) [OF run] r by (auto simp: fun_eq_iff)
    ultimately show ?thesis using c' out Inr apply_step [OF assms(1), of "Add i ?h ns"] by auto
  qed
qed

lemma change_over_link:
  assumes "valid m" and "\<not> cl_poisoned (se_client se)" and "cl_stream (se_client se) = ((m, st), [])"
    and run: "set_state (link ops) h s se = (r, se') \<or> deregister (link ops) h se = (r, se')"
  shows "\<exists>m' st'. cl_stream (se_client se') = ((m', st'), []) \<and> \<not> cl_poisoned (se_client se') \<and> valid m'
    \<and> se_table se' = se_table se
    \<and> (\<forall>i c. owner_entry ops m' i = Some c \<longrightarrow> (\<exists>c0. owner_entry ops m i = Some c0
         \<and> vc_vm_id c0 = vc_vm_id c \<and> vc_netns_inum c0 = vc_netns_inum c))"
proof -
  obtain line cmd c' where q: "command (link ops) line (se_client se) = (r, c')"
      and se': "se' = se\<lparr>se_client := c'\<rparr>"
      and parse: "parse_command (trim (line @ [newline])) = Inr cmd"
      and cmd: "(\<exists>s. cmd = State h s) \<or> cmd = Remove h"
    using run parse_state_line [of h s] parse_remove_line [of h]
    by (auto simp: set_state_def deregister_def client_state_def client_remove_def split: prod.splits)
  obtain m' st' where c': "cl_stream c' = ((m', st'), [])" "\<not> cl_poisoned c'" "valid m'"
    and out: "case r of Inr _ \<Rightarrow> apply_command ops cmd m st = Inr (m', st')
      | Inl _ \<Rightarrow> m' = m \<and> \<not> is_ok (apply_command ops cmd m st)"
    using link_ok_step [OF assms(2,3,1) parse q] by blast
  have "\<forall>i c. owner_entry ops m' i = Some c \<longrightarrow> (\<exists>c0. owner_entry ops m i = Some c0
         \<and> vc_vm_id c0 = vc_vm_id c \<and> vc_netns_inum c0 = vc_netns_inum c)"
  proof (cases r)
    case (Inr u)
    then have "apply_command ops cmd m st = Inr (m', st')" using out by simp
    from apply_step [OF assms(1) this] cmd show ?thesis by (fastforce split: if_splits)
  qed (use out in auto)
  then show ?thesis using c' se' by auto
qed

end

text \<open>What a run does with the session, in any order.\<close>

datatype session_action = Register vm_request | SetState u64 u8 | Deregister u64

fun run_action :: "'c channel \<Rightarrow> session_action \<Rightarrow> 'c session \<Rightarrow> 'c session" where
  "run_action ch (Register (vm, tap, mac, i, ns)) se = snd (register ch vm tap mac i ns se)"
| "run_action ch (SetState h s) se = snd (set_state ch h s se)"
| "run_action ch (Deregister h) se = snd (deregister ch h se)"

definition run_actions :: "'c channel \<Rightarrow> session_action list \<Rightarrow> 'c session \<Rightarrow> 'c session" where
  "run_actions ch acts se = fold (run_action ch) acts se"

text \<open>Every VM the datapath can attribute is one the table knows, on the same interface.\<close>

definition in_step :: "'m map_ops \<Rightarrow> 'm \<Rightarrow> handle_table \<Rightarrow> bool" where
  "in_step ops m t \<longleftrightarrow> (\<forall>i c. owner_entry ops m i = Some c \<longrightarrow>
     (\<exists>p. table_get t (vc_vm_id c) = Some p \<and> vp_ifindex p = i \<and> vp_netns_inum p = vc_netns_inum c))"

definition link_inv :: "'m map_ops \<Rightarrow> ('m \<Rightarrow> bool) \<Rightarrow> nat \<Rightarrow> (('m \<times> owner_stats) \<times> string) session \<Rightarrow> bool" where
  "link_inv ops valid n se \<longleftrightarrow> \<not> cl_poisoned (se_client se)
     \<and> (\<exists>m st. cl_stream (se_client se) = ((m, st), []) \<and> valid m \<and> in_step ops m (se_table se))
     \<and> ht_next (se_table se) = of_nat n
     \<and> (\<forall>h p. table_get (se_table se) h = Some p \<longrightarrow> (\<exists>i < n. h = of_nat i))"

context quiet_map
begin

lemma link_inv_register:
  assumes inv: "link_inv ops valid n se" and n: "n < 2 ^ 64"
    and run: "register (link ops) vm tap mac i ns se = (r, se')"
  shows "link_inv ops valid (Suc n) se'"
proof -
  let ?t = "se_table se" and ?t' = "se_table se'"
  obtain m st where np: "\<not> cl_poisoned (se_client se)" and c: "cl_stream (se_client se) = ((m, st), [])"
    and v: "valid m" and step: "in_step ops m ?t" and nx: "ht_next ?t = of_nat n"
    and dom: "\<forall>h p. table_get ?t h = Some p \<longrightarrow> (\<exists>i < n. h = of_nat i)"
    using inv by (auto simp: link_inv_def)
  obtain m' st' where c': "cl_stream (se_client se') = ((m', st'), [])" "\<not> cl_poisoned (se_client se')" "valid m'"
    and out: "case r of
       Inr h \<Rightarrow> h = ht_next ?t
         \<and> table_get ?t' = (table_get ?t)(h \<mapsto> provenance_of h (vm, tap, mac, i, ns))
         \<and> owner_entry ops m' = (owner_entry ops m)(i \<mapsto>
             \<lparr>vc_vm_id = h, vc_netns_inum = ns, vc_lifecycle_state = 0, vc_pad = [0, 0, 0]\<rparr>)
     | Inl _ \<Rightarrow> m' = m \<and> table_get ?t' = table_get ?t"
    using register_over_link [OF v np c run] by blast
  have nx': "ht_next ?t' = of_nat (Suc n)" using register_step(1) [OF run] nx by simp
  have fresh: "table_get ?t (of_nat n) = None"
  proof (rule ccontr)
    assume "table_get ?t (of_nat n) \<noteq> None"
    then obtain j where "j < n" and "(of_nat n :: u64) = of_nat j" using dom by blast
    then show False using n of_nat_u64_inj [of n j] by simp
  qed
  have "in_step ops m' ?t' \<and> (\<forall>h p. table_get ?t' h = Some p \<longrightarrow> (\<exists>i < Suc n. h = of_nat i))"
  proof (cases r)
    case (Inl e)
    then have "m' = m" "table_get ?t' = table_get ?t" using out by auto
    then show ?thesis using step dom less_SucI by (metis in_step_def)
  next
    case (Inr h)
    then have h: "h = of_nat n" and t': "table_get ?t' = (table_get ?t)(h \<mapsto> provenance_of h (vm, tap, mac, i, ns))"
      and m': "owner_entry ops m' = (owner_entry ops m)(i \<mapsto>
             \<lparr>vc_vm_id = h, vc_netns_inum = ns, vc_lifecycle_state = 0, vc_pad = [0, 0, 0]\<rparr>)"
      using out nx by auto
    have "in_step ops m' ?t'"
      using step fresh h by (fastforce simp: in_step_def t' m' provenance_of_def)
    moreover have "\<forall>g p. table_get ?t' g = Some p \<longrightarrow> (\<exists>i < Suc n. g = of_nat i)"
      using dom h less_SucI by (metis t' fun_upd_other lessI)
    ultimately show ?thesis by blast
  qed
  then show ?thesis using c' nx' by (simp add: link_inv_def)
qed

lemma link_inv_change:
  assumes inv: "link_inv ops valid n se"
    and run: "set_state (link ops) h s se = (r, se') \<or> deregister (link ops) h se = (r, se')"
  shows "link_inv ops valid n se'"
proof -
  obtain m st where np: "\<not> cl_poisoned (se_client se)" and c: "cl_stream (se_client se) = ((m, st), [])"
    and v: "valid m" and step: "in_step ops m (se_table se)"
    using inv by (auto simp: link_inv_def)
  obtain m' st' where c': "cl_stream (se_client se') = ((m', st'), [])" "\<not> cl_poisoned (se_client se')" "valid m'"
    and t: "se_table se' = se_table se"
    and kept: "\<And>i c. owner_entry ops m' i = Some c \<Longrightarrow> \<exists>c0. owner_entry ops m i = Some c0
         \<and> vc_vm_id c0 = vc_vm_id c \<and> vc_netns_inum c0 = vc_netns_inum c"
    using change_over_link [OF v np c run] by blast
  have "in_step ops m' (se_table se')"
    unfolding in_step_def t using step [unfolded in_step_def] kept by metis
  then show ?thesis using inv c' t by (simp add: link_inv_def)
qed

lemma link_inv_actions:
  "link_inv ops valid n se \<Longrightarrow> n + length acts \<le> 2 ^ 64 \<Longrightarrow>
     \<exists>k. link_inv ops valid k (run_actions (link ops) acts se)"
proof (induction acts arbitrary: n se)
  case Nil
  then show ?case by (auto simp: run_actions_def)
next
  case (Cons a acts)
  have "\<exists>k \<le> Suc n. link_inv ops valid k (run_action (link ops) a se)"
  proof (cases a)
    case (Register q)
    obtain vm tap mac i ns where q: "q = (vm, tap, mac, i, ns)" by (cases q)
    show ?thesis
      using link_inv_register [OF Cons.prems(1) _ prod.collapse [symmetric]] Cons.prems(2)
      by (auto simp: Register q)
  next
    case (SetState h s)
    then show ?thesis
      using link_inv_change [OF Cons.prems(1) disjI1 [OF prod.collapse [symmetric]]] by (auto intro!: exI [of _ n])
  next
    case (Deregister h)
    then show ?thesis
      using link_inv_change [OF Cons.prems(1) disjI2 [OF prod.collapse [symmetric]]] by (auto intro!: exI [of _ n])
  qed
  then obtain k where k: "k \<le> Suc n" "link_inv ops valid k (run_action (link ops) a se)" by blast
  from Cons.IH [OF k(2)] k(1) Cons.prems(2) show ?case by (simp add: run_actions_def)
qed

end

section \<open>Properties\<close>

text \<open>Both ends agree on the wire: each line the client writes, its newline included, is
  parsed by the owner to the command the client meant, for every interface, handle and
  namespace; a state byte outside the four lifecycle states goes over as running.\<close>

theorem wire_round_trip:
  "parse_command (trim (add_line i h n @ [newline])) = Inr (Add i h n)
   \<and> parse_command (trim (state_line h s @ [newline])) = Inr (State h (if s \<in> {1, 2, 3} then s else 0))
   \<and> parse_command (trim (remove_line h @ [newline])) = Inr (Remove h)"
  by (simp only: parse_lines simp_thms)

text \<open>Registering a VM over the link is all or nothing: either the call returns the fresh
  handle, the map has the interface's context with it, running, and the table has the
  VM's provenance under it, or it returns an error and neither the map nor the table has
  changed. In both cases the channel is left ready for the next command.\<close>

theorem register_reaches_map:
  assumes "quiet_map ops valid" and "valid m" and "\<not> cl_poisoned (se_client se)"
    and "cl_stream (se_client se) = ((m, st), [])"
    and "register (link ops) vm tap mac i ns se = (r, se')"
  shows "\<exists>m' st'. cl_stream (se_client se') = ((m', st'), []) \<and> \<not> cl_poisoned (se_client se') \<and> valid m' \<and>
    (case r of
       Inr h \<Rightarrow> h = ht_next (se_table se)
         \<and> table_get (se_table se') = (table_get (se_table se))(h \<mapsto> provenance_of h (vm, tap, mac, i, ns))
         \<and> owner_entry ops m' = (owner_entry ops m)(i \<mapsto>
             \<lparr>vc_vm_id = h, vc_netns_inum = ns, vc_lifecycle_state = 0, vc_pad = [0, 0, 0]\<rparr>)
     | Inl _ \<Rightarrow> m' = m \<and> table_get (se_table se') = table_get (se_table se))"
  by (rule quiet_map.register_over_link [OF assms])

text \<open>A session just connected to an owner with an empty map.\<close>

definition fresh_session :: "((hash_map \<times> owner_stats) \<times> string) session" where
  "fresh_session = \<lparr>se_client = \<lparr>cl_stream = (([], stats_zero), []), cl_poisoned = False\<rparr>, se_table = table_new\<rparr>"

lemma fresh_hash_map: "hash_map_valid []" "owner_entry (hash_map_ops cap) [] = Map.empty"
  by (auto simp: hash_map_valid_def owner_entry_def hash_map_ops_def fun_eq_iff)

theorem register_reaches_map_witness:
  "\<exists>r se'. register (link (hash_map_ops 2)) ''01H'' ''tap0'' ''02:00:00:00:00:00'' 7 1 fresh_session = (r, se')
     \<and> is_ok r \<and> (\<exists>p. table_get (se_table se') 0 = Some p \<and> vp_vm_id p = ''01H'')"
proof -
  let ?run = "register (link (hash_map_ops 2)) ''01H'' ''tap0'' ''02:00:00:00:00:00'' 7 1 fresh_session"
  obtain r se' where run: "?run = (r, se')" by (cases ?run)
  have "is_ok (fst ?run)" by code_simp
  then have ok: "is_ok r" by (simp add: run)
  then obtain h where r: "r = Inr h" by (auto simp: is_ok_iff)
  have "cl_stream (se_client fresh_session) = (([], stats_zero), [])"
    "\<not> cl_poisoned (se_client fresh_session)" "ht_next (se_table fresh_session) = 0"
    by (simp_all add: fresh_session_def table_new_def)
  then show ?thesis
    using register_reaches_map [OF quiet_hash_map.quiet_map_axioms fresh_hash_map(1) _ _ run] run ok
    by (auto simp: r provenance_of_def)
qed



end
