(* ===== verification/RunLink.thy ===== *)
theory RunLink
  imports ExecuteRun AttribLink
begin

text \<open>
  A whole run with attribution against the owner of the map: \<open>ExecuteRun\<close> with the channel
  of \<open>AttribLink\<close>. The world is what the target, workload and gadgets act on next to the
  owner's side of the socket. The lemmas show that the run leaves nothing of itself in the
  map the datapath reads.
\<close>

section \<open>A run linked to the owner\<close>

type_synonym ('v, 'm) linked = "'v \<times> (('m \<times> owner_stats) \<times> string)"

definition beside :: "('v \<Rightarrow> 'r \<times> 'v) \<Rightarrow> ('v, 'm) linked \<Rightarrow> 'r \<times> ('v, 'm) linked" where
  "beside f = (\<lambda>(v, c). case f v of (r, v') \<Rightarrow> (r, v', c))"

definition linked_channel :: "'m map_ops \<Rightarrow> ('v, 'm) linked channel" where
  "linked_channel ops = \<lparr>
     ch_write = (\<lambda>line (v, c). case ch_write (link ops) line c of (r, c') \<Rightarrow> (r, v, c')),
     ch_flush = (\<lambda>(v, c). case ch_flush (link ops) c of (r, c') \<Rightarrow> (r, v, c')),
     ch_read = (\<lambda>(v, c). case ch_read (link ops) c of (r, c') \<Rightarrow> (r, v, c'))\<rparr>"

definition linked_env :: "'m map_ops \<Rightarrow> 'v run_env \<Rightarrow> ('v, 'm) linked run_env" where
  "linked_env ops env = \<lparr>re_shell = (\<lambda>cmd. beside (re_shell env cmd)), re_channel = linked_channel ops,
     re_new_id = beside (re_new_id env),
     re_residency = \<lparr>rs_len = (\<lambda>p (v, c). rs_len (re_residency env) p v), rs_page = rs_page (re_residency env),
       rs_maps = (\<lambda>p (v, c). rs_maps (re_residency env) p v),
       rs_mincore = (\<lambda>p n (v, c). rs_mincore (re_residency env) p n v)\<rparr>\<rparr>"

definition linked_target :: "'v target \<Rightarrow> ('v, 'm) linked target" where
  "linked_target tgt = \<lparr>tg_version = beside (tg_version tgt), tg_provision = beside (tg_provision tgt),
     tg_start = beside (tg_start tgt), tg_reach_steady = beside (tg_reach_steady tgt),
     tg_spans = beside (tg_spans tgt), tg_teardown = beside (tg_teardown tgt),
     tg_pinning_layout = (\<lambda>(v, c). tg_pinning_layout tgt v),
     tg_resident_files = (\<lambda>(v, c). tg_resident_files tgt v),
     tg_net_attribution = beside (tg_net_attribution tgt)\<rparr>"

definition linked_workload :: "'v workload \<Rightarrow> ('v, 'm) linked workload" where
  "linked_workload wl = \<lparr>wl_version = beside (wl_version wl), wl_start = beside (wl_start wl),
     wl_stop = beside (wl_stop wl), wl_report = beside (wl_report wl)\<rparr>"

definition linked_runner :: "('v, 'h) runner \<Rightarrow> (('v, 'm) linked, 'h) runner" where
  "linked_runner rn = \<lparr>rn_spawn = (\<lambda>g. beside (rn_spawn rn g)), rn_wait = (\<lambda>g h. beside (rn_wait rn g h)),
     rn_kill = (\<lambda>h (v, c). (rn_kill rn h v, c))\<rparr>"

section \<open>Lemmas: the owner's side of each step\<close>

lemma beside_run: "beside f (v, c) = (r, v', c') \<longleftrightarrow> f v = (r, v') \<and> c' = c"
  by (auto simp: beside_def split: prod.splits)

lemma beside_link: "snd (snd (beside f w)) = snd w"
  by (cases w) (auto simp: beside_def split: prod.splits)

lemma ignore_beside: "snd (io_ignore (beside f) w) = snd w"
  by (cases w) (auto simp: io_ignore_def beside_def split: prod.splits)

text \<open>A session over the linked channel, seen from the owner.\<close>

definition strip :: "('v, 'm) linked session \<Rightarrow> (('m \<times> owner_stats) \<times> string) session" where
  "strip se = \<lparr>se_client = \<lparr>cl_stream = snd (cl_stream (se_client se)), cl_poisoned = cl_poisoned (se_client se)\<rparr>,
     se_table = se_table se\<rparr>"

lemma command_strip:
  assumes "command (linked_channel ops) line c = (r, c')"
  shows "command (link ops) line \<lparr>cl_stream = snd (cl_stream c), cl_poisoned = cl_poisoned c\<rparr>
    = (r, \<lparr>cl_stream = snd (cl_stream c'), cl_poisoned = cl_poisoned c'\<rparr>)"
proof -
  obtain v s where s: "cl_stream c = (v, s)" by (cases "cl_stream c")
  show ?thesis
    using assms s by (auto simp: command_def linked_channel_def split: prod.splits sum.splits if_splits)
qed

lemma session_ops_strip:
  shows "register (linked_channel ops) vm tp mac i ns se = (q, se')
      \<Longrightarrow> register (link ops) vm tp mac i ns (strip se) = (q, strip se')"
    and "set_state (linked_channel ops) h s se = (r, se') \<Longrightarrow> set_state (link ops) h s (strip se) = (r, strip se')"
    and "deregister (linked_channel ops) h se = (r, se') \<Longrightarrow> deregister (link ops) h (strip se) = (r, strip se')"
proof -
  have cmd: "command (link ops) line (se_client (strip se)) = (x, \<lparr>cl_stream = snd (cl_stream c'), cl_poisoned = cl_poisoned c'\<rparr>)"
    if "command (linked_channel ops) line (se_client se) = (x, c')" for line x c'
    using command_strip [OF that] by (simp add: strip_def)
  show "register (link ops) vm tp mac i ns (strip se) = (q, strip se')"
    if "register (linked_channel ops) vm tp mac i ns se = (q, se')"
    using that by (auto simp: register_def client_add_def reserve_def strip_def [of se'] table_insert_def
        dest!: cmd split: prod.splits sum.splits) (auto simp: strip_def)
  show "set_state (link ops) h s (strip se) = (r, strip se')" if "set_state (linked_channel ops) h s se = (r, se')"
    using that by (auto simp: set_state_def client_state_def dest!: cmd split: prod.splits) (auto simp: strip_def)
  show "deregister (link ops) h (strip se) = (r, strip se')" if "deregister (linked_channel ops) h se = (r, se')"
    using that by (auto simp: deregister_def client_remove_def dest!: cmd split: prod.splits) (auto simp: strip_def)
qed

definition at_owner :: "'w session \<Rightarrow> (('m \<times> owner_stats) \<times> string) \<Rightarrow> (('m \<times> owner_stats) \<times> string) session" where
  "at_owner se c = \<lparr>se_client = \<lparr>cl_stream = c, cl_poisoned = cl_poisoned (se_client se)\<rparr>, se_table = se_table se\<rparr>"

lemma at_owner_simps [simp]:
  "se_client (at_owner se c) = \<lparr>cl_stream = c, cl_poisoned = cl_poisoned (se_client se)\<rparr>"
  "se_table (at_owner se c) = se_table se"
  by (simp_all add: at_owner_def)

lemma with_session_linked:
  assumes "\<And>se r se'. f se = (r, se') \<Longrightarrow> g (strip se) = (r, strip se')"
    and "with_session f se (v, c) = (q, se', v', c')"
  shows "g (at_owner se c) = (q, at_owner se' c')"
proof -
  let ?se = "se\<lparr>se_client := (se_client se)\<lparr>cl_stream := (v, c)\<rparr>\<rparr>"
  have "f ?se = (q, se')" "(v', c') = cl_stream (se_client se')"
    using assms(2) by (auto simp: with_session_def split: prod.splits)
  moreover from this have "c' = snd (cl_stream (se_client se'))" by (metis snd_conv)
  ultimately show ?thesis using assms(1) [of ?se q se'] by (simp add: strip_def at_owner_def)
qed

lemma with_session_ops:
  shows "with_session (register (linked_channel ops) vm tp mac i ns) se (v, c) = (q, se', v', c')
      \<Longrightarrow> register (link ops) vm tp mac i ns (at_owner se c) = (q, at_owner se' c')"
    and "with_session (set_state (linked_channel ops) h s) se (v, c) = (r, se', v', c')
      \<Longrightarrow> set_state (link ops) h s (at_owner se c) = (r, at_owner se' c')"
    and "with_session (deregister (linked_channel ops) h) se (v, c) = (r, se', v', c')
      \<Longrightarrow> deregister (link ops) h (at_owner se c) = (r, at_owner se' c')"
  by (rule with_session_linked, erule session_ops_strip, assumption)+

section \<open>Lemmas: what the run leaves in the map\<close>

locale deleting_map = quiet_map +
  assumes delete_present: "valid m \<Longrightarrow> k \<in> set (mo_keys ops m) \<Longrightarrow> is_ok (mo_delete ops k m)"

interpretation deleting_hash_map: deleting_map "hash_map_ops cap" hash_map_valid
  by unfold_locales (simp add: hash_map_ops_def)

text \<open>The owner's entries are some of the handles registered so far, one entry each.\<close>

definition only_ours :: "'m map_ops \<Rightarrow> 'm \<Rightarrow> u64 set \<Rightarrow> bool" where
  "only_ours ops m H \<longleftrightarrow> (\<forall>i x. owner_entry ops m i = Some x \<longrightarrow> vc_vm_id x \<in> H)
     \<and> (\<forall>i j x y. owner_entry ops m i = Some x \<longrightarrow> owner_entry ops m j = Some y \<longrightarrow> vc_vm_id x = vc_vm_id y \<longrightarrow> i = j)"

definition owner_ready ::
  "'m map_ops \<Rightarrow> ('m \<Rightarrow> bool) \<Rightarrow> u64 set \<Rightarrow> (('m \<times> owner_stats) \<times> string) \<Rightarrow> 'w session \<Rightarrow> bool" where
  "owner_ready ops valid H c se \<longleftrightarrow> \<not> cl_poisoned (se_client se)
     \<and> (\<exists>m st. c = ((m, st), []) \<and> valid m \<and> only_ours ops m H)"

definition handles_below :: "nat \<Rightarrow> u64 set \<Rightarrow> 'w session \<Rightarrow> bool" where
  "handles_below n H se \<longleftrightarrow> ht_next (se_table se) = of_nat n \<and> (\<forall>h \<in> H. \<exists>k < n. h = of_nat k)"

context deleting_map
begin

lemma deregister_clears:
  assumes "valid m" and "\<not> cl_poisoned (se_client se)" and "cl_stream (se_client se) = ((m, st), [])"
    and ours: "only_ours ops m H" and run: "deregister (link ops) h se = (r, se')"
  shows "\<exists>m' st'. cl_stream (se_client se') = ((m', st'), []) \<and> \<not> cl_poisoned (se_client se') \<and> valid m'
    \<and> only_ours ops m' (H - {h})"
proof -
  obtain c' where q: "command (link ops) (remove_line h) (se_client se) = (r, c')" and c: "se_client se' = c'"
    using run by (auto simp: deregister_def client_remove_def split: prod.splits)
  obtain m' st' where c': "cl_stream c' = ((m', st'), [])" "\<not> cl_poisoned c'" "valid m'"
    and out: "case r of Inr _ \<Rightarrow> apply_command ops (Remove h) m st = Inr (m', st')
      | Inl _ \<Rightarrow> m' = m \<and> \<not> is_ok (apply_command ops (Remove h) m st)"
    using link_ok_step [OF assms(2,3,1) parse_remove_line q] by blast
  have "only_ours ops m' (H - {h})"
  proof (cases r)
    case (Inl e)
    have "key_for_handle ops m h = None"
    proof (rule ccontr)
      assume "key_for_handle ops m h \<noteq> None"
      then obtain k where k: "key_for_handle ops m h = Some k" by blast
      then have "k \<in> set (mo_keys ops m)" by (auto simp: key_for_handle_def find_Some_iff)
      then obtain m1 where "mo_delete ops k m = Inr m1" using delete_present [OF assms(1)] by (auto simp: is_ok_iff)
      then have "is_ok (apply_command ops (Remove h) m st)"
        using k by (simp add: apply_command_def apply_change_def Let_def)
      then show False using out Inl by simp
    qed
    then show ?thesis using key_missing [OF assms(1)] ours out Inl by (fastforce simp: only_ours_def)
  next
    case (Inr u)
    then have "apply_command ops (Remove h) m st = Inr (m', st')" using out by simp
    from apply_step [OF assms(1) this] obtain i x where x: "owner_entry ops m i = Some x" "vc_vm_id x = h"
      and m': "owner_entry ops m' = (owner_entry ops m)(i := None)" by auto
    have one: "i = j" if "owner_entry ops m j = Some y" "vc_vm_id y = h" for j y
      using ours x that unfolding only_ours_def by metis
    show ?thesis unfolding only_ours_def m'
    proof (intro conjI allI impI)
      fix j y assume "((owner_entry ops m)(i := None)) j = Some y"
      then have "owner_entry ops m j = Some y" "j \<noteq> i" by (auto split: if_splits)
      then show "vc_vm_id y \<in> H - {h}" using one [of j y] ours by (auto simp: only_ours_def)
    next
      fix j k y z
      assume "((owner_entry ops m)(i := None)) j = Some y" "((owner_entry ops m)(i := None)) k = Some z"
        "vc_vm_id y = vc_vm_id z"
      then show "j = k" using ours unfolding only_ours_def by (metis fun_upd_apply option.distinct(1))
    qed
  qed
  then show ?thesis using c c' by blast
qed

lemma deregister_each_clears:
  assumes "owner_ready ops valid H c se"
    and "deregister_each (linked_channel ops) hs se (v, c) = (se', v', c')"
  shows "owner_ready ops valid (H - set hs) c' se'"
  using assms
proof (induction hs arbitrary: H c se v)
  case (Cons h hs)
  obtain r se1 v1 c1 where d: "with_session (deregister (linked_channel ops) h) se (v, c) = (r, se1, v1, c1)"
    by (metis prod.collapse)
  note dl = with_session_ops(3) [OF d]
  have "owner_ready ops valid (H - {h}) c1 se1"
    using Cons.prems(1) deregister_clears [OF _ _ _ _ dl, simplified] by (fastforce simp: owner_ready_def)
  then have "owner_ready ops valid (H - {h} - set hs) c' se'"
    using Cons.IH Cons.prems(2) d by simp
  moreover have "H - {h} - set hs = H - set (h # hs)" by auto
  ultimately show ?case by simp
qed simp

lemma register_adds:
  assumes ready: "owner_ready ops valid H c se" and below: "handles_below n H se" and n: "n < 2 ^ 64"
    and run: "with_session (register (linked_channel ops) vm tp mac i ns) se (v, c) = (r, se', v', c')"
  shows "case r of Inr h \<Rightarrow> owner_ready ops valid (insert h H) c' se' \<and> handles_below (Suc n) (insert h H) se'
    | Inl _ \<Rightarrow> owner_ready ops valid H c' se' \<and> handles_below (Suc n) H se'"
proof -
  note reg = with_session_ops(1) [OF run]
  obtain m st where c: "c = ((m, st), [])" "valid m" and np: "\<not> cl_poisoned (se_client se)" and ours: "only_ours ops m H"
    using ready by (auto simp: owner_ready_def)
  obtain m' st' where c': "c' = ((m', st'), [])" "\<not> cl_poisoned (se_client se')" "valid m'"
    and out: "case r of
       Inr h \<Rightarrow> h = ht_next (se_table se)
         \<and> owner_entry ops m' = (owner_entry ops m)(i \<mapsto>
             \<lparr>vc_vm_id = h, vc_netns_inum = ns, vc_lifecycle_state = 0, vc_pad = [0, 0, 0]\<rparr>)
     | Inl _ \<Rightarrow> m' = m"
    using register_over_link [OF c(2) _ _ reg] c np by (fastforce split: sum.splits)
  have nx: "ht_next (se_table se') = of_nat (Suc n)"
    using register_step(1) [OF reg] below by (simp add: handles_below_def)
  have lt: "\<exists>k < Suc n. h = of_nat k" if "h \<in> H" for h
    using below that less_SucI unfolding handles_below_def by metis
  show ?thesis
  proof (cases r)
    case (Inl e)
    then show ?thesis using c' out ours nx lt by (auto simp: owner_ready_def handles_below_def)
  next
    case (Inr h)
    have h: "h = of_nat n" using out Inr below by (simp add: handles_below_def)
    have fresh: "h \<notin> H"
    proof
      assume "h \<in> H"
      then obtain k where "k < n" "h = of_nat k" using below by (auto simp: handles_below_def)
      then show False using h n of_nat_u64_inj [of n k] by simp
    qed
    have "only_ours ops m' (insert h H)"
      using out Inr ours fresh unfolding only_ours_def by (fastforce split: if_splits)
    then show ?thesis using c' nx lt h Inr by (auto simp: owner_ready_def handles_below_def)
  qed
qed

lemma set_state_keeps:
  assumes ready: "owner_ready ops valid H c se"
    and run: "with_session (set_state (linked_channel ops) h s) se (v, c) = (r, se', v', c')"
  shows "owner_ready ops valid H c' se' \<and> se_table se' = se_table se"
proof -
  note st = with_session_ops(2) [OF run]
  obtain m st0 where c: "c = ((m, st0), [])" "valid m" and np: "\<not> cl_poisoned (se_client se)" and ours: "only_ours ops m H"
    using ready by (auto simp: owner_ready_def)
  obtain m' st' where c': "c' = ((m', st'), [])" "\<not> cl_poisoned (se_client se')" "valid m'"
    and t: "se_table se' = se_table se"
    and kept: "\<And>i x. owner_entry ops m' i = Some x \<Longrightarrow> \<exists>x0. owner_entry ops m i = Some x0 \<and> vc_vm_id x0 = vc_vm_id x"
    using change_over_link [OF c(2) _ _ disjI1 [OF st]] c(1) np by simp blast
  have "only_ours ops m' H"
    unfolding only_ours_def
  proof (intro conjI allI impI)
    fix i x assume "owner_entry ops m' i = Some x"
    then show "vc_vm_id x \<in> H" using kept ours unfolding only_ours_def by metis
  next
    fix i j x y
    assume "owner_entry ops m' i = Some x" "owner_entry ops m' j = Some y" "vc_vm_id x = vc_vm_id y"
    then show "i = j" using kept ours unfolding only_ours_def by metis
  qed
  then show ?thesis using c' t by (auto simp: owner_ready_def)
qed

lemma attribute_vms_adds:
  assumes "owner_ready ops valid (set hs) c se" and "handles_below n (set hs) se"
    and "n + length nas \<le> 2 ^ 64"
    and "attribute_vms (linked_channel ops) (beside f) nas hs se (v, c) = (r, hs', se', v', c')"
  shows "owner_ready ops valid (set hs') c' se'"
  using assms
proof (induction nas arbitrary: hs se v c n)
  case (Cons na nas)
  obtain vm v1 where vm: "beside f (v, c) = (vm, v1, c)" by (cases "f v") (auto simp: beside_def)
  obtain q se1 v2 c2 where q: "with_session (register (linked_channel ops) vm (na_tap na) (na_guest_mac na)
      (na_ifindex na) (na_netns_inum na)) se (v1, c) = (q, se1, v2, c2)"
    by (metis prod.collapse)
  have n: "n < 2 ^ 64" using Cons.prems(3) by simp
  note reg = register_adds [OF Cons.prems(1,2) n q]
  show ?case
  proof (cases q)
    case (Inl e)
    then show ?thesis using Cons.prems(4) vm q reg by auto
  next
    case (Inr h)
    obtain x se2 v3 c3 where x: "with_session (set_state (linked_channel ops) h LIFECYCLE_RUNNING) se1 (v2, c2)
        = (x, se2, v3, c3)"
      by (metis prod.collapse)
    have ready: "owner_ready ops valid (set (hs @ [h])) c3 se2" and below: "handles_below (Suc n) (set (hs @ [h])) se2"
      using set_state_keeps [OF _ x] reg Inr by (auto simp: handles_below_def)
    show ?thesis
    proof (cases x)
      case (Inl e)
      then show ?thesis using Cons.prems(4) vm q x ready \<open>q = Inr h\<close> by simp
    next
      case (Inr u)
      then have "attribute_vms (linked_channel ops) (beside f) nas (hs @ [h]) se2 (v3, c3) = (r, hs', se', v', c')"
        using Cons.prems(4) vm q x \<open>q = Inr h\<close> by simp
      then show ?thesis using Cons.IH [OF ready below] Cons.prems(3) by simp
    qed
  qed
qed simp

lemma abort_run_clears:
  assumes "owner_ready ops valid (set hs) c se"
    and "abort_run (linked_env ops env) (linked_target tgt) hs e (Some se, v, c) = (r, attrib', v', c')"
  shows "\<exists>se'. attrib' = Some se' \<and> owner_ready ops valid {} c' se' \<and> r = Inl e"
proof -
  obtain se1 v1 c1 where d: "deregister_each (linked_channel ops) hs se (v, c) = (se1, v1, c1)" by (metis prod.collapse)
  have "owner_ready ops valid {} c1 se1" using deregister_each_clears [OF assms(1) d] by simp
  moreover have "c' = c1" "attrib' = Some se1" "r = Inl e"
    using assms(2) d ignore_beside [of "tg_teardown tgt" "(v1, c1)"]
    by (auto simp: abort_run_def deregister_all_def linked_env_def linked_target_def)
  ultimately show ?thesis by simp
qed

lemma attribute_run_ready:
  assumes ready: "owner_ready ops valid {} c se" and below: "handles_below n {} se"
    and few: "\<And>v. n + length (fst (tg_net_attribution tgt v)) \<le> 2 ^ 64"
    and run: "attribute_run (linked_env ops env) (linked_target tgt) (Some se, v, c) = (r, attrib', v', c')"
  shows "\<exists>se'. attrib' = Some se' \<and> owner_ready ops valid (case r of Inr hs \<Rightarrow> set hs | Inl _ \<Rightarrow> {}) c' se'"
proof -
  obtain vms v1 where net: "tg_net_attribution tgt v = (vms, v1)" by (cases "tg_net_attribution tgt v")
  then have net': "tg_net_attribution (linked_target tgt) (v, c) = (vms, v1, c)"
    by (simp add: linked_target_def beside_def)
  show ?thesis
  proof (cases "vms = []")
    case True
    then show ?thesis using run net' ready ignore_beside [of "tg_teardown tgt" "(v1, c)"]
      by (auto simp: attribute_run_def linked_target_def)
  next
    case False
    obtain q hs se2 v2 c2 where q: "attribute_vms (linked_channel ops) (beside (re_new_id env)) vms [] se (v1, c)
        = (q, hs, se2, v2, c2)"
      by (metis prod.collapse)
    have two: "owner_ready ops valid (set hs) c2 se2"
      using attribute_vms_adds [of "[]", OF _ _ _ q] ready below few [of v] net by simp
    have q': "attribute_vms (re_channel (linked_env ops env)) (re_new_id (linked_env ops env)) vms [] se (v1, c)
        = (q, hs, se2, v2, c2)" using q by (simp add: linked_env_def)
    show ?thesis
    proof (cases q)
      case (Inl e)
      then have "abort_run (linked_env ops env) (linked_target tgt) hs e (Some se2, v2, c2) = (r, attrib', v', c')"
        using run net' False q' by (simp add: attribute_run_def)
      from abort_run_clears [OF two this] show ?thesis by auto
    next
      case (Inr u)
      then show ?thesis using run net' False q' two by (auto simp: attribute_run_def)
    qed
  qed
qed

end

lemma spawn_all_link: "snd (snd (spawn_all (linked_runner rn) gs hs w)) = snd w"
proof (induction gs arbitrary: hs w)
  case (Cons g gs)
  obtain r w1 where g: "rn_spawn (linked_runner rn) g w = (r, w1)" by (metis prod.collapse)
  then have "snd w1 = snd w" using beside_link [of "rn_spawn rn g" w] by (simp add: linked_runner_def)
  then show ?case using Cons g by (auto split: sum.splits)
qed simp

lemma wait_all_link: "snd (snd (wait_all (linked_runner rn) ihs w)) = snd w"
proof (induction ihs arbitrary: w)
  case (Cons ih ihs)
  obtain g h where ih: "ih = (g, h)" by (cases ih)
  obtain r w1 where g: "rn_wait (linked_runner rn) g h w = (r, w1)" by (metis prod.collapse)
  then have "snd w1 = snd w" using beside_link [of "rn_wait rn g h" w] by (simp add: linked_runner_def)
  then show ?case using Cons.IH [of w1] g ih by (auto split: sum.splits prod.splits)
qed simp

lemma bring_up_link: "snd (snd (bring_up (linked_env ops env) (linked_target tgt) w)) = snd w"
proof -
  have sample: "snd w' = snd w0" if "sample_meminfo (re_shell (linked_env ops env)) w0 = (x, w')" for w0 x w'
    using that beside_link [of "re_shell env ''cat /proc/meminfo''" w0]
    by (auto simp: sample_meminfo_def linked_env_def split: prod.splits sum.splits)
  have op: "snd w' = snd w0" if "beside f w0 = (x, w')" for f w0 x w'
    using that beside_link [of f w0] by simp
  show ?thesis
    by (auto simp: bring_up_def io_then_def linked_target_def split: prod.splits sum.splits dest!: sample op)
qed

context deleting_map
begin

lemma capture_window_ready:
  assumes ready: "owner_ready ops valid (set hs) c se"
    and run: "capture_window (linked_env ops env) (linked_runner rn) (linked_target tgt) (linked_workload wl)
      gs hs (Some se, v, c) = (r, attrib', v', c')"
  shows "\<exists>se'. attrib' = Some se' \<and> owner_ready ops valid (case r of Inr _ \<Rightarrow> set hs | Inl _ \<Rightarrow> {}) c' se'"
proof -
  have down: ?thesis if "abort_run (linked_env ops env) (linked_target tgt) hs e (Some se, w1) = (r, attrib', v', c')"
      and "snd w1 = c" for e w1
  proof -
    have w1: "w1 = (fst w1, c)" using that(2) by (metis prod.collapse)
    from that(1) have "abort_run (linked_env ops env) (linked_target tgt) hs e (Some se, fst w1, c)
        = (r, attrib', v', c')" by (subst (asm) w1)
    from abort_run_clears [OF ready this] show ?thesis by auto
  qed
  obtain q w1 where q: "spawn_all (linked_runner rn) gs [] (v, c) = (q, w1)" by (metis prod.collapse)
  have w1: "snd w1 = c" using spawn_all_link [of rn gs "[]" "(v, c)"] q by simp
  show ?thesis
  proof (cases q)
    case (Inl ehs)
    then show ?thesis using run q w1 by (cases ehs) (auto simp: capture_window_def intro: down)
  next
    case (Inr handles)
    obtain x w2 where x: "wl_start (linked_workload wl) w1 = (x, w2)" by (metis prod.collapse)
    have w2: "snd w2 = c" using x w1 beside_link [of "wl_start wl" w1] by (simp add: linked_workload_def)
    show ?thesis
    proof (cases x)
      case (Inl e)
      then have "abort_run (linked_env ops env) (linked_target tgt) hs e (Some se, w2) = (r, attrib', v', c')"
        using run q x Inr by (simp add: capture_window_def)
      then show ?thesis using w2 by (rule down)
    next
      case (Inr u)
      obtain y w3 where y: "wait_all (linked_runner rn) (zip gs handles) w2 = (y, w3)" by (metis prod.collapse)
      have w3: "snd w3 = c" using y w2 wait_all_link [of rn "zip gs handles" w2] by simp
      show ?thesis
      proof (cases y)
        case (Inl e)
        then have "abort_run (linked_env ops env) (linked_target tgt) hs e
            (Some se, io_ignore (wl_stop (linked_workload wl)) w3) = (r, attrib', v', c')"
          using run q x y Inr \<open>q = Inr handles\<close> by (simp add: capture_window_def)
        moreover have "snd (io_ignore (wl_stop (linked_workload wl)) w3) = c"
          using w3 ignore_beside [of "wl_stop wl" w3] by (simp add: linked_workload_def)
        ultimately show ?thesis by (rule down)
      next
        case (Inr frs)
        then show ?thesis using run q x y w3 ready \<open>q = Inr handles\<close> \<open>x = Inr u\<close>
          by (auto simp: capture_window_def)
      qed
    qed
  qed
qed

lemma wind_down_clears:
  assumes ready: "owner_ready ops valid (set hs) c se" and spans: "\<And>v. is_ok (fst (tg_spans tgt v))"
    and run: "wind_down (linked_env ops env) (linked_target tgt) (linked_workload wl) mem hs frs (Some se, v, c)
      = (r, attrib', v', c')"
  shows "\<exists>se'. attrib' = Some se' \<and> owner_ready ops valid {} c' se'"
proof -
  obtain w1 where w1: "io_ignore (wl_stop (linked_workload wl)) (v, c) = w1" "snd w1 = c"
    using ignore_beside [of "wl_stop wl" "(v, c)"] by (simp add: linked_workload_def)
  obtain rep w2 where w2: "io_option (wl_report (linked_workload wl)) w1 = (rep, w2)" by (metis prod.collapse)
  have c2: "snd w2 = c"
    using w1(2) w2 beside_link [of "wl_report wl" w1]
    by (auto simp: io_option_def linked_workload_def split: prod.splits sum.splits)
  obtain sp w3 where w3: "tg_spans (linked_target tgt) w2 = (sp, w3)" by (metis prod.collapse)
  have c3: "snd w3 = c" using w3 c2 beside_link [of "tg_spans tgt" w2] by (simp add: linked_target_def)
  have "fst (tg_spans tgt (fst w2)) = sp"
    using w3 by (cases w2) (auto simp: linked_target_def beside_def split: prod.splits)
  then obtain spn where spn: "sp = Inr spn" using spans [of "fst w2"] by (auto simp: is_ok_iff)
  obtain se4 v4 c4 where d: "deregister_each (linked_channel ops) hs se (fst w3, c) = (se4, v4, c4)" by (metis prod.collapse)
  have r4: "owner_ready ops valid {} c4 se4" using deregister_each_clears [OF ready d] by simp
  have all: "deregister_all (re_channel (linked_env ops env)) hs (Some se, w3) = (Some se4, v4, c4)"
    using d c3 by (cases w3) (simp add: deregister_all_def linked_env_def)
  obtain td w5 where td: "tg_teardown (linked_target tgt) (v4, c4) = (td, w5)" by (metis prod.collapse)
  have "snd w5 = c4" using td beside_link [of "tg_teardown tgt" "(v4, c4)"] by (simp add: linked_target_def)
  moreover have "attrib' = Some se4 \<and> (v', c') = w5"
    using run w1(1) w2 w3 spn all td by (auto simp: wind_down_def Let_def split: prod.splits)
  ultimately show ?thesis using r4 by auto
qed

lemma execute_run_clears:
  assumes ready: "owner_ready ops valid {} c se" and below: "handles_below n {} se"
    and few: "\<And>v. n + length (fst (tg_net_attribution tgt v)) \<le> 2 ^ 64"
    and spans: "\<And>v. is_ok (fst (tg_spans tgt v))"
    and run: "execute_run (linked_env ops env) (linked_runner rn) (linked_target tgt) (linked_workload wl) gs
      (Some se) (v, c) = (r, attrib', v', c')"
  shows "\<exists>se'. attrib' = Some se' \<and> owner_ready ops valid {} c' se'"
proof -
  obtain q w1 where q: "bring_up (linked_env ops env) (linked_target tgt) (v, c) = (q, w1)" by (metis prod.collapse)
  obtain v1 where w1: "w1 = (v1, c)" using q bring_up_link [of ops env tgt "(v, c)"] by (cases w1) simp
  show ?thesis
  proof (cases q)
    case (Inl e)
    then show ?thesis using run q w1 ready by (auto simp: execute_run_def)
  next
    case (Inr mem)
    obtain y a2 v2 c2 where y: "attribute_run (linked_env ops env) (linked_target tgt) (Some se, v1, c) = (y, a2, v2, c2)"
      by (metis prod.collapse)
    obtain se2 where a2: "a2 = Some se2" and r2: "owner_ready ops valid (case y of Inr hs \<Rightarrow> set hs | Inl _ \<Rightarrow> {}) c2 se2"
      using attribute_run_ready [OF ready below few y] by blast
    show ?thesis
    proof (cases y)
      case (Inl e)
      then show ?thesis using run q w1 y a2 r2 \<open>q = Inr mem\<close> by (auto simp: execute_run_def)
    next
      case (Inr hs)
      then have r2': "owner_ready ops valid (set hs) c2 se2" using r2 by simp
      obtain z a3 v3 c3 where z: "capture_window (linked_env ops env) (linked_runner rn) (linked_target tgt)
          (linked_workload wl) gs hs (Some se2, v2, c2) = (z, a3, v3, c3)"
        by (metis prod.collapse)
      obtain se3 where a3: "a3 = Some se3" and r3: "owner_ready ops valid (case z of Inr _ \<Rightarrow> set hs | Inl _ \<Rightarrow> {}) c3 se3"
        using capture_window_ready [OF r2' z] by blast
      show ?thesis
      proof (cases z)
        case (Inl e)
        then show ?thesis using run q w1 y a2 z a3 r3 \<open>q = Inr mem\<close> \<open>y = Inr hs\<close> by (auto simp: execute_run_def)
      next
        case (Inr frs)
        then have "wind_down (linked_env ops env) (linked_target tgt) (linked_workload wl) mem hs frs (Some se3, v3, c3)
            = (r, attrib', v', c')"
          using run q w1 y a2 z a3 \<open>q = Inr mem\<close> \<open>y = Inr hs\<close> by (simp add: execute_run_def)
        moreover have "owner_ready ops valid (set hs) c3 se3" using r3 Inr by simp
        ultimately show ?thesis using wind_down_clears [OF _ spans] by blast
      qed
    qed
  qed
qed

end

lemma only_ours_empty: "only_ours ops m {} \<longleftrightarrow> owner_entry ops m = Map.empty"
  by (auto simp: only_ours_def fun_eq_iff)

section \<open>Properties\<close>


text \<open>A target with one tap whose workload does not start.\<close>

definition tap_target :: "unit target" where
  "tap_target = (plain_target True)\<lparr>tg_net_attribution :=
     (\<lambda>w. ([\<lparr>na_tap = ''tap0'', na_ifindex = 7, na_guest_mac = ''02'', na_netns_inum = 1\<rparr>], w))\<rparr>"

definition failing_workload :: "unit workload" where
  "failing_workload = plain_workload\<lparr>wl_start := io_err ''no workload''\<rparr>"

definition unlinked_session :: "(unit, hash_map) linked session" where
  "unlinked_session = \<lparr>se_client = \<lparr>cl_stream = ((), ([], stats_zero), []), cl_poisoned = False\<rparr>, se_table = table_new\<rparr>"

definition tap_run :: "(string + run_artifacts) \<times> (unit, hash_map) linked session option \<times> (unit, hash_map) linked" where
  "tap_run = execute_run (linked_env (hash_map_ops 2) plain_env) (linked_runner plain_runner) (linked_target tap_target)
     (linked_workload failing_workload) [] (Some unlinked_session) ((), ([], stats_zero), [])"


end
