(* ===== verification/Otlp.thy ===== *)
theory Otlp
  imports Contract Bytes
begin

text \<open>
  \<open>crates/otlp/src/lib.rs\<close>: the export of a run as an OTLP/JSON document and the import of
  one. SHA-256 (\<open>sha\<close>) and the printing of a JSON value (\<open>to_text\<close>) are parameters. The
  lemmas show which part of a run survives the round trip.
\<close>

section \<open>Attributes\<close>

definition kv :: "string \<Rightarrow> json \<Rightarrow> json" where
  "kv key any = jobj [(''key'', JString key), (''value'', any)]"

definition any_str :: "string \<Rightarrow> json" where
  "any_str v = jobj [(''stringValue'', JString v)]"

definition any_int :: "i64 \<Rightarrow> json" where
  "any_int v = jobj [(''intValue'', JString (show_int (sint v)))]"

definition any_bool :: "bool \<Rightarrow> json" where
  "any_bool v = jobj [(''boolValue'', JBool v)]"

definition kv_str :: "string \<Rightarrow> string \<Rightarrow> json" where "kv_str key v = kv key (any_str v)"

definition kv_int :: "string \<Rightarrow> i64 \<Rightarrow> json" where "kv_int key v = kv key (any_int v)"

definition kv_bool :: "string \<Rightarrow> bool \<Rightarrow> json" where "kv_bool key v = kv key (any_bool v)"

fun any_kv :: "(json \<Rightarrow> string) \<Rightarrow> string \<Rightarrow> json \<Rightarrow> json" where
  "any_kv to_text key (JString s) = kv key (any_str s)"
| "any_kv to_text key (JBool b) = kv key (any_bool b)"
| "any_kv to_text key (JNumber (Float x)) = kv key (jobj [(''doubleValue'', json_f64 x)])"
| "any_kv to_text key (JNumber (PosInt w)) = kv key (jobj [(''intValue'', JString (show_u64 w))])"
| "any_kv to_text key (JNumber (NegInt w)) = kv key (jobj [(''intValue'', JString (show_int (sint w)))])"
| "any_kv to_text key v = kv key (any_str (to_text v))"

definition attributes_from :: "(json \<Rightarrow> string) \<Rightarrow> json option \<Rightarrow> json list" where
  "attributes_from to_text v = (case v of Some (JObject m) \<Rightarrow> map (\<lambda>(k, x). any_kv to_text k x) m | _ \<Rightarrow> [])"

definition u64_str :: "json option \<Rightarrow> json" where
  "u64_str v = JString (show_u64 (or_else (Option.bind v as_u64) 0))"

definition scope_name :: string where "scope_name = ''assayist''"

section \<open>Export: resource and spans\<close>

definition resource_attributes :: "assay_run \<Rightarrow> json list" where
  "resource_attributes run = (let f = r_fingerprint run; ident = r_identity run in
     [kv_str ''host.name'' (fp_hostname f),
      kv_str ''os.version'' (fp_kernel_version f),
      kv_str ''os.description'' (fp_os_release f),
      kv_str ''host.cpu.model.name'' (fp_cpu_model f),
      kv_int ''assayist.host.cpu_count_logical'' (ucast (fp_cpu_count_logical f)),
      kv_int ''assayist.host.cpu_count_physical'' (ucast (fp_cpu_count_physical f)),
      kv_bool ''assayist.host.smt_enabled'' (fp_smt_enabled f),
      kv_str ''assayist.host.cpu_governor'' (fp_cpu_governor f),
      kv_str ''assayist.host.thp'' (fp_thp_setting f),
      kv_int ''assayist.host.memory_bytes'' (fp_total_memory_bytes f),
      kv_bool ''assayist.host.kvm'' (fp_kvm_present f),
      kv_str ''assayist.run.tenancy'' (fp_tenancy f),
      kv_str ''assayist.target_adapter'' (i_target_adapter ident),
      kv_str ''assayist.target_adapter_version'' (i_target_adapter_version ident),
      kv_str ''assayist.workload_driver'' (i_workload_driver ident),
      kv_str ''assayist.workload_driver_version'' (i_workload_driver_version ident),
      kv_str ''assayist.sut_git_sha'' (i_sut_git_sha ident),
      kv_str ''assayist.params_hash'' (i_params_hash ident),
      kv_str ''assayist.benchmark_def_sha'' (i_benchmark_def_sha ident),
      kv_str ''assayist.grade'' (grade_name (r_grade run))]
     @ (case Option.bind (r_outcome run) (\<lambda>out. get_str out ''verdict'') of
          Some v \<Rightarrow> [kv_str ''assayist.gate.verdict'' v] | None \<Rightarrow> []))"

definition span_id :: "(string \<Rightarrow> u8 list) \<Rightarrow> string \<Rightarrow> string \<Rightarrow> nat \<Rightarrow> string" where
  "span_id sha run_id name index = concat (map (\<lambda>b. show_hex 2 (uint b))
     (take 8 (sha (run_id @ [char_of (0 :: int)] @ name @ [char_of (0 :: int)]
        @ bytes_text (u64_bytes (of_nat index))))))"

definition export_name :: "json \<Rightarrow> string" where
  "export_name s = or_else (get_str s ''name'') ''''"

definition span_ids :: "(string \<Rightarrow> u8 list) \<Rightarrow> string \<Rightarrow> json list \<Rightarrow> string list" where
  "span_ids sha run_id spans = map (\<lambda>(i, s). span_id sha run_id (export_name s) i) (enumerate 0 spans)"

definition ids_by_name :: "(string \<Rightarrow> u8 list) \<Rightarrow> string \<Rightarrow> json list \<Rightarrow> (string, string) bmap" where
  "ids_by_name sha run_id spans = foldl (\<lambda>m (s, sid). bm_or_insert (export_name s) sid m) bm_empty
     (zip spans (span_ids sha run_id spans))"

definition export_span :: "(json \<Rightarrow> string) \<Rightarrow> string \<Rightarrow> (string, string) bmap \<Rightarrow> string \<Rightarrow> json \<Rightarrow> json" where
  "export_span to_text run_id by_name sid s = jobj ([(''traceId'', JString run_id), (''spanId'', JString sid)]
     @ (case Option.bind (get_str s ''parent'') (bm_get by_name) of
          Some pid \<Rightarrow> [(''parentSpanId'', JString pid)] | None \<Rightarrow> [])
     @ [(''name'', JString (export_name s)), (''kind'', JNumber (PosInt 1)),
        (''startTimeUnixNano'', u64_str (jget s ''start_unix_nano'')),
        (''endTimeUnixNano'', u64_str (jget s ''end_unix_nano'')),
        (''attributes'', JArray (attributes_from to_text (jget s ''attributes'')))])"

definition export_spans :: "(string \<Rightarrow> u8 list) \<Rightarrow> (json \<Rightarrow> string) \<Rightarrow> assay_run \<Rightarrow> json list" where
  "export_spans sha to_text run = map (\<lambda>(sid, s).
       export_span to_text (r_run_id run) (ids_by_name sha (r_run_id run) (r_spans run)) sid s)
     (zip (span_ids sha (r_run_id run) (r_spans run)) (r_spans run))"

section \<open>Export: metrics\<close>

definition stamp :: "u64 \<Rightarrow> json" where "stamp ts = JString (show_u64 ts)"

definition sum_field :: "json \<Rightarrow> (string \<times> json) list" where
  "sum_field data = (case get_f64 data ''sum'' of Some s \<Rightarrow> [(''sum'', json_f64 s)] | None \<Rightarrow> [])"

definition bucket_strings :: "json \<Rightarrow> json" where
  "bucket_strings data = JArray (map (\<lambda>b. JString (show_int (sint b)))
     (List.map_filter as_i64 (or_else (get_array data ''buckets'') [])))"

definition histogram_body :: "json \<Rightarrow> json list \<Rightarrow> u64 \<Rightarrow> (string \<times> json) option" where
  "histogram_body data attrs ts = (let layout = or_else (get_str data ''layout'') ''log2'';
     common = [(''attributes'', JArray attrs), (''timeUnixNano'', stamp ts), (''count'', u64_str (jget data ''count''))]
       @ sum_field data in
     if layout = ''log2'' then Some (''exponentialHistogram'', jobj [(''aggregationTemporality'', JNumber (PosInt 2)),
       (''dataPoints'', JArray [jobj (common @ [(''scale'', JNumber (PosInt 0)), (''zeroCount'', JString ''0''),
          (''positive'', jobj [(''offset'', JNumber (PosInt 0)), (''bucketCounts'', bucket_strings data)])])])])
     else if layout = ''explicit'' then Some (''histogram'', jobj [(''aggregationTemporality'', JNumber (PosInt 2)),
       (''dataPoints'', JArray [jobj (common @ [
          (''explicitBounds'', JArray (map json_f64 (List.map_filter as_f64 (or_else (get_array data ''explicit_bounds'') [])))),
          (''bucketCounts'', bucket_strings data)])])])
     else None)"

definition counter_body :: "json \<Rightarrow> json list \<Rightarrow> string \<times> json" where
  "counter_body data attrs = (''sum'', jobj [(''isMonotonic'', JBool True), (''aggregationTemporality'', JNumber (PosInt 2)),
     (''dataPoints'', JArray [jobj [(''attributes'', JArray attrs), (''asInt'', u64_str (jget data ''value'')),
        (''startTimeUnixNano'', u64_str (jget data ''start_unix_nano'')),
        (''timeUnixNano'', u64_str (jget data ''start_unix_nano''))]])])"

definition gauge_body :: "json \<Rightarrow> json list \<Rightarrow> string \<times> json" where
  "gauge_body data attrs = (''gauge'', jobj [(''dataPoints'', JArray [jobj [(''attributes'', JArray attrs),
     (''asDouble'', json_f64 (or_else (get_f64 data ''value'') (f_lit 0))),
     (''timeUnixNano'', u64_str (jget data ''time_unix_nano''))]])])"

definition str_attr :: "string \<Rightarrow> json \<Rightarrow> string \<Rightarrow> json list" where
  "str_attr key v field = (case get_str v field of Some s \<Rightarrow> [kv_str key s] | None \<Rightarrow> [])"

definition series_attrs :: "json \<Rightarrow> json list" where
  "series_attrs s = str_attr ''assayist.source'' s ''source'' @ str_attr ''assayist.key'' s ''key''"

definition series_body :: "json \<Rightarrow> string \<Rightarrow> json list \<Rightarrow> u64 \<Rightarrow> (string \<times> json) option" where
  "series_body data kind attrs ts = (if kind = ''histogram'' then histogram_body data attrs ts
     else if kind = ''counter'' then Some (counter_body data attrs)
     else if kind = ''gauge'' then Some (gauge_body data attrs) else None)"

definition series_to_metric :: "u64 \<Rightarrow> json \<Rightarrow> json option" where
  "series_to_metric ts s = Option.bind (get_str s ''name'') (\<lambda>name.
     Option.bind (get_str s ''kind'') (\<lambda>kind.
     Option.bind (jget s ''data'') (\<lambda>data.
     Option.bind (series_body data kind (series_attrs s) ts) (\<lambda>body.
     Some (jobj [(''name'', JString name), (''unit'', JString (or_else (get_str s ''unit'') '''')), body])))))"

definition series_metrics :: "assay_run \<Rightarrow> u64 \<Rightarrow> json list" where
  "series_metrics run ts = List.map_filter (series_to_metric ts) (r_series run)"

definition probe_attrs :: "json \<Rightarrow> json list" where
  "probe_attrs pm = str_attr ''assayist.probe.id'' pm ''probe_id'' @ str_attr ''assayist.probe.attach_kind'' pm ''attach_kind''
     @ (case get_bool pm ''over_budget'' of Some b \<Rightarrow> [kv_bool ''assayist.probe.over_budget'' b] | None \<Rightarrow> [])"

definition probe_metric :: "u64 \<Rightarrow> json \<Rightarrow> json list" where
  "probe_metric ts pm = [
     jobj [(''name'', JString ''assayist.probe.steady_cpu_fraction''), (''unit'', JString ''1''),
       (''gauge'', jobj [(''dataPoints'', JArray [jobj [(''attributes'', JArray (probe_attrs pm)),
          (''asDouble'', json_f64 (or_else (get_f64 pm ''steady_cpu_fraction'') (f_lit 0))), (''timeUnixNano'', stamp ts)]])])],
     jobj [(''name'', JString ''assayist.probe.run_time_ns''), (''unit'', JString ''ns''),
       (''sum'', jobj [(''isMonotonic'', JBool True), (''aggregationTemporality'', JNumber (PosInt 2)),
          (''dataPoints'', JArray [jobj [(''attributes'', JArray (probe_attrs pm)),
             (''asInt'', u64_str (jget pm ''run_time_ns'')), (''timeUnixNano'', stamp ts)]])])]]"

definition probe_metrics :: "assay_run \<Rightarrow> u64 \<Rightarrow> json list" where
  "probe_metrics run ts = concat (map (probe_metric ts) (r_self_metrics run))"

definition resource_json :: "assay_run \<Rightarrow> json" where
  "resource_json run = jobj [(''attributes'', JArray (resource_attributes run))]"

definition scope_json :: json where
  "scope_json = jobj [(''name'', JString scope_name)]"

definition export_traces :: "(string \<Rightarrow> u8 list) \<Rightarrow> (json \<Rightarrow> string) \<Rightarrow> assay_run \<Rightarrow> json" where
  "export_traces sha to_text run = jobj [(''resourceSpans'', JArray [jobj [(''resource'', resource_json run),
     (''scopeSpans'', JArray [jobj [(''scope'', scope_json), (''spans'', JArray (export_spans sha to_text run))]])]])]"

definition export_metrics_at :: "assay_run \<Rightarrow> u64 \<Rightarrow> json" where
  "export_metrics_at run ts = jobj [(''resourceMetrics'', JArray [jobj [(''resource'', resource_json run),
     (''scopeMetrics'', JArray [jobj [(''scope'', scope_json),
        (''metrics'', JArray (series_metrics run ts @ probe_metrics run ts))]])]])]"

definition export_metrics :: "assay_run \<Rightarrow> json" where
  "export_metrics run = export_metrics_at run 0"

definition export_at :: "(string \<Rightarrow> u8 list) \<Rightarrow> (json \<Rightarrow> string) \<Rightarrow> assay_run \<Rightarrow> u64 \<Rightarrow> json" where
  "export_at sha to_text run ts = jobj [
     (''resourceSpans'', jindex (export_traces sha to_text run) ''resourceSpans''),
     (''resourceMetrics'', jindex (export_metrics_at run ts) ''resourceMetrics'')]"

definition export :: "(string \<Rightarrow> u8 list) \<Rightarrow> (json \<Rightarrow> string) \<Rightarrow> assay_run \<Rightarrow> json" where
  "export sha to_text run = export_at sha to_text run 0"

section \<open>Import: readers\<close>

definition attr_val :: "json \<Rightarrow> string \<Rightarrow> json option" where
  "attr_val attrs key = Option.bind (as_array attrs) (\<lambda>xs.
     map_option (\<lambda>a. jindex a ''value'') (find (\<lambda>a. jindex a ''key'' = JString key) xs))"

definition attr_str :: "json \<Rightarrow> string \<Rightarrow> string option" where
  "attr_str attrs key = Option.bind (attr_val attrs key) (\<lambda>v. get_str v ''stringValue'')"

definition attr_int :: "json \<Rightarrow> string \<Rightarrow> i64 option" where
  "attr_int attrs key = Option.bind (attr_val attrs key) (\<lambda>a. Option.bind (jget a ''intValue'') (\<lambda>v.
     case Option.bind (as_str v) parse_i64 of Some n \<Rightarrow> Some n | None \<Rightarrow> as_i64 v))"

definition attr_bool :: "json \<Rightarrow> string \<Rightarrow> bool option" where
  "attr_bool attrs key = Option.bind (attr_val attrs key) (\<lambda>v. get_bool v ''boolValue'')"

definition str_u64 :: "json option \<Rightarrow> u64" where
  "str_u64 v = or_else (Option.bind v (\<lambda>x. case Option.bind (as_str x) parse_u64 of
     Some n \<Rightarrow> Some n | None \<Rightarrow> as_u64 x)) 0"

definition str_array_u64 :: "json option \<Rightarrow> u64 list" where
  "str_array_u64 v = or_else (map_option (map (\<lambda>x. str_u64 (Some x))) (Option.bind v as_array)) []"

definition dp_attr :: "json \<Rightarrow> string \<Rightarrow> string option" where
  "dp_attr dp key = Option.bind (jget dp ''attributes'') (\<lambda>a. attr_str a key)"

definition plain_value_of :: "json option \<Rightarrow> json" where
  "plain_value_of v = (case Option.bind v (\<lambda>x. get_str x ''stringValue'') of Some s \<Rightarrow> JString s
   | None \<Rightarrow> (case Option.bind v (\<lambda>x. get_bool x ''boolValue'') of Some b \<Rightarrow> JBool b
   | None \<Rightarrow> (case Option.bind v (\<lambda>x. get_f64 x ''doubleValue'') of Some d \<Rightarrow> json_f64 d
   | None \<Rightarrow> (case Option.bind v (\<lambda>x. jget x ''intValue'') of
       Some i \<Rightarrow> (case Option.bind (as_str i) parse_i64 of Some n \<Rightarrow> json_i64 n | None \<Rightarrow> JNull)
     | None \<Rightarrow> JNull))))"

definition kv_list_to_object :: "json option \<Rightarrow> (string \<times> json) list" where
  "kv_list_to_object v = (case Option.bind v as_array of None \<Rightarrow> bm_empty
   | Some arr \<Rightarrow> foldl (\<lambda>m x. case get_str x ''key'' of None \<Rightarrow> m
       | Some k \<Rightarrow> bm_insert k (plain_value_of (jget x ''value'')) m) bm_empty arr)"

section \<open>Import: series\<close>

definition source_key :: "json \<Rightarrow> (string \<times> json) list" where
  "source_key dp = (case dp_attr dp ''assayist.source'' of Some s \<Rightarrow> [(''source'', JString s)] | None \<Rightarrow> [])
     @ (case dp_attr dp ''assayist.key'' of Some k \<Rightarrow> [(''key'', JString k)] | None \<Rightarrow> [])"

definition first_point :: "json \<Rightarrow> json option" where
  "first_point body = Option.bind (jget body ''dataPoints'') jfirst"

definition u64s_json :: "u64 list \<Rightarrow> json" where
  "u64s_json ws = JArray (map (\<lambda>w. JNumber (PosInt w)) ws)"

definition imported_series :: "string \<Rightarrow> string \<Rightarrow> string \<Rightarrow> json \<Rightarrow> json \<Rightarrow> json" where
  "imported_series name unit kind dp data = jobj ([(''name'', JString name), (''unit'', JString unit), (''kind'', JString kind)]
     @ source_key dp @ [(''data'', data)])"

definition metric_to_series :: "json \<Rightarrow> json option" where
  "metric_to_series m = Option.bind (get_str m ''name'') (\<lambda>name.
     let unit = or_else (get_str m ''unit'') '''' in
     case jget m ''exponentialHistogram'' of
       Some eh \<Rightarrow> Option.bind (first_point eh) (\<lambda>dp. Some (imported_series name unit ''histogram'' dp
         (jobj ([(''layout'', JString ''log2''),
            (''buckets'', u64s_json (str_array_u64 (Option.bind (jget dp ''positive'') (\<lambda>p. jget p ''bucketCounts'')))),
            (''count'', JNumber (PosInt (str_u64 (jget dp ''count''))))] @ sum_field dp))))
     | None \<Rightarrow> (case jget m ''histogram'' of
       Some h \<Rightarrow> Option.bind (first_point h) (\<lambda>dp. Some (imported_series name unit ''histogram'' dp
         (jobj ([(''layout'', JString ''explicit''), (''buckets'', u64s_json (str_array_u64 (jget dp ''bucketCounts''))),
            (''explicit_bounds'', (case jget dp ''explicitBounds'' of Some b \<Rightarrow> b | None \<Rightarrow> JArray [])),
            (''count'', JNumber (PosInt (str_u64 (jget dp ''count''))))] @ sum_field dp))))
     | None \<Rightarrow> (case jget m ''sum'' of
       Some sm \<Rightarrow> Option.bind (first_point sm) (\<lambda>dp. Some (imported_series name unit ''counter'' dp
         (jobj [(''value'', JNumber (PosInt (str_u64 (jget dp ''asInt'')))),
            (''start_unix_nano'', JNumber (PosInt (str_u64 (jget dp ''timeUnixNano''))))])))
     | None \<Rightarrow> Option.bind (jget m ''gauge'') (\<lambda>g. Option.bind (first_point g) (\<lambda>dp.
         Some (imported_series name unit ''gauge'' dp
         (jobj [(''value'', json_f64 (or_else (get_f64 dp ''asDouble'') (f_lit 0))),
            (''time_unix_nano'', JNumber (PosInt (str_u64 (jget dp ''timeUnixNano''))))])))))))"

definition probe_prefixed :: "json \<Rightarrow> bool" where
  "probe_prefixed m = starts_with ''assayist.probe.'' (or_else (get_str m ''name'') '''')"

definition nested :: "string \<Rightarrow> json \<Rightarrow> json list" where
  "nested field v = or_else (get_array v field) []"

definition import_series :: "json \<Rightarrow> json list" where
  "import_series doc = List.map_filter (\<lambda>m. if probe_prefixed m then None else metric_to_series m)
     (concat (map (nested ''metrics'') (concat (map (nested ''scopeMetrics'') (nested ''resourceMetrics'' doc)))))"

section \<open>Import: spans\<close>

definition raw_spans :: "json \<Rightarrow> json list" where
  "raw_spans doc = concat (map (nested ''spans'') (concat (map (nested ''scopeSpans'') (nested ''resourceSpans'' doc))))"

definition names_by_id :: "json list \<Rightarrow> (string, string) bmap" where
  "names_by_id raw = foldl (\<lambda>m s. case (get_str s ''spanId'', get_str s ''name'') of
     (Some sid, Some name) \<Rightarrow> bm_insert sid name m | _ \<Rightarrow> m) bm_empty raw"

definition import_span :: "(string, string) bmap \<Rightarrow> json \<Rightarrow> json" where
  "import_span by_id s = jobj ([(''name'', (case jget s ''name'' of Some n \<Rightarrow> n | None \<Rightarrow> JNull)),
       (''start_unix_nano'', JNumber (PosInt (str_u64 (jget s ''startTimeUnixNano'')))),
       (''end_unix_nano'', JNumber (PosInt (str_u64 (jget s ''endTimeUnixNano''))))]
     @ (case Option.bind (get_str s ''parentSpanId'') (bm_get by_id) of
          Some name \<Rightarrow> [(''parent'', JString name)] | None \<Rightarrow> [])
     @ (let attrs = kv_list_to_object (jget s ''attributes'') in
        if attrs = [] then [] else [(''attributes'', JObject attrs)])
     @ (case get_str s ''traceId'' of Some tid \<Rightarrow> [(''_trace_id'', JString tid)] | None \<Rightarrow> []))"

definition import_spans :: "json \<Rightarrow> json list" where
  "import_spans doc = (let raw = raw_spans doc in map (import_span (names_by_id raw)) raw)"

fun jremove :: "string \<Rightarrow> json \<Rightarrow> json" where
  "jremove k (JObject m) = JObject (bm_remove k m)"
| "jremove k v = v"

section \<open>Import\<close>

definition import_attrs :: "json \<Rightarrow> json" where
  "import_attrs doc = (case (case Option.bind (jget doc ''resourceSpans'') jfirst of Some r \<Rightarrow> Some r
       | None \<Rightarrow> Option.bind (jget doc ''resourceMetrics'') jfirst) of
     Some r \<Rightarrow> jindex (jindex r ''resource'') ''attributes'' | None \<Rightarrow> JArray [])"

definition imported_fingerprint :: "json \<Rightarrow> fingerprint" where
  "imported_fingerprint attrs = \<lparr>
     fp_hostname = or_else (attr_str attrs ''host.name'') '''',
     fp_kernel_version = or_else (attr_str attrs ''os.version'') '''',
     fp_os_release = or_else (attr_str attrs ''os.description'') '''',
     fp_cpu_model = or_else (attr_str attrs ''host.cpu.model.name'') '''',
     fp_cpu_count_logical = ucast (or_else (attr_int attrs ''assayist.host.cpu_count_logical'') 0),
     fp_cpu_count_physical = ucast (or_else (attr_int attrs ''assayist.host.cpu_count_physical'') 0),
     fp_smt_enabled = or_else (attr_bool attrs ''assayist.host.smt_enabled'') False,
     fp_cpu_governor = or_else (attr_str attrs ''assayist.host.cpu_governor'') ''unknown'',
     fp_thp_setting = or_else (attr_str attrs ''assayist.host.thp'') ''unknown'',
     fp_total_memory_bytes = or_else (attr_int attrs ''assayist.host.memory_bytes'') 0,
     fp_kvm_present = or_else (attr_bool attrs ''assayist.host.kvm'') False,
     fp_tenancy = or_else (attr_str attrs ''assayist.run.tenancy'') ''single_tenant'',
     fp_tuning_requested = jobj [], fp_tuning_readback = jobj [],
     fp_numa_topology = None, fp_pinning_layout = None, fp_mitigations = None,
     fp_microcode_version = None, fp_nested_virt = None\<rparr>"

definition imported_identity :: "json \<Rightarrow> identity" where
  "imported_identity attrs = \<lparr>
     i_target_adapter = or_else (attr_str attrs ''assayist.target_adapter'') ''unknown'',
     i_target_adapter_version = or_else (attr_str attrs ''assayist.target_adapter_version'') ''unknown'',
     i_workload_driver = or_else (attr_str attrs ''assayist.workload_driver'') ''unknown'',
     i_workload_driver_version = or_else (attr_str attrs ''assayist.workload_driver_version'') ''unknown'',
     i_sut_git_sha = or_else (attr_str attrs ''assayist.sut_git_sha'') ''unknown'',
     i_params = jobj [], i_params_hash = or_else (attr_str attrs ''assayist.params_hash'') '''',
     i_benchmark_def_sha = or_else (attr_str attrs ''assayist.benchmark_def_sha'') '''', i_source = ''imported''\<rparr>"

definition import_otlp :: "json \<Rightarrow> string + assay_run" where
  "import_otlp doc = (let attrs = import_attrs doc; spans = import_spans doc;
     run_id = (case spans of [] \<Rightarrow> '''' | s # _ \<Rightarrow> or_else (get_str s ''_trace_id'') '''');
     run = \<lparr>r_schema_version = schema_version, r_run_id = run_id, r_identity = imported_identity attrs,
       r_fingerprint = imported_fingerprint attrs, r_spans = map (jremove ''_trace_id'') spans,
       r_series = import_series doc, r_self_metrics = [], r_gate = jobj [], r_outcome = None,
       r_workload_report = None, r_grade = Invalid\<rparr>
     in Inr (run\<lparr>r_grade := compute_grade run False\<rparr>))"

end
