(* ===== verification/OtlpRoundTrip.thy ===== *)
theory OtlpRoundTrip
  imports Otlp
begin

text \<open>
  Which part of a run survives the export as OTLP and the import of the exported document:
  the core fingerprint and the identity (lemmas on attribute lists), the series (a canonical
  series record per kind of data) and the spans (names, times, parents, plain attributes).
\<close>

section \<open>Attribute lists\<close>

lemma jindex_jobj: "jindex (jobj kvs) k = (case map_of (rev kvs) k of Some x \<Rightarrow> x | None \<Rightarrow> JNull)"
  by (simp add: jindex_def jget_jobj)

lemma jindex_kv [simp]:
  "jindex (kv k v) ''key'' = JString k" "jindex (kv k v) ''value'' = v"
  by (simp_all add: kv_def jindex_jobj)

lemma jget_kv [simp]:
  "jget (kv k v) ''key'' = Some (JString k)" "jget (kv k v) ''value'' = Some v"
  by (simp_all add: kv_def jget_jobj)

text \<open>A list of attributes read by key is the association list of its pairs.\<close>

lemma attr_val_kvs: "attr_val (JArray (map (\<lambda>(k, v). kv k v) kvs)) key = map_of kvs key"
  by (induction kvs) (auto simp: attr_val_def)

lemma get_any [simp]:
  "get_str (any_str s) ''stringValue'' = Some s"
  "jget (any_int n) ''intValue'' = Some (JString (show_int (sint n)))"
  "get_bool (any_bool b) ''boolValue'' = Some b"
  by (simp_all add: any_str_def any_int_def any_bool_def get_str_def get_bool_def jget_jobj)

lemma parse_i64_show [simp]: "parse_i64 (show_int (sint n)) = Some (n :: i64)"
proof -
  have "- (2 ^ 63) \<le> sint n" "sint n \<le> 2 ^ 63 - 1"
    using sint_greater_eq [of n] sint_less [of n] by auto
  then have "parse_int (- (2 ^ 63)) (2 ^ 63 - 1) (show_int (sint n)) = Some (sint n)"
    by (intro parse_int_show) auto
  then show ?thesis by (simp add: parse_i64_def)
qed

lemma ucast_back [simp]: "ucast (ucast (n :: u32) :: i64) = n"
  by (rule bit_word_eqI) (simp add: bit_simps)

definition resource_pairs :: "assay_run \<Rightarrow> (string \<times> json) list" where
  "resource_pairs run = (let f = r_fingerprint run; ident = r_identity run in
     [(''host.name'', any_str (fp_hostname f)),
      (''os.version'', any_str (fp_kernel_version f)),
      (''os.description'', any_str (fp_os_release f)),
      (''host.cpu.model.name'', any_str (fp_cpu_model f)),
      (''assayist.host.cpu_count_logical'', any_int (ucast (fp_cpu_count_logical f))),
      (''assayist.host.cpu_count_physical'', any_int (ucast (fp_cpu_count_physical f))),
      (''assayist.host.smt_enabled'', any_bool (fp_smt_enabled f)),
      (''assayist.host.cpu_governor'', any_str (fp_cpu_governor f)),
      (''assayist.host.thp'', any_str (fp_thp_setting f)),
      (''assayist.host.memory_bytes'', any_int (fp_total_memory_bytes f)),
      (''assayist.host.kvm'', any_bool (fp_kvm_present f)),
      (''assayist.run.tenancy'', any_str (fp_tenancy f)),
      (''assayist.target_adapter'', any_str (i_target_adapter ident)),
      (''assayist.target_adapter_version'', any_str (i_target_adapter_version ident)),
      (''assayist.workload_driver'', any_str (i_workload_driver ident)),
      (''assayist.workload_driver_version'', any_str (i_workload_driver_version ident)),
      (''assayist.sut_git_sha'', any_str (i_sut_git_sha ident)),
      (''assayist.params_hash'', any_str (i_params_hash ident)),
      (''assayist.benchmark_def_sha'', any_str (i_benchmark_def_sha ident)),
      (''assayist.grade'', any_str (grade_name (r_grade run)))]
     @ (case Option.bind (r_outcome run) (\<lambda>out. get_str out ''verdict'') of
          Some v \<Rightarrow> [(''assayist.gate.verdict'', any_str v)] | None \<Rightarrow> []))"

lemma resource_attributes_pairs: "resource_attributes run = map (\<lambda>(k, v). kv k v) (resource_pairs run)"
  by (simp add: resource_attributes_def resource_pairs_def Let_def kv_str_def kv_int_def kv_bool_def
      split: option.split)

lemma resource_val: "attr_val (JArray (resource_attributes run)) key = map_of (resource_pairs run) key"
  unfolding resource_attributes_pairs by (rule attr_val_kvs)

lemma import_attrs_export: "import_attrs (export_at sha to_text run ts) = JArray (resource_attributes run)"
  by (simp add: import_attrs_def export_at_def export_traces_def export_metrics_at_def jget_jobj jindex_jobj
      resource_json_def)

lemma imported_core:
  "imported_fingerprint (JArray (resource_attributes run)) = (r_fingerprint run)\<lparr>
     fp_tuning_requested := jobj [], fp_tuning_readback := jobj [], fp_numa_topology := None,
     fp_pinning_layout := None, fp_mitigations := None, fp_microcode_version := None, fp_nested_virt := None\<rparr>"
  by (simp add: imported_fingerprint_def attr_str_def attr_int_def attr_bool_def resource_val
      resource_pairs_def Let_def)

lemma imported_names:
  "imported_identity (JArray (resource_attributes run)) =
     (r_identity run)\<lparr>i_params := jobj [], i_source := ''imported''\<rparr>"
  by (simp add: imported_identity_def attr_str_def resource_val resource_pairs_def Let_def)

section \<open>Series\<close>

datatype series_data =
    Log2 "u64 list" u64 "f64 option"
  | Explicit "u64 list" "f64 list" u64 "f64 option"
  | Counter u64 u64
  | Gauge f64 u64

record canon_series =
  cs_name :: string
  cs_unit :: string
  cs_source :: "string option"
  cs_key :: "string option"
  cs_data :: series_data

definition opt_sum :: "f64 option \<Rightarrow> (string \<times> json) list" where
  "opt_sum x = (case x of Some v \<Rightarrow> [(''sum'', json_f64 v)] | None \<Rightarrow> [])"

fun data_kind :: "series_data \<Rightarrow> string" where
  "data_kind (Log2 _ _ _) = ''histogram''"
| "data_kind (Explicit _ _ _ _) = ''histogram''"
| "data_kind (Counter _ _) = ''counter''"
| "data_kind (Gauge _ _) = ''gauge''"

fun data_json :: "series_data \<Rightarrow> json" where
  "data_json (Log2 bs n tot) = jobj ([(''layout'', JString ''log2''), (''buckets'', u64s_json bs),
     (''count'', JNumber (PosInt n))] @ opt_sum tot)"
| "data_json (Explicit bs xs n tot) = jobj ([(''layout'', JString ''explicit''), (''buckets'', u64s_json bs),
     (''explicit_bounds'', JArray (map json_f64 xs)), (''count'', JNumber (PosInt n))] @ opt_sum tot)"
| "data_json (Counter v t) = jobj [(''value'', JNumber (PosInt v)), (''start_unix_nano'', JNumber (PosInt t))]"
| "data_json (Gauge x t) = jobj [(''value'', json_f64 x), (''time_unix_nano'', JNumber (PosInt t))]"

text \<open>What a histogram's numbers must be: counts an \<open>i64\<close> holds, finite floats.\<close>

fun data_ok :: "series_data \<Rightarrow> bool" where
  "data_ok (Log2 bs n tot) = (list_all (\<lambda>b. 0 \<le> sint b) bs \<and> pred_option f_finite tot)"
| "data_ok (Explicit bs xs n tot) =
     (list_all (\<lambda>b. 0 \<le> sint b) bs \<and> list_all f_finite xs \<and> pred_option f_finite tot)"
| "data_ok (Counter v t) = True"
| "data_ok (Gauge x t) = f_finite x"

definition opt_str :: "string \<Rightarrow> string option \<Rightarrow> (string \<times> json) list" where
  "opt_str k x = (case x of Some v \<Rightarrow> [(k, JString v)] | None \<Rightarrow> [])"

definition canon_json :: "canon_series \<Rightarrow> json" where
  "canon_json c = jobj ([(''name'', JString (cs_name c)), (''unit'', JString (cs_unit c)),
     (''kind'', JString (data_kind (cs_data c)))]
     @ (opt_str ''source'' (cs_source c) @ opt_str ''key'' (cs_key c)) @ [(''data'', data_json (cs_data c))])"

definition canon_ok :: "canon_series \<Rightarrow> bool" where
  "canon_ok c \<longleftrightarrow> \<not> starts_with ''assayist.probe.'' (cs_name c) \<and> data_ok (cs_data c)"

text \<open>A series of a run as the exporter reads it; its other fields (labels, cardinality) are free.\<close>

definition reads_as :: "json \<Rightarrow> canon_series \<Rightarrow> bool" where
  "reads_as s c \<longleftrightarrow> get_str s ''name'' = Some (cs_name c) \<and> or_else (get_str s ''unit'') '''' = cs_unit c
     \<and> get_str s ''kind'' = Some (data_kind (cs_data c)) \<and> get_str s ''source'' = cs_source c
     \<and> get_str s ''key'' = cs_key c \<and> jget s ''data'' = Some (data_json (cs_data c))"

lemma get_jobj_simps:
  "get_str (jobj kvs) k = Option.bind (map_of (rev kvs) k) as_str"
  "get_f64 (jobj kvs) k = Option.bind (map_of (rev kvs) k) as_f64"
  "get_bool (jobj kvs) k = Option.bind (map_of (rev kvs) k) as_bool"
  "get_array (jobj kvs) k = Option.bind (map_of (rev kvs) k) as_array"
  by (simp_all add: get_str_def get_f64_def get_bool_def get_array_def jget_jobj)

lemma as_f64_json [simp]: "f_finite x \<Longrightarrow> as_f64 (json_f64 x) = Some x"
  by (simp add: json_f64_def)

lemma str_u64_show [simp]:
  "str_u64 (Some (u64_str (Some (JNumber (PosInt n))))) = n"
  "str_u64 (Some (stamp n)) = n"
  by (simp_all add: str_u64_def u64_str_def stamp_def u64_codec.decode_enc)

lemma parse_u64_of_i64: "0 \<le> sint b \<Longrightarrow> parse_u64 (show_int (sint (b :: u64))) = Some b"
proof -
  assume b: "0 \<le> sint b"
  then have "sint b = uint b"
    using sint_less [of b] by (simp add: uint_sint take_bit_int_eq_self)
  then show ?thesis using u64_codec.decode_enc [of b] by (simp add: show_int_def show_u64_def)
qed

lemma bucket_strings_read:
  assumes "list_all (\<lambda>b. 0 \<le> sint b) bs" and "get_array data ''buckets'' = Some (map (\<lambda>w. JNumber (PosInt w)) bs)"
  shows "str_array_u64 (Some (bucket_strings data)) = bs"
proof -
  have "List.map_filter as_i64 (map (\<lambda>w. JNumber (PosInt w)) bs) = bs"
    using assms(1) by (induction bs) (auto simp: map_filter_simps)
  moreover have "map (\<lambda>x. str_u64 (Some x)) (map (\<lambda>b. JString (show_int (sint b))) bs) = bs"
    using assms(1) by (induction bs) (auto simp: str_u64_def parse_u64_of_i64)
  ultimately show ?thesis by (simp add: str_array_u64_def bucket_strings_def assms(2))
qed

lemma bounds_read: "list_all f_finite xs \<Longrightarrow> List.map_filter as_f64 (map json_f64 xs) = xs"
  by (induction xs) (auto simp: map_filter_simps)

lemma map_of_rev_opt_sum: "map_of (rev (opt_sum x)) k = (if k = ''sum'' then map_option json_f64 x else None)"
  by (cases x) (auto simp: opt_sum_def)

lemma sum_field_read: "pred_option f_finite x \<Longrightarrow> get_f64 data ''sum'' = Option.bind (map_option json_f64 x) as_f64 \<Longrightarrow>
    sum_field data = opt_sum x"
  by (cases x) (auto simp: sum_field_def opt_sum_def)

lemma attrs_read:
  "dp_attr (jobj kvs) key = Option.bind (map_of (rev kvs) ''attributes'') (\<lambda>a. attr_str a key)"
  by (simp add: dp_attr_def jget_jobj)

lemma attr_str_series:
  assumes "get_str s ''source'' = src" and "get_str s ''key'' = key"
  shows "attr_str (JArray (series_attrs s)) ''assayist.source'' = src"
    and "attr_str (JArray (series_attrs s)) ''assayist.key'' = key"
proof -
  have eq: "series_attrs s = map (\<lambda>(k, v). kv k v)
      ((case src of Some v \<Rightarrow> [(''assayist.source'', any_str v)] | None \<Rightarrow> [])
       @ (case key of Some v \<Rightarrow> [(''assayist.key'', any_str v)] | None \<Rightarrow> []))"
    using assms by (auto simp: series_attrs_def str_attr_def kv_str_def split: option.split)
  show "attr_str (JArray (series_attrs s)) ''assayist.source'' = src"
    "attr_str (JArray (series_attrs s)) ''assayist.key'' = key"
    unfolding attr_str_def eq attr_val_kvs by (auto split: option.split)
qed

lemma source_key_read:
  assumes "reads_as s c" and "jget dp ''attributes'' = Some (JArray (series_attrs s))"
  shows "source_key dp = opt_str ''source'' (cs_source c) @ opt_str ''key'' (cs_key c)"
  using assms attr_str_series [of s]
  by (simp add: source_key_def dp_attr_def reads_as_def opt_str_def split: option.split)

text \<open>The body a series is exported to, and what is read from it.\<close>

lemma data_json_read:
  "get_str (data_json (Log2 bs n x)) ''layout'' = Some ''log2''"
  "get_str (data_json (Explicit bs xs n x)) ''layout'' = Some ''explicit''"
  "get_array (data_json (Log2 bs n x)) ''buckets'' = Some (map (\<lambda>w. JNumber (PosInt w)) bs)"
  "get_array (data_json (Explicit bs xs n x)) ''buckets'' = Some (map (\<lambda>w. JNumber (PosInt w)) bs)"
  "get_array (data_json (Explicit bs xs n x)) ''explicit_bounds'' = Some (map json_f64 xs)"
  "jget (data_json (Log2 bs n x)) ''count'' = Some (JNumber (PosInt n))"
  "jget (data_json (Explicit bs xs n x)) ''count'' = Some (JNumber (PosInt n))"
  "get_f64 (data_json (Log2 bs n x)) ''sum'' = Option.bind (map_option json_f64 x) as_f64"
  "get_f64 (data_json (Explicit bs xs n x)) ''sum'' = Option.bind (map_option json_f64 x) as_f64"
  "jget (data_json (Counter v t)) ''value'' = Some (JNumber (PosInt v))"
  "jget (data_json (Counter v t)) ''start_unix_nano'' = Some (JNumber (PosInt t))"
  "get_f64 (data_json (Gauge y t)) ''value'' = as_f64 (json_f64 y)"
  "jget (data_json (Gauge y t)) ''time_unix_nano'' = Some (JNumber (PosInt t))"
  by (cases x; simp add: get_jobj_simps jget_jobj u64s_json_def opt_sum_def)+

lemma export_log2:
  assumes "data_ok (Log2 bs n x)"
  shows "\<exists>dp. histogram_body (data_json (Log2 bs n x)) attrs ts = Some (''exponentialHistogram'',
           jobj [(''aggregationTemporality'', JNumber (PosInt 2)), (''dataPoints'', JArray [dp])])
     \<and> jget dp ''attributes'' = Some (JArray attrs)
     \<and> str_array_u64 (Option.bind (jget dp ''positive'') (\<lambda>p. jget p ''bucketCounts'')) = bs
     \<and> str_u64 (jget dp ''count'') = n \<and> sum_field dp = opt_sum x"
proof -
  let ?d = "data_json (Log2 bs n x)"
  let ?dp = "jobj (([(''attributes'', JArray attrs), (''timeUnixNano'', stamp ts), (''count'', u64_str (jget ?d ''count''))]
       @ sum_field ?d) @ [(''scale'', JNumber (PosInt 0)), (''zeroCount'', JString ''0''),
          (''positive'', jobj [(''offset'', JNumber (PosInt 0)), (''bucketCounts'', bucket_strings ?d)])])"
  have sum: "sum_field ?d = opt_sum x" using assms by (intro sum_field_read) (simp_all add: data_json_read del: data_json.simps)
  have "histogram_body ?d attrs ts = Some (''exponentialHistogram'',
           jobj [(''aggregationTemporality'', JNumber (PosInt 2)), (''dataPoints'', JArray [?dp])])"
    by (simp add: histogram_body_def data_json_read Let_def del: data_json.simps)
  moreover have "str_array_u64 (Some (bucket_strings ?d)) = bs"
    using assms by (intro bucket_strings_read) (simp_all add: data_json_read del: data_json.simps)
  moreover have "sum_field ?dp = opt_sum x" using assms
    by (intro sum_field_read) (simp_all add: get_jobj_simps sum map_of_rev_opt_sum map_add_def
        del: data_json.simps split: option.split)
  ultimately show ?thesis
    by (intro exI [of _ ?dp]) (simp add: jget_jobj sum data_json_read map_of_rev_opt_sum map_add_def
        del: data_json.simps)
qed

lemma export_explicit:
  assumes "data_ok (Explicit bs xs n x)"
  shows "\<exists>dp. histogram_body (data_json (Explicit bs xs n x)) attrs ts = Some (''histogram'',
           jobj [(''aggregationTemporality'', JNumber (PosInt 2)), (''dataPoints'', JArray [dp])])
     \<and> jget dp ''attributes'' = Some (JArray attrs)
     \<and> str_array_u64 (jget dp ''bucketCounts'') = bs
     \<and> jget dp ''explicitBounds'' = Some (JArray (map json_f64 xs))
     \<and> str_u64 (jget dp ''count'') = n \<and> sum_field dp = opt_sum x"
proof -
  let ?d = "data_json (Explicit bs xs n x)"
  let ?dp = "jobj (([(''attributes'', JArray attrs), (''timeUnixNano'', stamp ts), (''count'', u64_str (jget ?d ''count''))]
       @ sum_field ?d) @ [(''explicitBounds'', JArray (map json_f64 xs)), (''bucketCounts'', bucket_strings ?d)])"
  have sum: "sum_field ?d = opt_sum x" using assms by (intro sum_field_read) (simp_all add: data_json_read del: data_json.simps)
  have "list_all f_finite xs" using assms by simp
  then have "histogram_body ?d attrs ts = Some (''histogram'',
           jobj [(''aggregationTemporality'', JNumber (PosInt 2)), (''dataPoints'', JArray [?dp])])"
    by (simp add: histogram_body_def data_json_read Let_def bounds_read del: data_json.simps)
  moreover have "str_array_u64 (Some (bucket_strings ?d)) = bs"
    using assms by (intro bucket_strings_read) (simp_all add: data_json_read del: data_json.simps)
  moreover have "sum_field ?dp = opt_sum x" using assms
    by (intro sum_field_read) (simp_all add: get_jobj_simps sum map_of_rev_opt_sum map_add_def
        del: data_json.simps split: option.split)
  ultimately show ?thesis
    by (intro exI [of _ ?dp]) (simp add: jget_jobj sum data_json_read map_of_rev_opt_sum map_add_def
        del: data_json.simps)
qed

lemma metric_fields:
  assumes "k \<notin> {''name'', ''unit''}"
  shows "get_str (jobj [(''name'', JString nm), (''unit'', JString u), (k, v)]) ''name'' = Some nm"
    and "get_str (jobj [(''name'', JString nm), (''unit'', JString u), (k, v)]) ''unit'' = Some u"
    and "j \<notin> {''name'', ''unit''} \<Longrightarrow>
      jget (jobj [(''name'', JString nm), (''unit'', JString u), (k, v)]) j = (if j = k then Some v else None)"
  using assms by (auto simp: get_jobj_simps jget_jobj)

lemma first_point_jobj:
  "first_point (jobj [(a, x), (''dataPoints'', JArray [dp])]) = Some dp"
  "first_point (jobj [(a, x), (b, y), (''dataPoints'', JArray [dp])]) = Some dp"
  "first_point (jobj [(''dataPoints'', JArray [dp])]) = Some dp"
  by (simp_all add: first_point_def jget_jobj)

text \<open>Labels are not exported: series that differ only in them become the same metric.\<close>

lemma export_ignores_labels: "reads_as s c \<Longrightarrow> reads_as s' c \<Longrightarrow> series_to_metric ts s = series_to_metric ts s'"
proof -
  assume r: "reads_as s c" "reads_as s' c"
  then have "series_attrs s = series_attrs s'" by (simp add: series_attrs_def str_attr_def reads_as_def)
  then show ?thesis using r by (simp add: series_to_metric_def reads_as_def)
qed

text \<open>A metric of a series is read back as the canonical series.\<close>

lemma series_metric_read:
  assumes r: "reads_as s c" and ok: "canon_ok c"
  shows "\<exists>m. series_to_metric ts s = Some m \<and> \<not> probe_prefixed m \<and> metric_to_series m = Some (canon_json c)"
proof -
  let ?M = "\<lambda>kv. jobj [(''name'', JString (cs_name c)), (''unit'', JString (cs_unit c)), kv]"
  have unit: "or_else (get_str s ''unit'') '''' = cs_unit c" using r by (simp add: reads_as_def)
  have ser: "series_to_metric ts s = map_option ?M
      (series_body (data_json (cs_data c)) (data_kind (cs_data c)) (series_attrs s) ts)"
    using r by (auto simp: series_to_metric_def reads_as_def map_option_case split: bind_split option.split)
  have key: "source_key dp = opt_str ''source'' (cs_source c) @ opt_str ''key'' (cs_key c)"
    if "jget dp ''attributes'' = Some (JArray (series_attrs s))" for dp
    using source_key_read [OF r that] .
  have np: "\<not> probe_prefixed (?M (k, v))" if "k \<notin> {''name'', ''unit''}" for k v
    using ok that by (simp add: probe_prefixed_def metric_fields canon_ok_def)
  show ?thesis
  proof (cases "cs_data c")
    case (Log2 bs n x)
    obtain dp where "histogram_body (data_json (Log2 bs n x)) (series_attrs s) ts = Some (''exponentialHistogram'',
           jobj [(''aggregationTemporality'', JNumber (PosInt 2)), (''dataPoints'', JArray [dp])])"
      and d: "jget dp ''attributes'' = Some (JArray (series_attrs s))"
      "str_array_u64 (Option.bind (jget dp ''positive'') (\<lambda>p. jget p ''bucketCounts'')) = bs"
      "str_u64 (jget dp ''count'') = n" "sum_field dp = opt_sum x"
      using export_log2 [of bs n x "series_attrs s" ts] ok Log2 by (auto simp: canon_ok_def simp del: data_json.simps)
    then show ?thesis using Log2 ser np
      by (simp add: series_body_def metric_to_series_def metric_fields first_point_jobj key [OF d(1)]
          d imported_series_def canon_json_def)
  next
    case (Explicit bs xs n x)
    obtain dp where "histogram_body (data_json (Explicit bs xs n x)) (series_attrs s) ts = Some (''histogram'',
           jobj [(''aggregationTemporality'', JNumber (PosInt 2)), (''dataPoints'', JArray [dp])])"
      and d: "jget dp ''attributes'' = Some (JArray (series_attrs s))"
      "str_array_u64 (jget dp ''bucketCounts'') = bs" "jget dp ''explicitBounds'' = Some (JArray (map json_f64 xs))"
      "str_u64 (jget dp ''count'') = n" "sum_field dp = opt_sum x"
      using export_explicit [of bs xs n x "series_attrs s" ts] ok Explicit by (auto simp: canon_ok_def simp del: data_json.simps)
    then show ?thesis using Explicit ser np
      by (simp add: series_body_def metric_to_series_def metric_fields first_point_jobj key [OF d(1)]
          d imported_series_def canon_json_def)
  next
    case (Counter v t)
    then show ?thesis using ser np
      by (simp add: series_body_def counter_body_def metric_to_series_def metric_fields first_point_jobj
          key jget_jobj data_json_read imported_series_def canon_json_def del: data_json.simps)
         (simp add: data_json.simps)
  next
    case (Gauge x t)
    then have fin: "f_finite x" using ok by (simp add: canon_ok_def)
    show ?thesis using Gauge ser np fin
      by (simp add: series_body_def gauge_body_def metric_to_series_def metric_fields first_point_jobj
          key jget_jobj get_jobj_simps data_json_read imported_series_def canon_json_def del: data_json.simps)
         (simp add: data_json.simps)
  qed
qed

lemma export_at_get:
  "jget (export_at sha to_text run ts) ''resourceSpans'' = Some (jindex (export_traces sha to_text run) ''resourceSpans'')"
  "jget (export_at sha to_text run ts) ''resourceMetrics'' = Some (jindex (export_metrics_at run ts) ''resourceMetrics'')"
  by (simp_all add: export_at_def jget_jobj)

lemma exported_metrics:
  "concat (map (nested ''metrics'') (concat (map (nested ''scopeMetrics'')
     (nested ''resourceMetrics'' (export_at sha to_text run ts))))) = series_metrics run ts @ probe_metrics run ts"
  by (simp add: nested_def get_array_def export_at_get export_metrics_at_def jindex_jobj jget_jobj)

lemma probe_metrics_prefixed: "\<forall>m \<in> set (probe_metrics run ts). probe_prefixed m"
  by (auto simp: probe_metrics_def probe_metric_def probe_prefixed_def get_jobj_simps starts_with_def)

lemma map_filter_none: "\<forall>x \<in> set xs. f x = None \<Longrightarrow> List.map_filter f xs = []"
  by (induction xs) (auto simp: map_filter_simps)

lemma map_filter_append: "List.map_filter f (xs @ ys) = List.map_filter f xs @ List.map_filter f ys"
  by (simp add: List.map_filter_def)

lemma series_metrics_read:
  assumes "list_all2 reads_as ss cs" and "list_all canon_ok cs"
  shows "List.map_filter (\<lambda>m. if probe_prefixed m then None else metric_to_series m)
           (List.map_filter (series_to_metric ts) ss) = map canon_json cs"
  using assms
proof (induction ss cs rule: list_all2_induct)
  case (Cons s ss c cs)
  obtain m where "series_to_metric ts s = Some m" "\<not> probe_prefixed m" "metric_to_series m = Some (canon_json c)"
    using series_metric_read [of s c ts] Cons by auto
  then show ?case using Cons by (simp add: map_filter_simps)
qed (simp add: map_filter_simps)

section \<open>Spans\<close>

record canon_span =
  sp_name :: string
  sp_start :: u64
  sp_end :: u64
  sp_parent :: "string option"
  sp_attrs :: "(string \<times> json) list"

text \<open>Attribute values OTLP carries as they are: strings, booleans, integers of an \<open>i64\<close>, finite floats.\<close>

fun plain_attr :: "json \<Rightarrow> bool" where
  "plain_attr (JString s) = True"
| "plain_attr (JBool b) = True"
| "plain_attr (JNumber (PosInt w)) = (0 \<le> sint w)"
| "plain_attr (JNumber (NegInt w)) = (sint w < 0)"
| "plain_attr (JNumber (Float x)) = f_finite x"
| "plain_attr _ = False"

definition span_ok :: "canon_span \<Rightarrow> bool" where
  "span_ok c \<longleftrightarrow> bm_inv (sp_attrs c) \<and> (\<forall>kv \<in> set (sp_attrs c). plain_attr (snd kv))"

definition span_attrs_of :: "json \<Rightarrow> (string \<times> json) list" where
  "span_attrs_of s = (case jget s ''attributes'' of Some (JObject m) \<Rightarrow> m | _ \<Rightarrow> [])"

definition span_reads :: "json \<Rightarrow> canon_span \<Rightarrow> bool" where
  "span_reads s c \<longleftrightarrow> get_str s ''name'' = Some (sp_name c)
     \<and> jget s ''start_unix_nano'' = Some (JNumber (PosInt (sp_start c)))
     \<and> jget s ''end_unix_nano'' = Some (JNumber (PosInt (sp_end c)))
     \<and> get_str s ''parent'' = sp_parent c \<and> span_attrs_of s = sp_attrs c"

text \<open>The span that comes back: a parent that names no span of the run is dropped.\<close>

definition span_json :: "string set \<Rightarrow> canon_span \<Rightarrow> json" where
  "span_json names c = jobj ([(''name'', JString (sp_name c)), (''start_unix_nano'', JNumber (PosInt (sp_start c))),
       (''end_unix_nano'', JNumber (PosInt (sp_end c)))]
     @ (case sp_parent c of Some p \<Rightarrow> if p \<in> names then [(''parent'', JString p)] else [] | None \<Rightarrow> [])
     @ (if sp_attrs c = [] then [] else [(''attributes'', JObject (sp_attrs c))]))"

lemma bm_insert_last: "\<forall>a \<in> set (bm_keys m). a < k \<Longrightarrow> bm_insert k v m = m @ [(k, v)]"
  by (induction k v m rule: bm_insert.induct) auto

lemma bm_insert_all: "bm_inv (m0 @ m) \<Longrightarrow> foldl (\<lambda>m kv. bm_insert (fst kv) (snd kv) m) m0 m = m0 @ m"
proof (induction m arbitrary: m0)
  case (Cons kv m)
  have "\<forall>a \<in> set (bm_keys m0). a < fst kv" using Cons.prems by (auto simp: bm_inv_def sorted_wrt_append)
  then have "bm_insert (fst kv) (snd kv) m0 = m0 @ [kv]" by (simp add: bm_insert_last)
  then show ?case using Cons by simp
qed simp

lemma bm_remove_new: "k \<notin> set (bm_keys m) \<Longrightarrow> bm_remove k (bm_insert k v m) = m"
  by (induction k v m rule: bm_insert.induct) auto

lemma jremove_jobj: "k \<notin> fst ` set kvs \<Longrightarrow> jremove k (jobj (kvs @ [(k, v)])) = jobj kvs"
proof -
  assume k: "k \<notin> fst ` set kvs"
  have "fst ` set (fold (\<lambda>(k, v). bm_insert k v) kvs m) = fst ` set kvs \<union> fst ` set m" for m :: "(string \<times> json) list"
    by (induction kvs arbitrary: m) (simp_all add: split_beta)
  from this [of bm_empty] k show ?thesis
    by (auto simp: jobj_def bm_empty_def intro!: bm_remove_new)
qed

lemma plain_value_any:
  assumes "plain_attr x"
  shows "get_str (any_kv to_text k x) ''key'' = Some k"
    and "plain_value_of (jget (any_kv to_text k x) ''value'') = x"
proof -
  show "get_str (any_kv to_text k x) ''key'' = Some k"
    by (cases "(to_text, k, x)" rule: any_kv.cases) (auto simp: get_str_def)
  have p: "parse_i64 (show_u64 w) = Some w" if "0 \<le> sint w" for w :: u64
  proof -
    have "show_u64 w = show_int (sint w)"
      using that sint_less [of w] by (simp add: show_u64_def show_int_def uint_sint take_bit_int_eq_self)
    then show ?thesis using parse_i64_show [of w] by simp
  qed
  show "plain_value_of (jget (any_kv to_text k x) ''value'') = x"
  proof (cases x)
    case (JNumber n)
    then show ?thesis using assms
      by (cases n) (auto simp: plain_value_of_def get_jobj_simps jget_jobj p json_i64_def json_f64_def)
  qed (use assms in \<open>auto simp: plain_value_of_def any_str_def any_bool_def get_jobj_simps jget_jobj\<close>)
qed

lemma attributes_read:
  assumes "bm_inv m" and "\<forall>kv \<in> set m. plain_attr (snd kv)"
  shows "kv_list_to_object (Some (JArray (map (\<lambda>(k, x). any_kv to_text k x) m))) = m"
proof -
  have "foldl (\<lambda>m x. case get_str x ''key'' of None \<Rightarrow> m
       | Some k \<Rightarrow> bm_insert k (plain_value_of (jget x ''value'')) m) m0 (map (\<lambda>(k, x). any_kv to_text k x) m)
     = foldl (\<lambda>m kv. bm_insert (fst kv) (snd kv) m) m0 m" for m0
    using assms(2) by (induction m arbitrary: m0) (auto simp: plain_value_any split: prod.splits)
  then show ?thesis using bm_insert_all [of bm_empty m] assms(1)
    by (simp add: kv_list_to_object_def bm_empty_def)
qed

lemma attributes_from_read: "attributes_from to_text (jget s ''attributes'') = map (\<lambda>(k, x). any_kv to_text k x) (span_attrs_of s)"
  by (auto simp: attributes_from_def span_attrs_of_def split: option.split json.split)

text \<open>The two name tables: the exporter's keeps the first id of a name, the importer's the last name of an id.\<close>

lemma by_name_get:
  "bm_get (foldl (\<lambda>m (s, sid). bm_or_insert (export_name s) sid m) m0 zs) p =
     (case bm_get m0 p of Some sid \<Rightarrow> Some sid | None \<Rightarrow> map_option snd (find (\<lambda>z. export_name (fst z) = p) zs))"
  by (induction zs arbitrary: m0) (auto simp: bm_get_or_insert split: option.split)

lemma by_id_get:
  assumes "\<forall>z \<in> set zs. get_str (g z) ''spanId'' = Some (fst z) \<and> get_str (g z) ''name'' = Some (h z)"
  shows "bm_get (foldl (\<lambda>m s. case (get_str s ''spanId'', get_str s ''name'') of
     (Some sid, Some name) \<Rightarrow> bm_insert sid name m | _ \<Rightarrow> m) m0 (map g zs)) sid =
       (case find (\<lambda>z. fst z = sid) (rev zs) of Some z \<Rightarrow> Some (h z) | None \<Rightarrow> bm_get m0 sid)"
  using assms by (induction zs rule: rev_induct) auto

lemma span_reads_fields:
  assumes "span_reads s c"
  shows "jget (export_span to_text rid by_name sid s) ''name'' = Some (JString (sp_name c))"
    and "str_u64 (jget (export_span to_text rid by_name sid s) ''startTimeUnixNano'') = sp_start c"
    and "str_u64 (jget (export_span to_text rid by_name sid s) ''endTimeUnixNano'') = sp_end c"
    and "get_str (export_span to_text rid by_name sid s) ''parentSpanId'' = Option.bind (sp_parent c) (bm_get by_name)"
    and "jget (export_span to_text rid by_name sid s) ''attributes'' =
      Some (JArray (map (\<lambda>(k, x). any_kv to_text k x) (sp_attrs c)))"
  using assms
  by (auto simp: export_span_def span_reads_def jget_jobj get_jobj_simps export_name_def attributes_from_read
      split: option.split)

lemma export_span_ids:
  "get_str (export_span to_text rid by_name sid s) ''spanId'' = Some sid"
  "get_str (export_span to_text rid by_name sid s) ''name'' = Some (export_name s)"
  "get_str (export_span to_text rid by_name sid s) ''traceId'' = Some rid"
  by (auto simp: export_span_def jget_jobj get_jobj_simps split: option.split)

lemma length_span_ids [simp]: "length (span_ids sha rid ss) = length ss"
  by (simp add: span_ids_def)

lemma find_SomeD: "find P xs = Some x \<Longrightarrow> x \<in> set xs \<and> P x"
  by (induction xs) (auto split: if_splits)

lemma parent_resolves:
  assumes uniq: "\<forall>z \<in> set (zip ids ss). \<forall>z' \<in> set (zip ids ss). fst z = fst z' \<longrightarrow> export_name (snd z) = export_name (snd z')"
    and ids: "ids = span_ids sha rid ss"
    and raw: "raw = map (\<lambda>(sid, s). export_span to_text rid by_name sid s) (zip ids ss)"
  shows "Option.bind (bm_get (ids_by_name sha rid ss) p) (bm_get (names_by_id raw)) =
    (if p \<in> export_name ` set ss then Some p else None)"
proof -
  have nm: "bm_get (ids_by_name sha rid ss) p = map_option snd (find (\<lambda>z. export_name (fst z) = p) (zip ss ids))"
    by (simp add: ids_by_name_def by_name_get ids)
  have id_get: "bm_get (names_by_id raw) sid = map_option (\<lambda>z. export_name (snd z)) (find (\<lambda>z. fst z = sid) (rev (zip ids ss)))" for sid
    unfolding names_by_id_def raw
    by (subst by_id_get [where h = "\<lambda>z. export_name (snd z)"]) (auto simp: export_span_ids split: option.split)
  show ?thesis
  proof (cases "find (\<lambda>z. export_name (fst z) = p) (zip ss ids)")
    case None
    then have "\<forall>z \<in> set (zip ss ids). export_name (fst z) \<noteq> p" using None unfolding find_None_iff by blast
    then have "\<forall>s \<in> set (map fst (zip ss ids)). export_name s \<noteq> p" by simp
    then have "\<forall>s \<in> set ss. export_name s \<noteq> p" by (simp only: map_fst_zip ids length_span_ids)
    then show ?thesis using None nm by auto
  next
    case (Some z)
    obtain s sid where z: "z = (s, sid)" by (cases z)
    have p: "export_name s = p" and mem: "(s, sid) \<in> set (zip ss ids)"
      using find_SomeD [OF Some] by (simp_all add: z)
    then have mem': "(sid, s) \<in> set (zip ids ss)" by (auto simp: in_set_zip)
    have "find (\<lambda>z. fst z = sid) (rev (zip ids ss)) \<noteq> None"
      using mem' unfolding find_None_iff set_rev not_not by (intro exI [of _ "(sid, s)"]) simp
    then obtain y where y: "find (\<lambda>z. fst z = sid) (rev (zip ids ss)) = Some y" by auto
    have ym: "y \<in> set (zip ids ss)" and yid: "fst y = sid" using find_SomeD [OF y] unfolding set_rev by blast+
    have "export_name (snd y) = export_name (snd (sid, s))"
      using bspec [OF bspec [OF uniq ym] mem'] yid by simp
    then have "export_name (snd y) = p" using p by simp
    moreover have "p \<in> export_name ` set ss" using imageI [OF set_zip_leftD [OF mem], of export_name] p by simp
    ultimately show ?thesis by (simp add: nm Some z id_get y)
  qed
qed

text \<open>One span exported and imported again.\<close>

lemma import_export_span:
  assumes r: "span_reads s c" and ok: "span_ok c"
    and par: "\<And>p. Option.bind (bm_get by_name p) (bm_get by_id) = (if p \<in> names then Some p else None)"
  shows "jremove ''_trace_id'' (import_span by_id (export_span to_text rid by_name sid s)) = span_json names c"
proof -
  let ?e = "export_span to_text rid by_name sid s"
  have at: "kv_list_to_object (jget ?e ''attributes'') = sp_attrs c"
    using ok by (simp add: span_reads_fields [OF r] attributes_read span_ok_def)
  have pa: "Option.bind (get_str ?e ''parentSpanId'') (bm_get by_id) =
      Option.bind (sp_parent c) (\<lambda>p. if p \<in> names then Some p else None)"
    by (cases "sp_parent c") (simp_all add: span_reads_fields [OF r] par)
  have "import_span by_id ?e = jobj (([(''name'', JString (sp_name c)), (''start_unix_nano'', JNumber (PosInt (sp_start c))),
       (''end_unix_nano'', JNumber (PosInt (sp_end c)))]
     @ (case sp_parent c of Some p \<Rightarrow> if p \<in> names then [(''parent'', JString p)] else [] | None \<Rightarrow> [])
     @ (if sp_attrs c = [] then [] else [(''attributes'', JObject (sp_attrs c))]))
     @ [(''_trace_id'', JString rid)])"
    by (simp add: import_span_def span_reads_fields(1-3) [OF r] export_span_ids at pa split: option.split)
  then show ?thesis unfolding span_json_def
    by (simp only:) (rule jremove_jobj, auto split: option.split)
qed

section \<open>Properties\<close>

text \<open>C22: The core of the fingerprint (host name, kernel, CPU model and counts, SMT, governor,
  THP, memory, KVM, tenancy) and the identity survive the export and the import of a run, every
  integer at its width; what does not survive is the tuning record, the extended fingerprint
  and the parameters, and the source becomes imported.\<close>

theorem import_export_resource:
  "\<exists>imp. import_otlp (export_at sha to_text run ts) = Inr imp
     \<and> r_fingerprint imp = (r_fingerprint run)\<lparr>fp_tuning_requested := jobj [], fp_tuning_readback := jobj [],
         fp_numa_topology := None, fp_pinning_layout := None, fp_mitigations := None,
         fp_microcode_version := None, fp_nested_virt := None\<rparr>
     \<and> r_identity imp = (r_identity run)\<lparr>i_params := jobj [], i_source := ''imported''\<rparr>"
  unfolding import_otlp_def Let_def import_attrs_export imported_core imported_names by simp

text \<open>Whatever document is imported, the import succeeds and the run is graded valid, never
  reproducible and never invalid: it is marked imported, has no cost record and no outcome, and
  the gate, which reads the serialised run, does not take it for a reproducible one.\<close>

theorem import_grades_valid:
  "\<exists>run. import_otlp doc = Inr run \<and> r_grade run = Valid \<and> i_source (r_identity run) = ''imported''
     \<and> r_self_metrics run = [] \<and> r_outcome run = None
     \<and> grade_of (run_json run) = ''valid''"
proof -
  obtain run where i: "import_otlp doc = Inr run" by (simp add: import_otlp_def Let_def)
  have f: "r_fingerprint run = imported_fingerprint (import_attrs doc)"
    "r_identity run = imported_identity (import_attrs doc)"
    "r_self_metrics run = []" "r_outcome run = None"
    and g: "\<exists>run0. r_grade run = compute_grade run0 False \<and> r_fingerprint run0 = r_fingerprint run
      \<and> r_identity run0 = r_identity run"
    using i by (auto simp: import_otlp_def Let_def)
  have src: "i_source (r_identity run) = ''imported''" by (simp add: f(2) imported_identity_def)
  have "tuning_consistent (r_fingerprint run)"
    by (simp add: f(1) imported_fingerprint_def tuning_consistent_def jobj_def bm_empty_def)
  then have v: "r_grade run = Valid" using g src by (auto simp: compute_grade_def)
  have "grade_of (run_json run) = ''valid''"
    using v by (simp add: grade_of_def get_str_def run_json_get)
  then show ?thesis using i v src f by auto
qed


definition sample_gauge :: canon_series where
  "sample_gauge = \<lparr>cs_name = ''memory'', cs_unit = ''bytes'', cs_source = Some ''orchestrator'', cs_key = None,
     cs_data = Gauge (Fin 3) 7\<rparr>"

definition sample_histogram :: canon_series where
  "sample_histogram = \<lparr>cs_name = ''exit'', cs_unit = ''ns'', cs_source = Some ''kvm'', cs_key = Some ''12'',
     cs_data = Log2 [0, 3, 1] 4 (Some (Fin 40))\<rparr>"

definition sample_run :: assay_run where
  "sample_run = \<lparr>r_schema_version = schema_version, r_run_id = ''r1'',
     r_identity = imported_identity (JArray []), r_fingerprint = imported_fingerprint (JArray []),
     r_spans = [jobj [(''name'', JString ''run''), (''start_unix_nano'', JNumber (PosInt 1)), (''end_unix_nano'', JNumber (PosInt 9))],
       jobj [(''name'', JString ''boot''), (''start_unix_nano'', JNumber (PosInt 2)), (''end_unix_nano'', JNumber (PosInt 3)),
         (''parent'', JString ''run''), (''attributes'', jobj [(''vcpu'', JNumber (PosInt 2))])]],
     r_series = [jobj [(''name'', JString ''memory''), (''unit'', JString ''bytes''), (''kind'', JString ''gauge''),
         (''labels'', jobj [(''vm_id'', JString ''3'')]),
         (''source'', JString ''orchestrator''), (''data'', data_json (Gauge (Fin 3) 7))],
       canon_json sample_histogram],
     r_self_metrics = [], r_gate = jobj [], r_outcome = None, r_workload_report = None, r_grade = Valid\<rparr>"

lemma sample_series_reads: "list_all2 reads_as (r_series sample_run) [sample_gauge, sample_histogram]"
  unfolding sample_run_def sample_gauge_def
  by (simp add: sample_histogram_def reads_as_def get_jobj_simps jget_jobj canon_json_def opt_str_def
      del: data_json.simps)


lemma span_names_unique:
  assumes "length ss = length cs" and "\<forall>i < length cs. export_name (ss ! i) = sp_name (cs ! i)"
    and "\<forall>i < length cs. \<forall>j < length cs. ids ! i = ids ! j \<longrightarrow> sp_name (cs ! i) = sp_name (cs ! j)"
  shows "\<forall>z \<in> set (zip ids ss). \<forall>z' \<in> set (zip ids ss). fst z = fst z' \<longrightarrow> export_name (snd z) = export_name (snd z')"
proof (intro ballI impI)
  fix z z' assume z: "z \<in> set (zip ids ss)" "z' \<in> set (zip ids ss)" and eq: "fst z = fst z'"
  have pos: "\<exists>i < length cs. y = (ids ! i, ss ! i)" if "y \<in> set (zip ids ss)" for y
    using that assms(1) unfolding set_zip by auto
  obtain i j where ij: "i < length cs" "z = (ids ! i, ss ! i)" "j < length cs" "z' = (ids ! j, ss ! j)"
    using pos [OF z(1)] pos [OF z(2)] by blast
  have "ids ! i = ids ! j" using eq ij by simp
  then have "sp_name (cs ! i) = sp_name (cs ! j)" using assms(3) ij(1,3) by blast
  then show "export_name (snd z) = export_name (snd z')" using assms(2) ij by simp
qed

text \<open>C24: The spans of a run survive the export and the import: name, times, attributes (strings,
  booleans, 64-bit integers, finite floats) and the parent, found again through the derived span
  ids; only a parent that names no span of the run is dropped. The run id comes back from the
  trace id. It rests on the ids, cut from a hash, not confusing two names of the run.\<close>

theorem import_export_spans:
  assumes reads: "list_all2 span_reads (r_spans run) cs" and ok: "list_all span_ok cs"
    and ids: "\<forall>i < length cs. \<forall>j < length cs.
      span_ids sha (r_run_id run) (r_spans run) ! i = span_ids sha (r_run_id run) (r_spans run) ! j
      \<longrightarrow> sp_name (cs ! i) = sp_name (cs ! j)"
  shows "\<exists>imp. import_otlp (export_at sha to_text run ts) = Inr imp
    \<and> r_spans imp = map (span_json (sp_name ` set cs)) cs
    \<and> r_run_id imp = (if r_spans run = [] then '''' else r_run_id run)"
proof -
  let ?ss = "r_spans run" let ?rid = "r_run_id run"
  let ?ids = "span_ids sha ?rid ?ss" let ?bn = "ids_by_name sha ?rid ?ss"
  define raw where raw: "raw = map (\<lambda>(sid, s). export_span to_text ?rid ?bn sid s) (zip ?ids ?ss)"
  have len: "length ?ss = length cs" using reads by (rule list_all2_lengthD)
  have nm: "export_name (?ss ! i) = sp_name (cs ! i)" if "i < length cs" for i
    using list_all2_nthD2 [OF reads that] by (simp add: span_reads_def export_name_def)
  have "map export_name ?ss = map sp_name cs" using nm len by (intro nth_equalityI) simp_all
  then have names: "export_name ` set ?ss = sp_name ` set cs" by (metis set_map)
  have uniq: "\<forall>z \<in> set (zip ?ids ?ss). \<forall>z' \<in> set (zip ?ids ?ss).
      fst z = fst z' \<longrightarrow> export_name (snd z) = export_name (snd z')"
    using span_names_unique [OF len _ ids] nm by blast
  have doc: "raw_spans (export_at sha to_text run ts) = raw"
    by (simp add: raw_spans_def nested_def get_array_def export_at_get export_traces_def jindex_jobj jget_jobj
        export_spans_def raw)
  have res: "Option.bind (bm_get ?bn p) (bm_get (names_by_id raw)) = (if p \<in> sp_name ` set cs then Some p else None)" for p
    using parent_resolves [OF uniq refl raw] names by simp
  have "map (\<lambda>e. jremove ''_trace_id'' (import_span (names_by_id raw) e)) raw = map (span_json (sp_name ` set cs)) cs"
  proof (rule nth_equalityI)
    fix i assume "i < length (map (\<lambda>e. jremove ''_trace_id'' (import_span (names_by_id raw) e)) raw)"
    then have i: "i < length cs" using len by (simp add: raw)
    have e: "raw ! i = export_span to_text ?rid ?bn (?ids ! i) (?ss ! i)" "i < length raw"
      using i len by (simp_all add: raw)
    show "map (\<lambda>e. jremove ''_trace_id'' (import_span (names_by_id raw) e)) raw ! i = map (span_json (sp_name ` set cs)) cs ! i"
      using import_export_span [OF list_all2_nthD2 [OF reads i] _ res, of to_text ?rid "?ids ! i"] ok i e
      by (simp add: list_all_length)
  qed (simp add: raw len)
  then have sp: "map (jremove ''_trace_id'') (import_spans (export_at sha to_text run ts)) = map (span_json (sp_name ` set cs)) cs"
    by (simp add: import_spans_def doc Let_def comp_def)
  have rid: "(case import_spans (export_at sha to_text run ts) of [] \<Rightarrow> '''' | s # _ \<Rightarrow> or_else (get_str s ''_trace_id'') '''')
      = (if ?ss = [] then '''' else ?rid)"
    by (cases "?ss"; cases "?ids")
      (auto simp: import_spans_def doc raw Let_def import_span_def export_span_ids get_jobj_simps span_ids_def
        split: option.split)
  show ?thesis by (simp add: import_otlp_def Let_def sp rid)
qed

definition sample_digest :: "string \<Rightarrow> u8 list" where
  "sample_digest s = map (\<lambda>c. word_of_int (of_char c)) (rev s)"

definition sample_spans :: "canon_span list" where
  "sample_spans = [\<lparr>sp_name = ''run'', sp_start = 1, sp_end = 9, sp_parent = None, sp_attrs = []\<rparr>,
     \<lparr>sp_name = ''boot'', sp_start = 2, sp_end = 3, sp_parent = Some ''run'', sp_attrs = [(''vcpu'', JNumber (PosInt 2))]\<rparr>]"

lemma sample_ids: "span_ids sample_digest (r_run_id sample_run) (r_spans sample_run) = [''0000000000000000'', ''0000000000000001'']"
  by code_simp

theorem import_export_spans_witness:
  "\<exists>imp. import_otlp (export_at sample_digest (\<lambda>_. '''') sample_run 5) = Inr imp
     \<and> r_spans imp = map (span_json (sp_name ` set sample_spans)) sample_spans
     \<and> r_run_id imp = (if r_spans sample_run = [] then '''' else r_run_id sample_run)"
proof (rule import_export_spans)
  show "list_all2 span_reads (r_spans sample_run) sample_spans"
    by (simp add: sample_run_def sample_spans_def span_reads_def get_str_def span_attrs_of_def
        jobj_def bm_empty_def)
  show "list_all span_ok sample_spans"
    by (simp add: sample_spans_def span_ok_def bm_inv_def)
  show "\<forall>i < length sample_spans. \<forall>j < length sample_spans.
      span_ids sample_digest (r_run_id sample_run) (r_spans sample_run) ! i =
      span_ids sample_digest (r_run_id sample_run) (r_spans sample_run) ! j
      \<longrightarrow> sp_name (sample_spans ! i) = sp_name (sample_spans ! j)"
    unfolding sample_ids by (auto simp: sample_spans_def less_Suc_eq)
qed

end
