(* ===== verification/Native.thy ===== *)
theory Native
  imports Adapter Netattrib
begin

text \<open>
  \<open>crates/orchestrate/src/native.rs\<close>, the target adapters: Firecracker (cold boot, restore from
  a snapshot, streaming restore, tap networking, pinning, snapshots at steady state), QEMU,
  Cloud Hypervisor and unikernels. A target acts on the world through the shell; its cells
  (\<open>RefCell\<close>) are a second state next to the world. The printing and reading of JSON, the
  clock and the process id are parameters.
\<close>

section \<open>Texts\<close>

text \<open>\<open>format!\<close>: a named argument for \<open>{name}\<close>, a doubled brace for a brace.\<close>

function fmt :: "(string \<times> string) list \<Rightarrow> string \<Rightarrow> string" where
  "fmt args [] = []"
| "fmt args (c # s) =
     (if c = CHR ''{'' \<and> starts_with ''{'' s \<or> c = CHR ''}'' \<and> starts_with ''}'' s then c # fmt args (tl s)
      else if c = CHR ''{'' then (let name = takeWhile (\<lambda>d. d \<noteq> CHR ''}'') s in
        or_else (map_of args name) '''' @ fmt args (drop (length name + 1) s))
      else c # fmt args s)"
  by pat_completeness auto
termination
  by (relation "measure (\<lambda>(args, s). length s)") auto

definition cfg :: "(json \<Rightarrow> string) \<Rightarrow> (string, json) bmap \<Rightarrow> (string, string) bmap \<Rightarrow> string \<Rightarrow> string \<Rightarrow> string" where
  "cfg to_text config vs key dflt = (case bm_get config key of
     Some (JString s) \<Rightarrow> render s vs | Some other \<Rightarrow> to_text other | None \<Rightarrow> dflt)"

text \<open>A key the definition has to name: its value, or nothing.\<close>

definition cfg_opt :: "(json \<Rightarrow> string) \<Rightarrow> (string, json) bmap \<Rightarrow> (string, string) bmap \<Rightarrow> string \<Rightarrow> string option" where
  "cfg_opt to_text config vs key = map_option (\<lambda>_. cfg to_text config vs key '''') (bm_get config key)"

definition digit36 :: "nat \<Rightarrow> char" where
  "digit36 d = ''0123456789abcdefghijklmnopqrstuvwxyz'' ! d"

fun digits36 :: "nat \<Rightarrow> string" where
  "digits36 n = (if n = 0 then [] else digit36 (n mod 36) # digits36 (n div 36))"

declare digits36.simps [simp del]

definition base36 :: "u64 \<Rightarrow> string" where
  "base36 n = (if n = 0 then ''0'' else rev (digits36 (unat n)))"

definition span_value :: "string \<Rightarrow> string option \<Rightarrow> u64 \<Rightarrow> u64 \<Rightarrow> json" where
  "span_value name parent start end' = jobj ([(''name'', JString name)]
     @ (case parent of Some p \<Rightarrow> [(''parent'', JString p)] | None \<Rightarrow> [])
     @ [(''start_unix_nano'', JNumber (PosInt start)), (''end_unix_nano'', JNumber (PosInt end'))])"

definition looks_like_version :: "string \<Rightarrow> bool" where
  "looks_like_version t = (case or_else (strip_prefix ''v'' t) t of [] \<Rightarrow> False | c # _ \<Rightarrow> is_ascii_digit c)"

definition version_token :: "string \<Rightarrow> string" where
  "version_token out = (let first = trim (case str_lines out of [] \<Rightarrow> '''' | l # _ \<Rightarrow> l) in
     or_else (find looks_like_version (split_ws first)) first)"

text \<open>The suffix of a default socket path: the instance's index when there are several.\<close>

definition instance_suffix :: "(string, string) bmap \<Rightarrow> string" where
  "instance_suffix vs = (case bm_get vs ''instance'' of Some i \<Rightarrow> ''-'' @ i | None \<Rightarrow> '''')"

definition cell_or :: "(json \<Rightarrow> string) \<Rightarrow> (string, json) bmap \<Rightarrow> (string, string) bmap \<Rightarrow> string \<Rightarrow> string \<Rightarrow> string" where
  "cell_or to_text config vs key dflt = (case bm_get vs key of Some v \<Rightarrow> v | None \<Rightarrow> cfg to_text config vs key dflt)"

section \<open>Effects of a target\<close>

text \<open>A shell command for its success only; an optional command that may be blank.\<close>

definition sh_run :: "'w shell \<Rightarrow> string \<Rightarrow> ('w \<times> 's, unit) io" where
  "sh_run sh cmd = on_inner (io_map (\<lambda>_. ()) (sh cmd))"

definition run_given :: "'w shell \<Rightarrow> string option \<Rightarrow> ('w \<times> 's, unit) io" where
  "run_given sh cmd = (case cmd of Some c \<Rightarrow> if trim c \<noteq> '''' then sh_run sh c else io_ok () | None \<Rightarrow> io_ok ())"

definition on_cells :: "('s \<Rightarrow> 's) \<Rightarrow> ('w \<times> 's, unit) io" where
  "on_cells f = (\<lambda>(w, st). (Inr (), w, f st))"

text \<open>A step between two readings of the clock, recorded as a span only when it succeeds.\<close>

definition timed_step :: "('w \<Rightarrow> u64 \<times> 'w) \<Rightarrow> (json \<Rightarrow> 's \<Rightarrow> 's) \<Rightarrow> string \<Rightarrow> string option
    \<Rightarrow> ('w \<times> 's, unit) io \<Rightarrow> ('w \<times> 's, unit) io" where
  "timed_step now push name parent f = (\<lambda>(w, st). let (start, w1) = now w in
     case f (w1, st) of (Inl e, w2, st2) \<Rightarrow> (Inl e, w2, st2)
     | (Inr _, w2, st2) \<Rightarrow> let (end', w3) = now w2 in (Inr (), w3, push (span_value name parent start end') st2))"

definition version_of :: "'w shell \<Rightarrow> string \<Rightarrow> string \<Rightarrow> ('w \<times> 's) \<Rightarrow> string \<times> 'w \<times> 's" where
  "version_of sh cmd fallback = (\<lambda>(w, st). case sh cmd w of
     (Inr out, w') \<Rightarrow> (version_token out, w', st) | (Inl _, w') \<Rightarrow> (fallback, w', st))"

definition version_cmd :: "string \<Rightarrow> string" where
  "version_cmd bin = quoted bin @ '' --version''"

section \<open>Firecracker\<close>

record firecracker =
  fc_bin :: string
  fc_sock :: string
  fc_vcpu :: string
  fc_mem_mib :: string
  fc_smt :: bool
  fc_kernel :: string
  fc_rootfs :: string
  fc_boot_args :: string
  fc_from_snapshot :: "(string \<times> string) option"
  fc_snapshot_out :: "(string \<times> string) option"
  fc_readiness :: "string option"
  fc_pre_restore :: "string option"
  fc_mem_backend :: string
  fc_uffd_handler :: "string option"
  fc_stream_source :: "string option"
  fc_stream_bin :: string
  fc_stream_wsmeta :: string
  fc_stream_prefetch :: bool
  fc_stream_dir :: string
  fc_pin_threads :: bool
  fc_cpu_base :: u32
  fc_tap :: "string option"
  fc_guest_mac :: string

record fc_cells =
  fl_tap_ifindex :: "u32 option"
  fl_spans :: "json list"
  fl_pinning :: "json option"

definition fc_cells_new :: fc_cells where
  "fc_cells_new = \<lparr>fl_tap_ifindex = None, fl_spans = [], fl_pinning = None\<rparr>"

definition tap_name :: "u32 \<Rightarrow> u64 \<Rightarrow> string" where
  "tap_name pid inst = ''asy'' @ base36 (ucast pid) @ ''-'' @ show_u64 inst"

definition instance_index :: "(string, string) bmap \<Rightarrow> u64" where
  "instance_index vs = or_else (Option.bind (bm_get vs ''instance'') parse_u64) 0"

text \<open>\<open>pid\<close> is the process id, \<open>stamp\<close> the clock's reading at construction.\<close>

definition firecracker_target :: "(json \<Rightarrow> string) \<Rightarrow> u32 \<Rightarrow> u64 \<Rightarrow> (string, json) bmap \<Rightarrow> (string, string) bmap
    \<Rightarrow> bool \<Rightarrow> firecracker" where
  "firecracker_target to_text pid stamp config vs pin_threads = (let
     g = cfg to_text config vs;
     sock = g ''api_sock'' (''/tmp/assayist-fc-'' @ show_u32 pid @ instance_suffix vs @ ''.sock'');
     inst = instance_index vs in
     \<lparr>fc_bin = g ''bin'' ''firecracker'', fc_sock = sock,
      fc_vcpu = cell_or to_text config vs ''vcpu'' ''1'',
      fc_mem_mib = cell_or to_text config vs ''mem_mib'' ''128'',
      fc_smt = (g ''smt'' ''false'' \<in> {''true'', ''on'', ''1''}),
      fc_kernel = g ''kernel'' '''', fc_rootfs = g ''rootfs'' '''',
      fc_boot_args = g ''boot_args'' ''console=ttyS0 reboot=k panic=1'',
      fc_from_snapshot = map_option (\<lambda>_. (g ''from_snapshot'' '''', g ''mem_file'' '''')) (bm_get config ''from_snapshot''),
      fc_snapshot_out = map_option (\<lambda>_. (g ''snapshot_out'' '''', g ''snapshot_mem'' '''')) (bm_get config ''snapshot_out''),
      fc_readiness = cfg_opt to_text config vs ''readiness'',
      fc_pre_restore = cfg_opt to_text config vs ''pre_restore'',
      fc_mem_backend = (if to_lower (g ''mem_backend'' ''File'') = ''uffd'' then ''Uffd'' else ''File''),
      fc_uffd_handler = cfg_opt to_text config vs ''uffd_handler'',
      fc_stream_source = (case cfg_opt to_text config vs ''stream_source'' of
         Some s \<Rightarrow> if trim s = '''' then None else Some s | None \<Rightarrow> None),
      fc_stream_bin = g ''stream_bin'' ''bpfoliod'', fc_stream_wsmeta = g ''stream_wsmeta'' '''',
      fc_stream_prefetch = (to_lower (g ''stream_prefetch'' ''false'') \<in> {''stream'', ''true'', ''on''}),
      fc_stream_dir = sock @ ''.stream.'' @ show_u64 stamp,
      fc_pin_threads = pin_threads,
      fc_cpu_base = or_else (Option.bind (bm_get vs ''cpu_base'') parse_u32) 0,
      fc_tap = (if to_lower (g ''network'' '''') = ''tap'' then Some (tap_name pid inst) else None),
      fc_guest_mac = guest_mac_for inst\<rparr>)"

section \<open>Firecracker's commands\<close>

definition fc_api_cmd :: "firecracker \<Rightarrow> string \<Rightarrow> string \<Rightarrow> string \<Rightarrow> string" where
  "fc_api_cmd fc verb path body = fmt
     [(''sock'', fc_sock fc), (''method'', verb), (''path'', path), (''body'', body)]
     (concat [''curl -fsS --unix-socket '{sock}' -X {method} 'http://localhost{path}' '',
       ''-H 'Content-Type: application/json' -d '', quoted ''{body}''])"

definition fc_launch_cmd :: "firecracker \<Rightarrow> string" where
  "fc_launch_cmd fc = fmt [(''sock'', fc_sock fc), (''bin'', fc_bin fc)] (concat [
     ''rm -f '{sock}' '{sock}.pid'; wd='{sock}.d'; rm -rf \"$wd\"; mkdir -p \"$wd\"; '',
     ''( cd \"$wd\" && exec '{bin}' --api-sock '{sock}' ) >'{sock}.log' 2>&1 & '',
     ''echo $! > '{sock}.pid'; '',
     ''for _ in $(seq 1 100); do [ -S '{sock}' ] && exit 0; sleep 0.05; done; '',
     ''echo 'firecracker api socket did not appear' >&2; exit 1''])"

definition fc_uffd_uds :: "firecracker \<Rightarrow> string" where
  "fc_uffd_uds fc = fc_sock fc @ ''.uffd''"

definition fc_launch_uffd_cmd :: "string \<Rightarrow> string \<Rightarrow> string \<Rightarrow> string" where
  "fc_launch_uffd_cmd handler uds mem = fmt
     [(''uds'', uds), (''handler'', render handler (bm_insert ''mem_file'' mem (bm_insert ''uffd_uds'' uds bm_empty)))]
     (concat [''rm -f '{uds}' '{uds}.pid'; ( {handler} ) >'{uds}.log' 2>&1 & '',
       ''echo $! > '{uds}.pid'; '',
       ''for _ in $(seq 1 200); do [ -S '{uds}' ] && exit 0; sleep 0.05; done; '',
       ''echo 'uffd handler socket did not appear' >&2; exit 1''])"

definition fc_launch_stream_cmd :: "firecracker \<Rightarrow> string \<Rightarrow> string \<Rightarrow> string" where
  "fc_launch_stream_cmd fc source mem = fmt
     [(''dir'', fc_stream_dir fc), (''bin'', fc_stream_bin fc), (''source'', source), (''mem'', mem)] (concat [
     ''d='{dir}'; '',
     ''if [ -f \"$d.pid\" ]; then op=\"$(cat \"$d.pid\")\"; kill \"$op\" 2>/dev/null; '',
     ''for _ in $(seq 1 150); do kill -0 \"$op\" 2>/dev/null || break; sleep 0.02; done; fi; '',
     ''fusermount3 -uz \"$d\" 2>/dev/null; rm -rf \"$d\" '{dir}.pid' '{dir}.log'; mkdir -p \"$d\"; '',
     ''sz=$(stat -c%s '{mem}'); '',
     ''( exec '{bin}' stream-mount '{source}' \"$d\" --size-bytes \"$sz\" --name mem ) >'{dir}.log' 2>&1 & '',
     ''mp=$!; echo \"$mp\" > '{dir}.pid'; '',
     ''for _ in $(seq 1 500); do [ -e \"$d/mem\" ] && exit 0; sleep 0.02; done; '',
     ''kill \"$mp\" 2>/dev/null; fusermount3 -uz \"$d\" 2>/dev/null; '',
     ''echo 'stream mount did not appear (see {dir}.log)' >&2; exit 1''])"

definition fc_stream_prefetch_cmd :: "firecracker \<Rightarrow> string \<Rightarrow> string" where
  "fc_stream_prefetch_cmd fc source = fmt
     [(''bin'', fc_stream_bin fc), (''source'', source), (''dir'', fc_stream_dir fc), (''ws'', fc_stream_wsmeta fc)]
     (quoted ''{bin}'' @ '' stream-prefetch '{source}' --mem '{dir}/mem' --wsmeta '' @ quoted ''{ws}'')"

definition fc_pin_cmd :: "firecracker \<Rightarrow> string" where
  "fc_pin_cmd fc = fmt [(''sock'', fc_sock fc), (''base'', show_u32 (fc_cpu_base fc)),
       (''quotes'', [CHR 0x27, CHR 0x27]), (''bs'', [CHR 0x5C])] (concat [
     ''pid=$(cat '{sock}.pid'); layout={quotes}; base={base}; '',
     ''for t in /proc/$pid/task/*; do '',
     ''comm=$(cat \"$t/comm\" 2>/dev/null); '',
     ''case \"$comm\" in \"fc_vcpu \"*) '',
     ''n=${{comm#fc_vcpu }}; tid=${{t##*/}}; cpu=$((base + n)); '',
     ''taskset -pc \"$cpu\" \"$tid\" >/dev/null 2>&1 || {{ echo \"pin vcpu $n -> cpu $cpu failed\" >&2; exit 7; }}; '',
     ''layout=\"$layout,{bs}\"vcpu$n{bs}\":$cpu\"; '',
     '';; esac; '',
     ''done; '',
     ''printf '{{%s}}' \"${{layout#,}}\"''])"

definition fc_tap_cmd :: "string \<Rightarrow> string" where
  "fc_tap_cmd tap = fmt [(''tap'', tap)] (concat [
     ''ip tuntap del dev '{tap}' mode tap 2>/dev/null; '',
     ''ip tuntap add dev '{tap}' mode tap && ip link set dev '{tap}' up''])"

definition fc_ifindex_cmd :: "string \<Rightarrow> string" where
  "fc_ifindex_cmd tap = ''cat '' @ quoted (''/sys/class/net/'' @ tap @ ''/ifindex'')"

definition fc_tap_del_cmd :: "string \<Rightarrow> string" where
  "fc_tap_del_cmd tap = ''ip tuntap del dev '' @ quoted tap @ '' mode tap''"

definition fc_teardown_cmd :: "firecracker \<Rightarrow> string" where
  "fc_teardown_cmd fc = fmt [(''sock'', fc_sock fc), (''uds'', fc_uffd_uds fc), (''stream'', fc_stream_dir fc)] (concat [
     ''[ -f '{sock}.pid' ] && kill \"$(cat '{sock}.pid')\" 2>/dev/null; '',
     ''[ -f '{uds}.pid' ] && kill \"$(cat '{uds}.pid')\" 2>/dev/null; '',
     ''if [ -f '{sock}.pid' ]; then p=\"$(cat '{sock}.pid')\"; '',
     ''for _ in $(seq 1 150); do kill -0 \"$p\" 2>/dev/null || break; sleep 0.02; done; fi; '',
     ''fusermount3 -uz '{stream}' 2>/dev/null; '',
     ''[ -f '{stream}.pid' ] && kill \"$(cat '{stream}.pid')\" 2>/dev/null; '',
     ''rm -rf '{sock}' '{sock}.log' '{sock}.pid' '{sock}.d' '{uds}' '{uds}.log' '{uds}.pid' '',
     quoted ''{stream}'', '' '{stream}.log' '{stream}.pid'; '',
     ''true''])"

section \<open>Firecracker's lifecycle\<close>

text \<open>What the process gives a target: the shell, the clock, and JSON text.\<close>

record 'w native_env =
  nv_shell :: "'w shell"
  nv_now :: "'w \<Rightarrow> u64 \<times> 'w"
  nv_to_text :: "json \<Rightarrow> string"
  nv_from_str :: "string \<Rightarrow> string + json"

abbreviation fc_push :: "json \<Rightarrow> fc_cells \<Rightarrow> fc_cells" where
  "fc_push s st \<equiv> st\<lparr>fl_spans := fl_spans st @ [s]\<rparr>"

definition fc_api :: "'w native_env \<Rightarrow> firecracker \<Rightarrow> string \<Rightarrow> string \<Rightarrow> string \<Rightarrow> ('w \<times> fc_cells, unit) io" where
  "fc_api nv fc verb path body = sh_run (nv_shell nv) (fc_api_cmd fc verb path body)"

definition fc_timed :: "'w native_env \<Rightarrow> string \<Rightarrow> string option \<Rightarrow> ('w \<times> fc_cells, unit) io \<Rightarrow> ('w \<times> fc_cells, unit) io" where
  "fc_timed nv = timed_step (nv_now nv) fc_push"

text \<open>Restore: the mount, the page cache, the prewarm, the memory backend, then the timed load.\<close>

definition fc_mem_path :: "'w native_env \<Rightarrow> firecracker \<Rightarrow> string \<Rightarrow> ('w \<times> fc_cells, string) io" where
  "fc_mem_path nv fc mem = (case fc_stream_source fc of
     Some source \<Rightarrow> io_then (sh_run (nv_shell nv) (fc_launch_stream_cmd fc source mem))
       (\<lambda>_. io_ok (fc_stream_dir fc @ ''/mem''))
   | None \<Rightarrow> io_ok mem)"

definition fc_prewarm :: "'w native_env \<Rightarrow> firecracker \<Rightarrow> ('w \<times> fc_cells, unit) io" where
  "fc_prewarm nv fc = (case fc_stream_source fc of
     Some source \<Rightarrow> if fc_stream_prefetch fc then sh_run (nv_shell nv) (fc_stream_prefetch_cmd fc source) else io_ok ()
   | None \<Rightarrow> io_ok ())"

definition backend_json :: "string \<Rightarrow> string \<Rightarrow> json" where
  "backend_json kind path = jobj [(''backend_type'', JString kind), (''backend_path'', JString path)]"

definition fc_backend :: "'w native_env \<Rightarrow> firecracker \<Rightarrow> string \<Rightarrow> string \<Rightarrow> ('w \<times> fc_cells, json) io" where
  "fc_backend nv fc mem mem_path = (if fc_mem_backend fc = ''Uffd'' then
       (case fc_uffd_handler fc of
          Some handler \<Rightarrow> if trim handler = '''' then io_err ''mem_backend: uffd needs a uffd_handler command''
            else io_then (sh_run (nv_shell nv) (fc_launch_uffd_cmd handler (fc_uffd_uds fc) mem))
              (\<lambda>_. io_ok (backend_json ''Uffd'' (fc_uffd_uds fc)))
        | None \<Rightarrow> io_err ''mem_backend: uffd needs a uffd_handler command'')
     else io_ok (backend_json ''File'' mem_path))"

definition load_body :: "string \<Rightarrow> json \<Rightarrow> json" where
  "load_body snap backend = jobj [(''snapshot_path'', JString snap), (''mem_backend'', backend), (''resume_vm'', JBool True)]"

definition fc_restore :: "'w native_env \<Rightarrow> firecracker \<Rightarrow> string \<Rightarrow> string \<Rightarrow> ('w \<times> fc_cells, unit) io" where
  "fc_restore nv fc snap mem = io_then (fc_mem_path nv fc mem) (\<lambda>mem_path.
     io_then (run_given (nv_shell nv) (fc_pre_restore fc)) (\<lambda>_.
     io_then (fc_prewarm nv fc) (\<lambda>_.
     io_then (fc_backend nv fc mem mem_path) (\<lambda>backend.
     fc_timed nv ''restore.resume_to_steady'' None
       (fc_api nv fc ''PUT'' ''/snapshot/load'' (nv_to_text nv (load_body snap backend)))))))"

text \<open>Cold boot: machine, boot source, root drive, and the tap when the definition asks for one.\<close>

definition machine_body :: "firecracker \<Rightarrow> json" where
  "machine_body fc = jobj [(''vcpu_count'', JNumber (PosInt (or_else (parse_u64 (fc_vcpu fc)) 1))),
     (''mem_size_mib'', JNumber (PosInt (or_else (parse_u64 (fc_mem_mib fc)) 128))), (''smt'', JBool (fc_smt fc))]"

definition boot_body :: "firecracker \<Rightarrow> json" where
  "boot_body fc = jobj [(''kernel_image_path'', JString (fc_kernel fc)), (''boot_args'', JString (fc_boot_args fc))]"

definition drive_body :: "firecracker \<Rightarrow> json" where
  "drive_body fc = jobj [(''drive_id'', JString ''rootfs''), (''path_on_host'', JString (fc_rootfs fc)),
     (''is_root_device'', JBool True), (''is_read_only'', JBool False)]"

definition iface_body :: "firecracker \<Rightarrow> string \<Rightarrow> json" where
  "iface_body fc tap = jobj [(''iface_id'', JString ''eth0''), (''host_dev_name'', JString tap),
     (''guest_mac'', JString (fc_guest_mac fc))]"

definition parse_ifindex :: "string \<Rightarrow> string \<Rightarrow> string + u32" where
  "parse_ifindex tap idx = (case parse_u32 (trim idx) of Some i \<Rightarrow> Inr i
     | None \<Rightarrow> Inl (''parsing tap '' @ quoted tap @ '' ifindex '' @ quoted (trim idx) @ '': ''
         @ parse_uint_error (2 ^ 32 - 1) (trim idx)))"

definition fc_network :: "'w native_env \<Rightarrow> firecracker \<Rightarrow> ('w \<times> fc_cells, unit) io" where
  "fc_network nv fc = (case fc_tap fc of None \<Rightarrow> io_ok ()
   | Some tap \<Rightarrow> io_then (sh_run (nv_shell nv) (fc_tap_cmd tap)) (\<lambda>_.
       io_then (on_inner (nv_shell nv (fc_ifindex_cmd tap))) (\<lambda>idx.
       io_then (io_of (parse_ifindex tap idx)) (\<lambda>ifindex.
       io_then (on_cells (\<lambda>st. st\<lparr>fl_tap_ifindex := Some ifindex\<rparr>)) (\<lambda>_.
       fc_api nv fc ''PUT'' ''/network-interfaces/eth0'' (nv_to_text nv (iface_body fc tap)))))))"

definition fc_cold_boot :: "'w native_env \<Rightarrow> firecracker \<Rightarrow> ('w \<times> fc_cells, unit) io" where
  "fc_cold_boot nv fc = io_then (fc_api nv fc ''PUT'' ''/machine-config'' (nv_to_text nv (machine_body fc))) (\<lambda>_.
     io_then (fc_api nv fc ''PUT'' ''/boot-source'' (nv_to_text nv (boot_body fc))) (\<lambda>_.
     io_then (fc_api nv fc ''PUT'' ''/drives/rootfs'' (nv_to_text nv (drive_body fc))) (\<lambda>_.
     fc_network nv fc)))"

definition fc_provision :: "'w native_env \<Rightarrow> firecracker \<Rightarrow> ('w \<times> fc_cells, unit) io" where
  "fc_provision nv fc = io_then (sh_run (nv_shell nv) (fc_launch_cmd fc)) (\<lambda>_. case fc_from_snapshot fc of
     Some (snap, mem) \<Rightarrow> fc_restore nv fc snap mem | None \<Rightarrow> fc_cold_boot nv fc)"

definition start_body :: string where
  "start_body = ''{\"action_type\":\"InstanceStart\"}''"

definition state_body :: "string \<Rightarrow> string" where
  "state_body s = ''{\"state\":\"'' @ s @ ''\"}''"

definition fc_start :: "'w native_env \<Rightarrow> firecracker \<Rightarrow> ('w \<times> fc_cells, unit) io" where
  "fc_start nv fc = (if fc_from_snapshot fc \<noteq> None then io_ok ()
     else fc_timed nv ''boot.vmm_ready'' None (fc_api nv fc ''PUT'' ''/actions'' start_body))"

definition pin_layout :: "'w native_env \<Rightarrow> string \<Rightarrow> string + json" where
  "pin_layout nv out = (case nv_from_str nv (trim out) of
     Inl e \<Rightarrow> Inl (''parsing pinning layout '' @ quoted (trim out) @ '': '' @ e)
   | Inr (JObject m) \<Rightarrow> if m \<noteq> [] then Inr (JObject m)
       else Inl ''pin_threads requested but no fc_vcpu threads were pinned''
   | Inr _ \<Rightarrow> Inl ''pin_threads requested but no fc_vcpu threads were pinned'')"

definition fc_pin :: "'w native_env \<Rightarrow> firecracker \<Rightarrow> ('w \<times> fc_cells, unit) io" where
  "fc_pin nv fc = (if \<not> fc_pin_threads fc then io_ok ()
     else io_then (on_inner (nv_shell nv (fc_pin_cmd fc))) (\<lambda>out.
       io_then (io_of (pin_layout nv out)) (\<lambda>layout.
       on_cells (\<lambda>st. st\<lparr>fl_pinning := Some layout\<rparr>))))"

definition create_body :: "string \<Rightarrow> string \<Rightarrow> json" where
  "create_body snap mem = jobj [(''snapshot_type'', JString ''Full''), (''snapshot_path'', JString snap),
     (''mem_file_path'', JString mem)]"

definition fc_snapshot :: "'w native_env \<Rightarrow> firecracker \<Rightarrow> ('w \<times> fc_cells, unit) io" where
  "fc_snapshot nv fc = (case fc_snapshot_out fc of None \<Rightarrow> io_ok ()
   | Some (snap, mem) \<Rightarrow> io_then (fc_api nv fc ''PATCH'' ''/vm'' (state_body ''Paused'')) (\<lambda>_.
       io_then (fc_timed nv ''snapshot.create'' None
         (fc_api nv fc ''PUT'' ''/snapshot/create'' (nv_to_text nv (create_body snap mem)))) (\<lambda>_.
       fc_api nv fc ''PATCH'' ''/vm'' (state_body ''Resumed''))))"

definition fc_reach_steady :: "'w native_env \<Rightarrow> firecracker \<Rightarrow> ('w \<times> fc_cells, unit) io" where
  "fc_reach_steady nv fc = io_then (run_given (nv_shell nv) (fc_readiness fc)) (\<lambda>_.
     io_then (fc_pin nv fc) (\<lambda>_. fc_snapshot nv fc))"

definition fc_teardown :: "'w native_env \<Rightarrow> firecracker \<Rightarrow> ('w \<times> fc_cells, unit) io" where
  "fc_teardown nv fc = io_then (sh_run (nv_shell nv) (fc_teardown_cmd fc)) (\<lambda>_ s. case fc_tap fc of
     None \<Rightarrow> (Inr (), s) | Some tap \<Rightarrow> (Inr (), io_ignore (sh_run (nv_shell nv) (fc_tap_del_cmd tap)) s))"

definition fc_net_attribution :: "firecracker \<Rightarrow> fc_cells \<Rightarrow> net_attribution list" where
  "fc_net_attribution fc st = (case (fc_tap fc, fl_tap_ifindex st) of
     (Some tap, Some ifindex) \<Rightarrow> [\<lparr>na_tap = tap, na_ifindex = ifindex, na_guest_mac = fc_guest_mac fc, na_netns_inum = 0\<rparr>]
   | _ \<Rightarrow> [])"

definition fc_resident_files :: "firecracker \<Rightarrow> (string \<times> string) list" where
  "fc_resident_files fc = (case fc_from_snapshot fc of
     Some (_, mem) \<Rightarrow> if mem \<noteq> '''' then [('''', mem)] else [] | None \<Rightarrow> [])"

definition fc_target :: "'w native_env \<Rightarrow> firecracker \<Rightarrow> ('w \<times> fc_cells) target" where
  "fc_target nv fc = \<lparr>
     tg_version = version_of (nv_shell nv) (version_cmd (fc_bin fc)) ''firecracker'',
     tg_provision = fc_provision nv fc, tg_start = fc_start nv fc, tg_reach_steady = fc_reach_steady nv fc,
     tg_spans = (\<lambda>(w, st). (Inr (fl_spans st), w, st)), tg_teardown = fc_teardown nv fc,
     tg_pinning_layout = (\<lambda>(w, st). fl_pinning st), tg_resident_files = (\<lambda>(w, st). fc_resident_files fc),
     tg_net_attribution = (\<lambda>(w, st). (fc_net_attribution fc st, w, st))\<rparr>"

section \<open>VMMs that boot at launch\<close>

text \<open>
  QEMU, Cloud Hypervisor and unikernels: provisioning launches the VMM and times it up to its
  control socket; there is nothing to start; pinning is refused; a readiness probe is optional.
\<close>

definition cold_push :: "json \<Rightarrow> json list \<Rightarrow> json list" where
  "cold_push s spans = spans @ [s]"

definition cold_provision :: "'w native_env \<Rightarrow> string \<Rightarrow> ('w \<times> json list, unit) io" where
  "cold_provision nv launch_cmd = timed_step (nv_now nv) cold_push ''boot.vmm_ready'' None (sh_run (nv_shell nv) launch_cmd)"

definition cold_reach_steady :: "'w native_env \<Rightarrow> bool \<Rightarrow> string \<Rightarrow> string option \<Rightarrow> ('w \<times> json list, unit) io" where
  "cold_reach_steady nv pin vmm readiness = (if pin
     then io_err (''pin_threads is not supported for the '' @ vmm @ '' target yet'')
     else run_given (nv_shell nv) readiness)"

definition cold_target :: "'w native_env \<Rightarrow> ('w \<times> json list \<Rightarrow> string \<times> 'w \<times> json list) \<Rightarrow> string
    \<Rightarrow> ('w \<times> json list, unit) io \<Rightarrow> string \<Rightarrow> ('w \<times> json list) target" where
  "cold_target nv version launch_cmd steady teardown = \<lparr>
     tg_version = version, tg_provision = cold_provision nv launch_cmd, tg_start = io_ok (), tg_reach_steady = steady,
     tg_spans = (\<lambda>(w, spans). (Inr spans, w, spans)), tg_teardown = sh_run (nv_shell nv) teardown,
     tg_pinning_layout = (\<lambda>s. None), tg_resident_files = (\<lambda>s. []), tg_net_attribution = (\<lambda>s. ([], s))\<rparr>"

subsection \<open>QEMU\<close>

record qemu =
  qm_bin :: string
  qm_sock :: string
  qm_vcpu :: string
  qm_mem_mib :: string
  qm_kernel :: string
  qm_rootfs :: string
  qm_boot_args :: string
  qm_extra :: string
  qm_readiness :: "string option"
  qm_pin_threads :: bool

definition qemu_of :: "(json \<Rightarrow> string) \<Rightarrow> u32 \<Rightarrow> (string, json) bmap \<Rightarrow> (string, string) bmap \<Rightarrow> bool \<Rightarrow> qemu" where
  "qemu_of to_text pid config vs pin_threads = (let g = cfg to_text config vs in
     \<lparr>qm_bin = g ''bin'' ''qemu-system-x86_64'',
      qm_sock = g ''qmp_sock'' (''/tmp/assayist-qemu-'' @ show_u32 pid @ instance_suffix vs @ ''.sock''),
      qm_vcpu = cell_or to_text config vs ''vcpu'' ''1'', qm_mem_mib = cell_or to_text config vs ''mem_mib'' ''128'',
      qm_kernel = g ''kernel'' '''', qm_rootfs = g ''rootfs'' '''',
      qm_boot_args = g ''boot_args'' ''console=ttyS0 reboot=k panic=1 root=/dev/vda ro'',
      qm_extra = g ''extra_args'' '''', qm_readiness = cfg_opt to_text config vs ''readiness'',
      qm_pin_threads = pin_threads\<rparr>)"

definition qemu_launch_cmd :: "qemu \<Rightarrow> string" where
  "qemu_launch_cmd q = fmt [(''sock'', qm_sock q), (''bin'', qm_bin q), (''mem'', qm_mem_mib q), (''vcpu'', qm_vcpu q),
       (''kernel'', qm_kernel q), (''boot_args'', qm_boot_args q), (''rootfs'', qm_rootfs q), (''extra'', qm_extra q)] (concat [
     ''rm -f '{sock}' '{sock}.pid'; wd='{sock}.d'; rm -rf \"$wd\"; mkdir -p \"$wd\"; '',
     ''( cd \"$wd\" && exec '{bin}' -enable-kvm -m '{mem}' -smp '{vcpu}' '',
     ''-kernel '{kernel}' -append '{boot_args}' '',
     ''-drive file='{rootfs}',format=raw,if=virtio,readonly=on '',
     ''-qmp unix:'{sock}',server,nowait -display none -serial none -no-reboot {extra} '',
     '') >'{sock}.log' 2>&1 & '',
     ''echo $! > '{sock}.pid'; '',
     ''for _ in $(seq 1 250); do [ -S '{sock}' ] && exit 0; sleep 0.02; done; '',
     ''echo 'qemu qmp socket did not appear' >&2; exit 1''])"

definition qemu_teardown_cmd :: "qemu \<Rightarrow> string" where
  "qemu_teardown_cmd q = fmt [(''sock'', qm_sock q)] (concat [
     ''[ -f '{sock}.pid' ] && kill \"$(cat '{sock}.pid')\" 2>/dev/null; '',
     ''rm -rf '{sock}' '{sock}.log' '{sock}.pid' '', quoted ''{sock}.d''])"

definition qemu_target :: "'w native_env \<Rightarrow> qemu \<Rightarrow> ('w \<times> json list) target" where
  "qemu_target nv q = cold_target nv (version_of (nv_shell nv) (version_cmd (qm_bin q)) ''qemu'') (qemu_launch_cmd q)
     (cold_reach_steady nv (qm_pin_threads q) ''qemu'' (qm_readiness q)) (qemu_teardown_cmd q)"

subsection \<open>Cloud Hypervisor\<close>

record cloud_hypervisor =
  ch_bin :: string
  ch_sock :: string
  ch_vcpu :: string
  ch_mem_mib :: string
  ch_kernel :: string
  ch_rootfs :: string
  ch_cmdline :: string
  ch_extra :: string
  ch_readiness :: "string option"
  ch_pin_threads :: bool

definition ch_of :: "(json \<Rightarrow> string) \<Rightarrow> u32 \<Rightarrow> (string, json) bmap \<Rightarrow> (string, string) bmap \<Rightarrow> bool \<Rightarrow> cloud_hypervisor" where
  "ch_of to_text pid config vs pin_threads = (let g = cfg to_text config vs in
     \<lparr>ch_bin = g ''bin'' ''cloud-hypervisor'',
      ch_sock = g ''api_sock'' (''/tmp/assayist-chv-'' @ show_u32 pid @ instance_suffix vs @ ''.sock''),
      ch_vcpu = cell_or to_text config vs ''vcpu'' ''1'', ch_mem_mib = cell_or to_text config vs ''mem_mib'' ''128'',
      ch_kernel = g ''kernel'' '''', ch_rootfs = g ''rootfs'' '''',
      ch_cmdline = g ''cmdline'' ''console=ttyS0 reboot=k panic=1 root=/dev/vda ro'',
      ch_extra = g ''extra_args'' '''', ch_readiness = cfg_opt to_text config vs ''readiness'',
      ch_pin_threads = pin_threads\<rparr>)"

definition ch_launch_cmd :: "cloud_hypervisor \<Rightarrow> string" where
  "ch_launch_cmd c = fmt [(''sock'', ch_sock c), (''bin'', ch_bin c), (''kernel'', ch_kernel c), (''cmdline'', ch_cmdline c),
       (''rootfs'', ch_rootfs c), (''vcpu'', ch_vcpu c), (''mem'', ch_mem_mib c), (''extra'', ch_extra c)] (concat [
     ''rm -f '{sock}' '{sock}.pid'; wd='{sock}.d'; rm -rf \"$wd\"; mkdir -p \"$wd\"; '',
     ''( cd \"$wd\" && exec '{bin}' --api-socket '{sock}' '',
     ''--kernel '{kernel}' --cmdline '{cmdline}' '',
     ''--disk path='{rootfs}',readonly=on '',
     ''--cpus boot='{vcpu}' --memory size='{mem}'M '',
     ''--serial tty --console off {extra} '',
     '') >'{sock}.log' 2>&1 & '',
     ''echo $! > '{sock}.pid'; '',
     ''for _ in $(seq 1 250); do [ -S '{sock}' ] && exit 0; sleep 0.02; done; '',
     ''echo 'cloud-hypervisor api socket did not appear' >&2; exit 1''])"

definition ch_teardown_cmd :: "cloud_hypervisor \<Rightarrow> string" where
  "ch_teardown_cmd c = fmt [(''sock'', ch_sock c)] (concat [
     ''p=\"$(cat '{sock}.pid' 2>/dev/null)\"; '',
     ''if [ -n \"$p\" ]; then kill \"$p\" 2>/dev/null; '',
     ''for _ in $(seq 1 250); do kill -0 \"$p\" 2>/dev/null || break; sleep 0.02; done; '',
     ''kill -9 \"$p\" 2>/dev/null; fi; '',
     ''rm -rf '{sock}' '{sock}.lock' '{sock}.log' '{sock}.pid' '', quoted ''{sock}.d''])"

definition ch_target :: "'w native_env \<Rightarrow> cloud_hypervisor \<Rightarrow> ('w \<times> json list) target" where
  "ch_target nv c = cold_target nv (version_of (nv_shell nv) (version_cmd (ch_bin c)) ''cloud-hypervisor'') (ch_launch_cmd c)
     (cold_reach_steady nv (ch_pin_threads c) ''cloud-hypervisor'' (ch_readiness c)) (ch_teardown_cmd c)"

subsection \<open>Unikernels\<close>

record unikernel =
  uk_bin :: string
  uk_sock :: string
  uk_mem_mib :: string
  uk_image :: string
  uk_disk_boot :: bool
  uk_boot_args :: string
  uk_hostfwd :: string
  uk_extra :: string
  uk_readiness :: "string option"
  uk_pin_threads :: bool

definition unikernel_of :: "(json \<Rightarrow> string) \<Rightarrow> u32 \<Rightarrow> (string, json) bmap \<Rightarrow> (string, string) bmap \<Rightarrow> bool \<Rightarrow> unikernel" where
  "unikernel_of to_text pid config vs pin_threads = (let g = cfg to_text config vs in
     \<lparr>uk_bin = g ''bin'' ''qemu-system-x86_64'',
      uk_sock = g ''qmp_sock'' (''/tmp/assayist-uk-'' @ show_u32 pid @ instance_suffix vs @ ''.sock''),
      uk_mem_mib = cell_or to_text config vs ''mem_mib'' ''256'', uk_image = g ''image'' '''',
      uk_disk_boot = (g ''boot_style'' ''disk'' \<noteq> ''kernel''), uk_boot_args = g ''boot_args'' '''',
      uk_hostfwd = g ''hostfwd'' '''', uk_extra = g ''extra_args'' '''',
      uk_readiness = cfg_opt to_text config vs ''readiness'', uk_pin_threads = pin_threads\<rparr>)"

definition uk_boot :: "unikernel \<Rightarrow> string" where
  "uk_boot u = (if uk_disk_boot u
     then fmt [(''img'', uk_image u)] ''-drive file='{img}',format=raw,if=none,id=hd0 -device virtio-blk-pci,drive=hd0''
     else ''-kernel '' @ quoted (uk_image u) @ '' -append '' @ quoted (uk_boot_args u))"

definition uk_net :: "unikernel \<Rightarrow> string" where
  "uk_net u = (if trim (uk_hostfwd u) = '''' then ''''
     else ''-netdev user,id=n0,hostfwd='' @ uk_hostfwd u @ '' -device virtio-net-pci,netdev=n0'')"

definition uk_launch_cmd :: "unikernel \<Rightarrow> string" where
  "uk_launch_cmd u = fmt [(''sock'', uk_sock u), (''bin'', uk_bin u), (''mem'', uk_mem_mib u), (''boot'', uk_boot u),
       (''net'', uk_net u), (''extra'', uk_extra u)] (concat [
     ''rm -f '{sock}' '{sock}.pid'; wd='{sock}.d'; rm -rf \"$wd\"; mkdir -p \"$wd\"; '',
     ''( cd \"$wd\" && exec '{bin}' -machine q35 -enable-kvm -cpu host -m '{mem}' '',
     ''{boot} {net} '',
     ''-qmp unix:'{sock}',server,nowait -nographic -serial file:'{sock}.serial' -no-reboot {extra} '',
     '') >'{sock}.log' 2>&1 & '',
     ''echo $! > '{sock}.pid'; '',
     ''for _ in $(seq 1 250); do [ -S '{sock}' ] && exit 0; sleep 0.02; done; '',
     ''echo 'unikernel qmp socket did not appear' >&2; exit 1''])"

definition uk_teardown_cmd :: "unikernel \<Rightarrow> string" where
  "uk_teardown_cmd u = fmt [(''sock'', uk_sock u)] (concat [
     ''[ -f '{sock}.pid' ] && kill \"$(cat '{sock}.pid')\" 2>/dev/null; '',
     ''rm -rf '{sock}' '{sock}.log' '{sock}.serial' '{sock}.pid' '', quoted ''{sock}.d''])"

definition uk_target :: "'w native_env \<Rightarrow> unikernel \<Rightarrow> ('w \<times> json list) target" where
  "uk_target nv u = cold_target nv (version_of (nv_shell nv) (version_cmd (uk_bin u)) ''qemu'') (uk_launch_cmd u)
     (cold_reach_steady nv (uk_pin_threads u) ''unikernel'' (uk_readiness u)) (uk_teardown_cmd u)"

end
