(* ===== verification/NativeWorkload.thy ===== *)
theory NativeWorkload
  imports Native
begin

text \<open>
  \<open>crates/orchestrate/src/native.rs\<close>, the workload adapters: fio and wrk, run to completion by
  \<open>start\<close> and summarised by \<open>report\<close>, and the vsock driver with its retried first invocation
  and its latency summary. The socket operations and the monotonic clock are the record
  \<open>vsock_ops\<close>; the retry loop is a \<open>partial_function\<close>, whose return is a theorem.
\<close>

section \<open>Conversions of binary64\<close>

text \<open>\<open>f64::round\<close> (halves away from zero) and the saturating \<open>as usize\<close>.\<close>

fun f_round :: "f64 \<Rightarrow> f64" where
  "f_round (Fin q) = (if 0 \<le> q then Fin (of_int \<lfloor>q + 1 / 2\<rfloor>)
     else if \<lfloor>- q + 1 / 2\<rfloor> = 0 then NZero else Fin (- of_int \<lfloor>- q + 1 / 2\<rfloor>))"
| "f_round x = x"

fun f_as_usize :: "f64 \<Rightarrow> nat" where
  "f_as_usize (Fin q) = (if q < 0 then 0 else min (nat \<lfloor>q\<rfloor>) (2 ^ 64 - 1))"
| "f_as_usize PInf = 2 ^ 64 - 1"
| "f_as_usize _ = 0"

section \<open>Commands run to completion\<close>

definition quoted_cmd :: "string \<Rightarrow> string list \<Rightarrow> string" where
  "quoted_cmd bin args = quoted bin @ '' '' @ str_join '' '' (map quoted args)"

subsection \<open>fio\<close>

record fio =
  fi_bin :: string
  fi_args :: "string list"

definition fio_of :: "(json \<Rightarrow> string) \<Rightarrow> (string, json) bmap \<Rightarrow> (string, string) bmap \<Rightarrow> fio" where
  "fio_of to_text config vs = (let g = cfg to_text config vs in
     \<lparr>fi_bin = g ''bin'' ''fio'',
      fi_args = [''--name='' @ g ''name'' ''assayist'',
        ''--filename='' @ g ''filename'' ''/tmp/assayist-fio.dat'',
        ''--rw='' @ g ''rw'' ''randread'', ''--bs='' @ g ''bs'' ''4k'', ''--iodepth='' @ g ''iodepth'' ''32'',
        ''--numjobs='' @ g ''numjobs'' ''1'', ''--ioengine='' @ g ''ioengine'' ''libaio'',
        ''--direct='' @ g ''direct'' ''1'', ''--size='' @ g ''size'' ''1G'', ''--runtime='' @ g ''runtime'' ''30'',
        ''--time_based'', ''--output-format=json'']\<rparr>)"

definition or_null :: "json option \<Rightarrow> json" where
  "or_null v = (case v of Some x \<Rightarrow> x | None \<Rightarrow> JNull)"

definition fio_direction :: "json option \<Rightarrow> string \<Rightarrow> json" where
  "fio_direction job name = (let d = Option.bind job (\<lambda>j. jget j name);
     clat = Option.bind d (\<lambda>d. case jget d ''clat_ns'' of Some c \<Rightarrow> Some c | None \<Rightarrow> jget d ''clat'') in
     jobj [(''iops'', or_null (Option.bind d (\<lambda>d. jget d ''iops''))),
       (''bw_kb_s'', or_null (Option.bind d (\<lambda>d. jget d ''bw''))),
       (''clat_ns_mean'', or_null (Option.bind clat (\<lambda>c. jget c ''mean''))),
       (''clat_ns_p99'', or_null (Option.bind clat (\<lambda>c. Option.bind (jget c ''percentile'') (\<lambda>p. jget p ''99.000000''))))])"

definition fio_summary :: "json \<Rightarrow> json" where
  "fio_summary v = (let job = Option.bind (jget v ''jobs'') jfirst in
     jobj [(''driver'', JString ''fio''),
       (''fio_version'', or_null (case jget v ''fio version'' of Some x \<Rightarrow> Some x | None \<Rightarrow> jget v ''fio_version'')),
       (''read'', fio_direction job ''read''), (''write'', fio_direction job ''write'')])"

definition fio_start :: "'w native_env \<Rightarrow> fio \<Rightarrow> ('w \<times> json option, unit) io" where
  "fio_start nv f = io_then (on_inner (nv_shell nv (quoted_cmd (fi_bin f) (fi_args f)))) (\<lambda>out.
     io_then (io_of (map_err (\<lambda>e. ''parsing fio json output: '' @ e) (nv_from_str nv (trim out)))) (\<lambda>parsed.
     on_cells (\<lambda>_. Some parsed)))"

definition fio_workload :: "'w native_env \<Rightarrow> fio \<Rightarrow> ('w \<times> json option) workload" where
  "fio_workload nv f = \<lparr>wl_version = version_of (nv_shell nv) (version_cmd (fi_bin f)) ''fio'',
     wl_start = fio_start nv f, wl_stop = io_ok (),
     wl_report = (\<lambda>(w, out). (Inr (case out of Some v \<Rightarrow> fio_summary v | None \<Rightarrow> JNull), w, out))\<rparr>"

subsection \<open>wrk\<close>

record wrk =
  wr_bin :: string
  wr_args :: "string list"

definition wrk_of :: "(json \<Rightarrow> string) \<Rightarrow> (string, json) bmap \<Rightarrow> (string, string) bmap \<Rightarrow> wrk" where
  "wrk_of to_text config vs = (let g = cfg to_text config vs in
     \<lparr>wr_bin = g ''bin'' ''wrk'',
      wr_args = [''-t'' @ g ''threads'' ''2'', ''-c'' @ g ''connections'' ''10'', ''-d'' @ g ''duration'' ''30'' @ ''s'', ''--latency'']
        @ (if bm_get config ''rate'' \<noteq> None then [''-R'' @ g ''rate'' ''''] else [])
        @ (if bm_get config ''script'' \<noteq> None then [''-s'' @ g ''script'' ''''] else [])
        @ [g ''url'' ''http://127.0.0.1:8080/'']\<rparr>)"

definition trim_start :: "string \<Rightarrow> string" where
  "trim_start s = dropWhile is_ws s"

definition labelled :: "string \<Rightarrow> string \<Rightarrow> string option" where
  "labelled text label = find (\<lambda>l. starts_with label (trim_start l)) (str_lines text)"

definition nth_option :: "'a list \<Rightarrow> nat \<Rightarrow> 'a option" where
  "nth_option xs n = (if n < length xs then Some (xs ! n) else None)"

definition after_colon :: "string \<Rightarrow> string \<Rightarrow> string option" where
  "after_colon text label = map_option trim
     (Option.bind (labelled text label) (\<lambda>l. nth_option (split_on (\<lambda>c. c = CHR '':'') l) 1))"

definition latency_field :: "string \<Rightarrow> string \<Rightarrow> nat \<Rightarrow> json" where
  "latency_field text label n = or_null (map_option JString
     (Option.bind (labelled text label) (\<lambda>l. Option.bind (strip_prefix label (trim_start l))
       (\<lambda>rest. nth_option (split_ws rest) n))))"

definition total_requests :: "string \<Rightarrow> u64 option" where
  "total_requests text = Option.bind (find (\<lambda>l. str_contains l ''requests in'') (str_lines text))
     (\<lambda>l. Option.bind (nth_option (split_ws l) 0) parse_u64)"

definition wrk_summary :: "string \<Rightarrow> json" where
  "wrk_summary text = jobj [(''driver'', JString ''wrk''),
     (''requests_per_sec'', or_null (map_option json_f64 (Option.bind (after_colon text ''Requests/sec'') parse_f64))),
     (''transfer_per_sec'', or_null (map_option JString (after_colon text ''Transfer/sec''))),
     (''latency_avg'', latency_field text ''Latency'' 0), (''latency_max'', latency_field text ''Latency'' 2),
     (''total_requests'', or_null (map_option (\<lambda>n. JNumber (PosInt n)) (total_requests text)))]"

definition wrk_start :: "'w native_env \<Rightarrow> wrk \<Rightarrow> ('w \<times> string option, unit) io" where
  "wrk_start nv r = io_then (on_inner (nv_shell nv (quoted_cmd (wr_bin r) (wr_args r)))) (\<lambda>out.
     on_cells (\<lambda>_. Some out))"

definition wrk_workload :: "'w native_env \<Rightarrow> wrk \<Rightarrow> ('w \<times> string option) workload" where
  "wrk_workload nv r = \<lparr>
     wl_version = version_of (nv_shell nv) (quoted (wr_bin r) @ '' --version 2>&1'') ''wrk'',
     wl_start = wrk_start nv r, wl_stop = io_ok (),
     wl_report = (\<lambda>(w, out). (Inr (case out of Some text \<Rightarrow> wrk_summary text | None \<Rightarrow> JNull), w, out))\<rparr>"

section \<open>vsock\<close>

record vsock =
  vs_uds :: string
  vs_port :: u32
  vs_invocations :: u32
  vs_payload :: string
  vs_timeout_ms :: u64

definition vsock_of :: "(json \<Rightarrow> string) \<Rightarrow> (string, json) bmap \<Rightarrow> (string, string) bmap \<Rightarrow> vsock" where
  "vsock_of to_text config vs = (let g = cfg to_text config vs in
     \<lparr>vs_uds = g ''uds'' '''', vs_port = or_else (parse_u32 (g ''port'' ''5252'')) 5252,
      vs_invocations = or_else (parse_u32 (g ''invocations'' ''50'')) 50, vs_payload = g ''payload'' '''',
      vs_timeout_ms = or_else (parse_u64 (g ''timeout_ms'' ''5000'')) 5000\<rparr>)"

definition timeout_ns :: "vsock \<Rightarrow> nat" where
  "timeout_ns v = unat (vs_timeout_ms v) * 1000000"

text \<open>The operations on sockets and the monotonic clock, in nanoseconds.\<close>

record ('w, 'h) vsock_ops =
  vo_connect :: "string \<Rightarrow> ('w, 'h) io"
  vo_read_timeout :: "'h \<Rightarrow> nat \<Rightarrow> ('w, unit) io"
  vo_write_timeout :: "'h \<Rightarrow> nat \<Rightarrow> ('w, unit) io"
  vo_write :: "'h \<Rightarrow> string \<Rightarrow> ('w, unit) io"
  vo_clone :: "'h \<Rightarrow> ('w, 'h) io"
  vo_read_line :: "'h \<Rightarrow> ('w, string) io"
  vo_read_to_end :: "'h \<Rightarrow> ('w, unit) io"
  vo_instant :: "'w \<Rightarrow> nat \<times> 'w"
  vo_sleep :: "nat \<Rightarrow> 'w \<Rightarrow> 'w"

definition io_context :: "string \<Rightarrow> ('w, 'a) io \<Rightarrow> ('w, 'a) io" where
  "io_context what m = io_map_err (\<lambda>e. what @ '': '' @ e) m"

definition handshake :: "('w, 'h) vsock_ops \<Rightarrow> vsock \<Rightarrow> ('w, unit) io" where
  "handshake vo v =
     io_then (io_context (''connect '' @ vs_uds v) (vo_connect vo (vs_uds v))) (\<lambda>s.
     io_then (io_context ''read timeout'' (vo_read_timeout vo s (timeout_ns v))) (\<lambda>_.
     io_then (io_context ''write timeout'' (vo_write_timeout vo s (timeout_ns v))) (\<lambda>_.
     io_then (io_context ''CONNECT'' (vo_write vo s (''CONNECT '' @ show_u32 (vs_port v) @ [newline]))) (\<lambda>_.
     io_then (io_context ''clone stream'' (vo_clone vo s)) (\<lambda>reader.
     io_then (io_context ''read OK'' (vo_read_line vo reader)) (\<lambda>line.
     if \<not> starts_with ''OK '' line
     then io_err (''vsock CONNECT '' @ show_u32 (vs_port v) @ '' rejected: '' @ debug_str line)
     else io_then (if vs_payload v \<noteq> '''' then io_context ''write payload'' (vo_write vo s (vs_payload v)) else io_ok ()) (\<lambda>_.
       io_context ''read response'' (vo_read_to_end vo reader))))))))"

definition invoke_once :: "('w, 'h) vsock_ops \<Rightarrow> vsock \<Rightarrow> ('w, nat) io" where
  "invoke_once vo v w = (case vo_instant vo w of (t0, w1) \<Rightarrow>
     io_then (handshake vo v) (\<lambda>_ w2. case vo_instant vo w2 of (t1, w3) \<Rightarrow> (Inr (t1 - t0), w3)) w1)"

text \<open>The first invocation is retried every 50 ms until it succeeds or the deadline has passed.\<close>

partial_function (option) first_invocation ::
  "('w, 'h) vsock_ops \<Rightarrow> vsock \<Rightarrow> nat \<Rightarrow> 'w \<Rightarrow> ((string + nat) \<times> 'w) option" where
  "first_invocation vo v deadline w = (case invoke_once vo v w of
     (Inr d, w1) \<Rightarrow> Some (Inr d, w1)
   | (Inl e, w1) \<Rightarrow> (case vo_instant vo w1 of (now, w2) \<Rightarrow>
       if deadline \<le> now then Some (Inl e, w2)
       else first_invocation vo v deadline (vo_sleep vo 50000000 w2)))"

record vsock_cells =
  vc_latencies :: "u128 list"
  vc_errors :: u32

definition vsock_cells_new :: vsock_cells where
  "vsock_cells_new = \<lparr>vc_latencies = [], vc_errors = 0\<rparr>"

fun invoke_rest :: "('w, 'h) vsock_ops \<Rightarrow> vsock \<Rightarrow> nat \<Rightarrow> 'w \<times> vsock_cells \<Rightarrow> 'w \<times> vsock_cells" where
  "invoke_rest vo v 0 s = s"
| "invoke_rest vo v (Suc n) (w, st) = (case invoke_once vo v w of
     (Inr d, w') \<Rightarrow> invoke_rest vo v n (w', st\<lparr>vc_latencies := vc_latencies st @ [of_nat d]\<rparr>)
   | (Inl _, w') \<Rightarrow> invoke_rest vo v n (w', st\<lparr>vc_errors := vc_errors st + 1\<rparr>))"

definition vsock_start :: "('w, 'h) vsock_ops \<Rightarrow> vsock \<Rightarrow> 'w \<times> vsock_cells
    \<Rightarrow> ((string + unit) \<times> 'w \<times> vsock_cells) option" where
  "vsock_start vo v = (\<lambda>(w, st). if trim (vs_uds v) = ''''
     then Some (Inl (''vsock workload needs a '' @ quoted ''uds'' @ '' (the firecracker host vsock socket)''), w, st)
     else case vo_instant vo w of (now, w1) \<Rightarrow>
       (case first_invocation vo v (now + timeout_ns v) w1 of
          None \<Rightarrow> None
        | Some (Inl e, w2) \<Rightarrow> Some (Inl (''vsock first invocation failed: '' @ e), w2, st)
        | Some (Inr d, w2) \<Rightarrow> Some (Inr (), invoke_rest vo v (unat (vs_invocations v) - 1)
            (w2, st\<lparr>vc_latencies := vc_latencies st @ [of_nat d]\<rparr>))))"

definition percentile_index :: "nat \<Rightarrow> f64 \<Rightarrow> nat" where
  "percentile_index n p = min (f_as_usize (f_round (p * (f_of_nat n - f_lit 1)))) (n - 1)"

definition percentile_of :: "u128 list \<Rightarrow> f64 \<Rightarrow> u64" where
  "percentile_of ls p = ucast (ls ! percentile_index (length ls) p)"

definition vsock_summary :: "u128 list \<Rightarrow> u32 \<Rightarrow> u32 \<Rightarrow> json" where
  "vsock_summary latencies errors requested = (if latencies = []
     then jobj [(''driver'', JString ''vsock''), (''invocations'', JNumber (PosInt 0)),
       (''requested'', JNumber (PosInt (ucast requested))), (''errors'', JNumber (PosInt (ucast errors)))]
     else let ls = sort latencies; n = length ls; tot = foldl (+) 0 ls in
       jobj [(''driver'', JString ''vsock''), (''invocations'', JNumber (PosInt (of_nat n))),
         (''requested'', JNumber (PosInt (ucast requested))), (''errors'', JNumber (PosInt (ucast errors))),
         (''latency_avg_ns'', JNumber (PosInt (ucast (tot div of_nat n)))),
         (''latency_p50_ns'', JNumber (PosInt (percentile_of ls (f_lit (1 / 2))))),
         (''latency_p99_ns'', JNumber (PosInt (percentile_of ls (f_lit (99 / 100))))),
         (''latency_max_ns'', JNumber (PosInt (ucast (ls ! (n - 1)))))])"

text \<open>
  The workload. Where the retry loop would not return, \<open>start\<close> has no result to give; theorem
  \<open>vsock_start_returns\<close> excludes that case on a clock that moves.
\<close>

definition vsock_workload :: "('w, 'h) vsock_ops \<Rightarrow> vsock \<Rightarrow> ('w \<times> vsock_cells) workload" where
  "vsock_workload vo v = \<lparr>wl_version = (\<lambda>s. (''vsock'', s)),
     wl_start = (\<lambda>s. case vsock_start vo v s of Some r \<Rightarrow> r | None \<Rightarrow> (Inl ''vsock start does not return'', s)),
     wl_stop = io_ok (),
     wl_report = (\<lambda>(w, st). (Inr (vsock_summary (vc_latencies st) (vc_errors st) (vs_invocations v)), w, st))\<rparr>"

end
