(* ===== verification/VsockRun.thy ===== *)
theory VsockRun
  imports NativeWorkload
begin

text \<open>
  The vsock driver: on a clock that moves its start returns and every invocation is counted
  once (\<open>moving_clock\<close> states what is assumed of the clock), and
  what the latency summary reports: the upper median, an upper percentile, the extremes.
\<close>

section \<open>The retry loop\<close>

text \<open>A clock no operation turns back, that sleeping moves on.\<close>

definition forward :: "('w \<Rightarrow> nat) \<Rightarrow> ('w, 'a) io \<Rightarrow> bool" where
  "forward clock m \<longleftrightarrow> (\<forall>w. clock w \<le> clock (snd (m w)))"

definition moving_clock :: "('w, 'h) vsock_ops \<Rightarrow> ('w \<Rightarrow> nat) \<Rightarrow> bool" where
  "moving_clock vo clock \<longleftrightarrow>
     (\<forall>w. fst (vo_instant vo w) = clock w \<and> clock w \<le> clock (snd (vo_instant vo w)))
     \<and> (\<forall>d w. clock w + d \<le> clock (vo_sleep vo d w))
     \<and> (\<forall>p. forward clock (vo_connect vo p)) \<and> (\<forall>h n. forward clock (vo_read_timeout vo h n))
     \<and> (\<forall>h n. forward clock (vo_write_timeout vo h n)) \<and> (\<forall>h s. forward clock (vo_write vo h s))
     \<and> (\<forall>h. forward clock (vo_clone vo h)) \<and> (\<forall>h. forward clock (vo_read_line vo h))
     \<and> (\<forall>h. forward clock (vo_read_to_end vo h))"

lemma forward_then: "forward clock m \<Longrightarrow> (\<And>x. forward clock (f x)) \<Longrightarrow> forward clock (io_then m f)"
proof -
  assume m: "forward clock m" and f: "\<And>x. forward clock (f x)"
  have "clock w \<le> clock (snd (io_then m f w))" for w
  proof -
    obtain r w1 where r: "m w = (r, w1)" by (cases "m w")
    have "clock w \<le> clock w1" using m r unfolding forward_def by (metis snd_conv)
    moreover have "clock w1 \<le> clock (snd (f x w1))" for x using f unfolding forward_def by blast
    ultimately show ?thesis by (cases r) (simp_all add: io_then_def r le_trans [of "clock w" "clock w1"])
  qed
  then show ?thesis by (simp add: forward_def)
qed

lemma forward_basic:
  "forward clock (io_ok x)" "forward clock (io_err e)" "forward clock m \<Longrightarrow> forward clock (io_context what m)"
  by (simp_all add: forward_def io_ok_def io_err_def io_context_def io_map_err_def split_beta)

lemma forward_handshake:
  assumes "moving_clock vo clock"
  shows "forward clock (handshake vo v)"
proof -
  have ops: "forward clock (vo_connect vo p)" "forward clock (vo_read_timeout vo h n)" "forward clock (vo_write_timeout vo h n)"
    "forward clock (vo_write vo h s)" "forward clock (vo_clone vo h)" "forward clock (vo_read_line vo h)"
    "forward clock (vo_read_to_end vo h)" for p h n s
    using assms by (simp_all add: moving_clock_def)
  show ?thesis unfolding handshake_def
    by (intro forward_then forward_basic ops; simp only: if_split; intro conjI impI forward_then forward_basic ops;
        simp only: if_split; intro conjI impI forward_basic ops)
qed

lemma clock_instant:
  assumes "moving_clock vo clock"
  shows "fst (vo_instant vo w) = clock w" and "clock w \<le> clock (snd (vo_instant vo w))"
    and "clock w + d \<le> clock (vo_sleep vo d w)"
  using assms by (simp_all add: moving_clock_def)

lemma invoke_forward:
  assumes c: "moving_clock ops clock"
  shows "clock w \<le> clock (snd (invoke_once ops v w))"
proof -
  obtain t0 w1 where t0: "vo_instant ops w = (t0, w1)" by (cases "vo_instant ops w")
  obtain r w2 where h: "handshake ops v w1 = (r, w2)" by (cases "handshake ops v w1")
  obtain t1 w3 where t1: "vo_instant ops w2 = (t1, w3)" by (cases "vo_instant ops w2")
  have "clock w \<le> clock w1" "clock w1 \<le> clock w2" "clock w2 \<le> clock w3"
    using clock_instant(2) [OF c, of w] forward_handshake [OF c, of v] clock_instant(2) [OF c, of w2]
    unfolding forward_def by (simp_all add: t0 t1) (metis h snd_conv)
  then show ?thesis by (cases r) (auto simp: invoke_once_def t0 h t1 io_then_def)
qed

lemma first_invocation_ends:
  assumes c: "moving_clock ops clock"
  shows "\<exists>r w'. first_invocation ops v deadline w = Some (r, w') \<and> (is_ok r \<or> deadline \<le> clock w')"
proof (induction "deadline - clock w" arbitrary: w rule: less_induct)
  case less
  obtain q w1 where q: "invoke_once ops v w = (q, w1)" by (cases "invoke_once ops v w")
  have c1: "clock w \<le> clock w1" using invoke_forward [OF c, of w v] q by simp
  show ?case
  proof (cases q)
    case (Inr d)
    then show ?thesis using q by (subst first_invocation.simps) simp
  next
    case (Inl e)
    obtain now w2 where now: "vo_instant ops w1 = (now, w2)" by (cases "vo_instant ops w1")
    have c2: "now = clock w1" "clock w1 \<le> clock w2" using clock_instant(1,2) [OF c, of w1] now by simp_all
    show ?thesis
    proof (cases "deadline \<le> now")
      case True
      then show ?thesis using q Inl now c2 by (subst first_invocation.simps) simp
    next
      case False
      have "clock w2 + 50000000 \<le> clock (vo_sleep ops 50000000 w2)" by (rule clock_instant(3) [OF c])
      then have "deadline - clock (vo_sleep ops 50000000 w2) < deadline - clock w" using False c1 c2 by linarith
      from less [OF this] show ?thesis using q Inl now False by (subst first_invocation.simps) simp
    qed
  qed
qed

lemma invoke_rest_counts:
  assumes "n < 2 ^ 32" and "invoke_rest vo v n (w, st) = (w', st')" and "uint (vc_errors st) + int n < 2 ^ 32"
  shows "length (vc_latencies st') + nat (uint (vc_errors st')) = length (vc_latencies st) + nat (uint (vc_errors st)) + n
    \<and> (\<exists>more. vc_latencies st' = vc_latencies st @ more)"
  using assms
proof (induction n arbitrary: w st)
  case (Suc n)
  obtain r w1 where r: "invoke_once vo v w = (r, w1)" by (cases "invoke_once vo v w")
  show ?case
  proof (cases r)
    case (Inr d)
    then have "invoke_rest vo v n (w1, st\<lparr>vc_latencies := vc_latencies st @ [of_nat d]\<rparr>) = (w', st')"
      using Suc.prems r by simp
    from Suc.IH [OF _ this] show ?thesis using Suc.prems by auto
  next
    case (Inl e)
    have e: "uint (vc_errors st + 1) = uint (vc_errors st) + 1"
      using Suc.prems(3) by (simp add: uint_word_ariths take_bit_int_eq_self)
    have "invoke_rest vo v n (w1, st\<lparr>vc_errors := vc_errors st + 1\<rparr>) = (w', st')"
      using Inl Suc.prems r by simp
    from Suc.IH [OF _ this] show ?thesis using Suc.prems e by (auto simp: nat_add_distrib)
  qed
qed auto

text \<open>A world that is its clock: the guest listens from a given time on, and answers in a nanosecond.\<close>

definition listens_at :: "nat \<Rightarrow> (nat, unit) vsock_ops" where
  "listens_at t0 = \<lparr>vo_connect = (\<lambda>p t. (if t0 \<le> t then Inr () else Inl ''refused'', t)),
     vo_read_timeout = (\<lambda>h n. io_ok ()), vo_write_timeout = (\<lambda>h n. io_ok ()), vo_write = (\<lambda>h s. io_ok ()),
     vo_clone = io_ok, vo_read_line = (\<lambda>h. io_ok ''OK 1''), vo_read_to_end = (\<lambda>h t. (Inr (), t + 1)),
     vo_instant = (\<lambda>t. (t, t)), vo_sleep = (\<lambda>d t. t + d)\<rparr>"

text \<open>Starting the vsock workload always returns on a clock that moves, whatever the guest does:
  with an error and nothing counted when no first invocation got through before the timeout, or
  with every invocation counted exactly once, as a latency or as an error, at least one of them
  a latency.\<close>

theorem vsock_start_returns:
  assumes "moving_clock vo clock"
  shows "\<exists>r w' st. vsock_start vo v (w, vsock_cells_new) = Some (r, w', st)
    \<and> (case r of Inl _ \<Rightarrow> st = vsock_cells_new
       | Inr _ \<Rightarrow> vc_latencies st \<noteq> []
         \<and> length (vc_latencies st) + nat (uint (vc_errors st)) = max 1 (unat (vs_invocations v)))"
proof (cases "trim (vs_uds v) = ''''")
  case True
  then show ?thesis by (simp add: vsock_start_def)
next
  case False
  obtain now w1 where now: "vo_instant vo w = (now, w1)" by (cases "vo_instant vo w")
  obtain r w2 where first: "first_invocation vo v (now + timeout_ns v) w1 = Some (r, w2)"
    using first_invocation_ends [OF assms] by blast
  show ?thesis
  proof (cases r)
    case (Inl e)
    then show ?thesis using False now first by (simp add: vsock_start_def)
  next
    case (Inr d)
    obtain w3 st where rest: "invoke_rest vo v (unat (vs_invocations v) - 1)
        (w2, vsock_cells_new\<lparr>vc_latencies := [of_nat d]\<rparr>) = (w3, st)" by (cases "invoke_rest vo v (unat (vs_invocations v) - 1)
        (w2, vsock_cells_new\<lparr>vc_latencies := [of_nat d]\<rparr>)")
    have "unat (vs_invocations v) < 2 ^ 32" using unsigned_less [of "vs_invocations v"] by simp
    then have "length (vc_latencies st) + nat (uint (vc_errors st)) = 1 + (unat (vs_invocations v) - 1)
        \<and> (\<exists>more. vc_latencies st = [of_nat d] @ more)"
      using invoke_rest_counts [OF _ rest] by (simp add: vsock_cells_new_def)
    then show ?thesis using False now first Inr rest by (auto simp: vsock_start_def vsock_cells_new_def)
  qed
qed

theorem vsock_start_returns_witness:
  "\<exists>r w' st. vsock_start (listens_at 9000000000) (vsock_of (\<lambda>_. '''') [(''uds'', JString ''/run/v'')] []) (0, vsock_cells_new)
     = Some (r, w', st)"
proof -
  have "moving_clock (listens_at 9000000000) (\<lambda>t. t)"
    by (simp add: moving_clock_def listens_at_def forward_def io_ok_def)
  from vsock_start_returns [OF this] show ?thesis by blast
qed

section \<open>The summary\<close>

lemma f_lit_half: "f_lit (1 / 2) = Fin (1 / 2)"
  by code_simp

lemma f_lit_99: "\<exists>q. f_lit (99 / 100) = Fin q \<and> 1 / 2 \<le> q \<and> q \<le> 1"
proof -
  have "f_lit (99 / 100) = Fin (4458563631096791 / 4503599627370496)" by code_simp
  then show ?thesis by (intro exI [of _ "4458563631096791 / 4503599627370496"]) simp
qed

lemma dyadic53_half:
  assumes "0 \<le> k" and "k < 2 ^ 53"
  shows "dyadic53 (of_int k / 2)"
  unfolding dyadic53_def using assms
  by - (rule exI [where x = k], rule exI [where x = "- 1"], simp add: pow2_def)

lemma scaled_rank:
  assumes "2 \<le> n" and "n \<le> 2 ^ 53" and "1 / 2 \<le> q" and "q \<le> 1"
  shows "\<exists>r. Fin q * (f_of_nat n - f_lit 1) = Fin r \<and> of_nat (n - 1) / 2 \<le> r \<and> r \<le> of_nat (n - 1)
     \<and> (q = 1 / 2 \<longrightarrow> r = of_nat (n - 1) / 2)"
proof -
  let ?m = "of_nat (n - 1) :: rat"
  have m: "?m = of_nat n - 1" "1 \<le> ?m" using assms(1) by (simp_all add: of_nat_diff)
  have int_m: "?m = of_int (int (n - 1))" by simp
  have "rnd ?m = Fin ?m" unfolding int_m using assms(2) by (intro rnd_of_int) simp
  then have diff: "f_of_nat n - f_lit 1 = Fin ?m"
    using assms(2) m by (simp add: f_of_nat_exact f_lit_def f64_defs f_add_def)
  have prod: "Fin q * Fin ?m = rnd (q * ?m)" using assms(3) m by (simp add: f64_defs f_mul_def zero_of_def)
  have half: "rnd (?m / 2) = Fin (?m / 2)"
  proof (rule rnd_exact)
    show "dyadic53 (?m / 2)" unfolding int_m using assms(1,2) by (intro dyadic53_half) simp_all
    have "n - 1 < 2 ^ 53" using assms(1,2) by linarith
    then have "?m < of_nat (2 ^ 53)" by (simp only: of_nat_less_iff)
    then have "?m < 2 ^ 53" by simp
    moreover have "(2 ^ 53 :: rat) \<le> pow2 1024" by (simp add: pow2_def power_increasing)
    ultimately show "\<bar>?m / 2\<bar> < pow2 1024" using m by simp
  qed
  have "?m / 2 \<le> q * ?m" "q * ?m \<le> ?m" using assms(3,4) m mult_right_mono [of "1/2" q ?m] mult_right_mono [of q 1 ?m] by simp_all
  from rnd_mono [OF this(1)] rnd_mono [OF this(2)]
  have "Fin (?m / 2) \<le> rnd (q * ?m)" "rnd (q * ?m) \<le> Fin ?m" using half \<open>rnd ?m = Fin ?m\<close> by simp_all
  then obtain r where r: "rnd (q * ?m) = Fin r" "?m / 2 \<le> r" "r \<le> ?m"
    using m by (cases "rnd (q * ?m)") (auto simp: f64_defs)
  moreover have "r = ?m / 2" if "q = 1 / 2" using r(1) half that by simp
  ultimately show ?thesis unfolding diff prod by blast
qed

lemma percentile_rank:
  assumes "0 < n" and "n \<le> 2 ^ 53" and "1 / 2 \<le> q" and "q \<le> 1"
  shows "n div 2 \<le> percentile_index n (Fin q)" and "percentile_index n (Fin q) < n"
    and "q = 1 / 2 \<Longrightarrow> percentile_index n (Fin q) = n div 2"
proof -
  show "percentile_index n (Fin q) < n" using assms(1) by (simp add: percentile_index_def)
  have *: "n div 2 \<le> percentile_index n (Fin q) \<and> (q = 1 / 2 \<longrightarrow> percentile_index n (Fin q) = n div 2)"
  proof (cases "n = 1")
    case True
    then show ?thesis by (simp add: percentile_index_def)
  next
    case False
    then have n: "2 \<le> n" using assms(1) by simp
    obtain r where r: "Fin q * (f_of_nat n - f_lit 1) = Fin r" "of_nat (n - 1) / 2 \<le> r" "r \<le> of_nat (n - 1)"
      "q = 1 / 2 \<longrightarrow> r = of_nat (n - 1) / 2"
      using scaled_rank [OF n assms(2-4)] by blast
    have r0: "0 \<le> r" using r(2) by (meson divide_nonneg_nonneg of_nat_0_le_iff order_trans zero_le_numeral)
    have "(of_nat (n - 1) :: rat) = of_nat n - 1" using n by (simp add: of_nat_diff)
    then have "(of_nat (n - 1) :: rat) / 2 + 1 / 2 = of_nat n / of_nat 2" by (simp add: field_simps)
    then have fl: "\<lfloor>(of_nat (n - 1) :: rat) / 2 + 1 / 2\<rfloor> = int (n div 2)"
      by (simp only: floor_divide_of_nat_eq of_nat_div)
    have lo: "int (n div 2) \<le> \<lfloor>r + 1 / 2\<rfloor>" using floor_mono [of "of_nat (n - 1) / 2 + 1 / 2" "r + 1 / 2"] r(2) fl by simp
    have "\<lfloor>r + 1 / 2\<rfloor> \<le> \<lfloor>of_nat (n - 1) + 1 / 2 :: rat\<rfloor>" using r(3) by (intro floor_mono) simp
    also have "\<dots> \<le> int n" unfolding floor_le_iff using n by (simp add: of_nat_diff)
    finally have hi: "nat \<lfloor>r + 1 / 2\<rfloor> \<le> n" by simp
    have "percentile_index n (Fin q) = min (nat \<lfloor>r + 1 / 2\<rfloor>) (n - 1)"
      using r(1) r0 hi assms(2) by (simp add: percentile_index_def)
    moreover have "\<lfloor>r + 1 / 2\<rfloor> = int (n div 2)" if "q = 1 / 2" unfolding mp [OF r(4) that] by (rule fl)
    moreover have "n div 2 \<le> n - 1" using n by linarith
    ultimately show ?thesis using lo by auto
  qed
  then show "n div 2 \<le> percentile_index n (Fin q)" by blast
  show "percentile_index n (Fin q) = n div 2" if "q = 1 / 2" using * that by blast
qed

definition as_count :: "u128 \<Rightarrow> json" where
  "as_count x = JNumber (PosInt (ucast x))"

lemma foldl_add_sum:
  "uint acc + sum_list (map uint xs) < 2 ^ 128 \<Longrightarrow> uint (foldl (+) acc (xs :: u128 list)) = uint acc + sum_list (map uint xs)"
proof (induction xs arbitrary: acc)
  case (Cons x xs)
  have "0 \<le> sum_list (map uint xs)" by (intro sum_list_nonneg) auto
  then have "uint (acc + x) = uint acc + uint x"
    using Cons.prems by (simp add: uint_word_ariths take_bit_int_eq_self)
  then show ?case using Cons.IH [of "acc + x"] Cons.prems by simp
qed simp

lemma sort_last_Max:
  assumes "xs \<noteq> []"
  shows "sort xs ! (length xs - 1) = Max (set (xs :: 'a :: linorder list))"
proof -
  have "Max (set xs) \<in> set (sort xs)" using assms by simp
  then have "\<exists>i < length (sort xs). sort xs ! i = Max (set xs)" by (simp only: in_set_conv_nth)
  then obtain i where i: "i < length xs" "sort xs ! i = Max (set xs)" by (auto simp del: set_sort)
  have "sort xs ! i \<le> sort xs ! (length xs - 1)" using i by (intro sorted_nth_mono) auto
  moreover have "sort xs ! (length xs - 1) \<in> set xs" using assms nth_mem [of "length xs - 1" "sort xs"] by simp
  then have "sort xs ! (length xs - 1) \<le> Max (set xs)" by simp
  ultimately show ?thesis using i by simp
qed

text \<open>The latency summary of the vsock driver, for any non-empty run of up to \<open>2 ^ 53\<close>
  invocations whose total fits 128 bits: the median it reports is the upper median of the
  sorted latencies, the 99th percentile is one of the latencies, not below the median and not
  above the maximum, the maximum is the greatest latency, and the average is the exact sum
  divided by the count; each is reported in its low 64 bits.\<close>

theorem vsock_summary_ranks:
  fixes errors requested :: u32
  assumes "latencies \<noteq> []" and "length latencies \<le> 2 ^ 53" and "sum_list (map uint latencies) < 2 ^ 128"
  shows "\<exists>p99 avg. jget (vsock_summary latencies errors requested) ''latency_p50_ns''
        = Some (as_count (sort latencies ! (length latencies div 2)))
    \<and> jget (vsock_summary latencies errors requested) ''latency_p99_ns'' = Some (as_count p99)
    \<and> p99 \<in> set latencies \<and> sort latencies ! (length latencies div 2) \<le> p99 \<and> p99 \<le> Max (set latencies)
    \<and> jget (vsock_summary latencies errors requested) ''latency_max_ns'' = Some (as_count (Max (set latencies)))
    \<and> jget (vsock_summary latencies errors requested) ''latency_avg_ns'' = Some (as_count avg)
    \<and> uint avg = sum_list (map uint latencies) div int (length latencies)"
proof -
  let ?ls = "sort latencies" let ?n = "length latencies"
  have n: "0 < ?n" using assms(1) by simp
  obtain q where q: "f_lit (99 / 100) = Fin q" "1 / 2 \<le> q" "q \<le> 1" using f_lit_99 by blast
  let ?p99 = "?ls ! percentile_index ?n (Fin q)"
  have i99: "?n div 2 \<le> percentile_index ?n (Fin q)" "percentile_index ?n (Fin q) < ?n"
    using percentile_rank [OF n assms(2) q(2,3)] by blast+
  have i50: "percentile_index ?n (Fin (1 / 2)) = ?n div 2" using percentile_rank(3) [OF n assms(2)] by simp
  have mem: "?p99 \<in> set latencies" using i99 nth_mem [of "percentile_index ?n (Fin q)" ?ls] by simp
  have le: "?ls ! (?n div 2) \<le> ?p99" using i99 by (intro sorted_nth_mono) auto
  have "sum_list (map uint ?ls) = sum_list (map uint latencies)"
    by (metis mset_map mset_sort sum_mset_sum_list)
  then have tot: "uint (foldl (+) 0 ?ls) = sum_list (map uint latencies)"
    using foldl_add_sum [of 0 ?ls] assms(3) by simp
  have "int ?n < 2 ^ 128" using assms(2) by (simp add: order_le_less_trans)
  then have un: "uint (of_nat ?n :: u128) = int ?n" by (simp add: uint_word_of_int unsigned_of_nat take_bit_nat_eq_self take_bit_int_eq_self)
  have avg: "uint (foldl (+) 0 ?ls div of_nat ?n) = sum_list (map uint latencies) div int ?n"
    by (simp add: uint_div tot un)
  show ?thesis
    by (rule exI [of _ ?p99], rule exI [of _ "foldl (+) 0 ?ls div of_nat ?n"])
      (use assms(1) mem le avg in \<open>simp add: vsock_summary_def Let_def jget_jobj as_count_def percentile_of_def
        f_lit_half q(1) i50 sort_last_Max [simplified]\<close>)
qed

theorem vsock_summary_ranks_witness:
  "\<exists>p99. jget (vsock_summary [30, 10, 20, 40] 1 5) ''latency_p99_ns'' = Some (as_count p99) \<and> 30 \<le> p99 \<and> p99 \<le> 40"
proof -
  have "sort [30, 10, 20, 40 :: u128] = [10, 20, 30, 40]" by simp
  then show ?thesis using vsock_summary_ranks [of "[30, 10, 20, 40]" 1 5] by auto
qed

end
