(* ===== verification/GateCli.thy ===== *)
theory GateCli
  imports Gate
begin

text \<open>
  \<open>crates/gate/src/main.rs\<close>: the command line of the gate, its modes, and the exit code
  that carries the verdict. The files it reads and writes and the JSON parser are the
  fields of an environment.
\<close>

section \<open>Arguments\<close>

record gate_args =
  a_mode :: string
  a_a :: "string list"
  a_b :: "string list"
  a_baseline :: "string list"
  a_candidate :: "string list"
  a_out :: string
  a_cfg :: config

definition default_args :: gate_args where
  "default_args = \<lparr>a_mode = ''ab_permutation'', a_a = [], a_b = [], a_baseline = [], a_candidate = [],
     a_out = ''-'', a_cfg = default_config\<rparr>"

text \<open>The list the bare positional arguments feed.\<close>

datatype feed = FeedA | FeedB | FeedBaseline | FeedCandidate

definition set_cfg :: "(config \<Rightarrow> config) \<Rightarrow> gate_args \<Rightarrow> gate_args" where
  "set_cfg g a = a\<lparr>a_cfg := g (a_cfg a)\<rparr>"

text \<open>A parsed value put into the arguments, or the error "bad flag".\<close>

definition put_parsed :: "string \<Rightarrow> 'v option \<Rightarrow> ('v \<Rightarrow> gate_args) \<Rightarrow> string + gate_args" where
  "put_parsed flag v put = (case v of Some x \<Rightarrow> Inr (put x) | None \<Rightarrow> Inl (''bad '' @ flag))"

text \<open>The flags that take a value: what they do with it.\<close>

definition valued :: "string \<Rightarrow> (string \<Rightarrow> gate_args \<Rightarrow> string + gate_args) option" where
  "valued arg =
     (if arg = ''--mode'' then Some (\<lambda>v a. Inr (a\<lparr>a_mode := v\<rparr>))
      else if arg = ''--out'' then Some (\<lambda>v a. Inr (a\<lparr>a_out := v\<rparr>))
      else if arg = ''--p-threshold'' then
        Some (\<lambda>v a. put_parsed arg (parse_f64 v) (\<lambda>x. set_cfg (\<lambda>c. c\<lparr>p_threshold := x\<rparr>) a))
      else if arg = ''--noise-threshold'' then
        Some (\<lambda>v a. put_parsed arg (parse_f64 v) (\<lambda>x. set_cfg (\<lambda>c. c\<lparr>noise_threshold := x\<rparr>) a))
      else if arg = ''--min-effect'' then
        Some (\<lambda>v a. put_parsed arg (parse_f64 v) (\<lambda>x. set_cfg (\<lambda>c. c\<lparr>min_effect := x\<rparr>) a))
      else if arg = ''--resamples'' then
        Some (\<lambda>v a. put_parsed arg (parse_u64 v) (\<lambda>x. set_cfg (\<lambda>c. c\<lparr>resamples := unat x\<rparr>) a))
      else if arg = ''--drift-k'' then
        Some (\<lambda>v a. put_parsed arg (parse_f64 v) (\<lambda>x. set_cfg (\<lambda>c. c\<lparr>drift_k := x\<rparr>) a))
      else if arg = ''--seed'' then
        Some (\<lambda>v a. put_parsed arg (parse_u64 v) (\<lambda>x. set_cfg (\<lambda>c. c\<lparr>seed := x\<rparr>) a))
      else if arg = ''--ignore'' then
        Some (\<lambda>v a. Inr (set_cfg (\<lambda>c. c\<lparr>ignore := ignore c @ [v]\<rparr>) a))
      else None)"

definition switch :: "string \<Rightarrow> (gate_args \<Rightarrow> gate_args) option" where
  "switch arg =
     (if arg = ''--allow-ungraded'' then Some (set_cfg (\<lambda>c. c\<lparr>allow_ungraded := True\<rparr>))
      else if arg = ''--strict-single-cell'' then Some (set_cfg (\<lambda>c. c\<lparr>strict_single_cell := True\<rparr>))
      else None)"

definition feed_of :: "string \<Rightarrow> feed option" where
  "feed_of arg =
     (if arg = ''--a'' then Some FeedA else if arg = ''--b'' then Some FeedB
      else if arg = ''--baseline'' then Some FeedBaseline
      else if arg = ''--candidate'' then Some FeedCandidate else None)"

fun push_positional :: "feed \<Rightarrow> string \<Rightarrow> gate_args \<Rightarrow> gate_args" where
  "push_positional FeedA x a = a\<lparr>a_a := a_a a @ [x]\<rparr>"
| "push_positional FeedB x a = a\<lparr>a_b := a_b a @ [x]\<rparr>"
| "push_positional FeedBaseline x a = a\<lparr>a_baseline := a_baseline a @ [x]\<rparr>"
| "push_positional FeedCandidate x a = a\<lparr>a_candidate := a_candidate a @ [x]\<rparr>"

fun parse_args_from :: "gate_args \<Rightarrow> feed option \<Rightarrow> string list \<Rightarrow> string + gate_args" where
  "parse_args_from a cur [] = Inr a"
| "parse_args_from a cur (arg # rest) = (case valued arg of
     Some upd \<Rightarrow> (case rest of
         [] \<Rightarrow> Inl (''missing value after '' @ arg)
       | v # rest' \<Rightarrow> and_then (upd v a) (\<lambda>a'. parse_args_from a' None rest'))
   | None \<Rightarrow> (case feed_of arg of
       Some fd \<Rightarrow> parse_args_from a (Some fd) rest
     | None \<Rightarrow> (case switch arg of
         Some upd \<Rightarrow> parse_args_from (upd a) None rest
       | None \<Rightarrow>
           if starts_with ''--'' arg then Inl (''unknown flag '' @ arg)
           else (case cur of
               Some fd \<Rightarrow> parse_args_from (push_positional fd arg a) cur rest
             | None \<Rightarrow> Inl (''stray argument '' @ arg)))))"

definition parse_args :: "string list \<Rightarrow> string + gate_args" where
  "parse_args argv = parse_args_from default_args None argv"

section \<open>Running\<close>

record gate_env =
  ge_read :: "string \<Rightarrow> string + string"
  ge_from_str :: "string \<Rightarrow> string + json"
  ge_pretty :: "json \<Rightarrow> string + string"
  ge_to_text :: "json \<Rightarrow> string"
  ge_write :: "string \<Rightarrow> string \<Rightarrow> string + unit"

definition load_run :: "gate_env \<Rightarrow> string \<Rightarrow> string + json" where
  "load_run env p = and_then (map_err (\<lambda>e. ''reading '' @ p @ '': '' @ e) (ge_read env p))
     (\<lambda>text. map_err (\<lambda>e. ''parsing '' @ p @ '': '' @ e) (ge_from_str env text))"

definition load :: "gate_env \<Rightarrow> string list \<Rightarrow> string + json list" where
  "load env paths = map_res (load_run env) paths"

text \<open>The two groups of a mode, loaded and not empty.\<close>

definition load_pair :: "gate_env \<Rightarrow> string list \<Rightarrow> string list \<Rightarrow> string \<Rightarrow> string + (json list \<times> json list)" where
  "load_pair env xs ys needs = and_then (load env xs) (\<lambda>a. and_then (load env ys) (\<lambda>b.
     if a = [] \<or> b = [] then Inl needs else Inr (a, b)))"

definition dispatch :: "gate_env \<Rightarrow> gate_args \<Rightarrow> fault + outcome" where
  "dispatch env args =
     (if a_mode args = ''ab_permutation'' then
        and_then (map_err Error (load_pair env (a_a args) (a_b args)
            ''ab_permutation needs --a and --b run files''))
          (\<lambda>(a, b). ab (ge_to_text env) a b (a_cfg args))
      else if a_mode args = ''longitudinal_drift'' then
        and_then (map_err Error (load_pair env (a_baseline args) (a_candidate args)
            ''longitudinal_drift needs --baseline and --candidate''))
          (\<lambda>(a, b). drift (ge_to_text env) a b (a_cfg args))
      else if a_mode args = ''subsystem_triad'' then
        and_then (map_err Error (load_pair env (a_a args) (a_b args)
            ''subsystem_triad needs --a and --b run files''))
          (\<lambda>(a, b). triad (ge_to_text env) a b (a_cfg args))
      else Inl (Error (''unknown mode '' @ [CHR 0x27] @ a_mode args @ [CHR 0x27])))"

text \<open>Emitting the outcome: on standard output (the text printed) or to a file.\<close>

definition emit :: "gate_env \<Rightarrow> string \<Rightarrow> json \<Rightarrow> string + string" where
  "emit env out result = and_then (ge_pretty env result) (\<lambda>text.
     if out = ''-'' then Inr (text @ [newline])
     else map_ok (\<lambda>_. '''') (map_err (\<lambda>e. ''writing '' @ out @ '': '' @ e) (ge_write env out text)))"

text \<open>\<open>run\<close>: the result value and what was printed.\<close>

definition run_cli :: "gate_env \<Rightarrow> string list \<Rightarrow> fault + (json \<times> string)" where
  "run_cli env argv = and_then (map_err Error (parse_args argv)) (\<lambda>args.
     and_then (dispatch env args) (\<lambda>out. let result = outcome_json out in
       map_ok (\<lambda>printed. (result, printed)) (map_err Error (emit env (a_out args) result))))"

record process_out =
  p_code :: int
  p_stdout :: string
  p_stderr :: string

definition exit_code :: "json \<Rightarrow> int" where
  "exit_code result = (let verdict = or_else (Option.bind (Option.bind (jget result ''outcome'')
       (\<lambda>v. jget v ''verdict'')) as_str) ''pass'' in
     if verdict = ''pass'' then 0 else if verdict = ''fail'' then 2
     else if verdict = ''contaminated'' then 3 else 0)"

text \<open>\<open>main\<close>; a panic ends the process with the runtime's code 101.\<close>

definition gate_main :: "gate_env \<Rightarrow> string list \<Rightarrow> process_out" where
  "gate_main env argv = (case run_cli env argv of
     Inr (result, printed) \<Rightarrow> \<lparr>p_code = exit_code result, p_stdout = printed, p_stderr = ''''\<rparr>
   | Inl (Error e) \<Rightarrow> \<lparr>p_code = 1, p_stdout = '''', p_stderr = ''gate error: '' @ e @ [newline]\<rparr>
   | Inl (Panic e) \<Rightarrow> \<lparr>p_code = 101, p_stdout = '''', p_stderr = e @ [newline]\<rparr>)"

section \<open>Lemmas\<close>

lemma outcome_json_verdict:
  "Option.bind (Option.bind (jget (outcome_json out) ''outcome'') (\<lambda>v. jget v ''verdict'')) as_str
   = Some (o_verdict out)"
  by (simp add: outcome_json_def jget_jobj)

lemma outcome_json_verdict' [simp]:
  "Option.bind (jget (outcome_json out) ''outcome'') (\<lambda>y. Option.bind (jget y ''verdict'') as_str)
   = Some (o_verdict out)"
  by (simp add: outcome_json_def jget_jobj)

lemma exit_code_outcome: "exit_code (outcome_json out) =
    (if o_verdict out = ''fail'' then 2 else if o_verdict out = ''contaminated'' then 3 else 0)"
  unfolding exit_code_def outcome_json_verdict Let_def by simp

lemma ab_verdicts: "ab tt a b cfg = Inr out \<Longrightarrow> o_verdict out \<in> {''pass'', ''fail'', ''contaminated''}"
  by (erule ab_ok) auto

lemma drift_verdicts: "drift tt a b cfg = Inr out \<Longrightarrow> o_verdict out \<in> {''pass'', ''fail'', ''contaminated''}"
  by (auto simp: drift_def result_simps dest!: drift_finish_ok(2) split: if_splits)

lemma triad_verdicts: "triad tt a b cfg = Inr out \<Longrightarrow> o_verdict out \<in> {''pass'', ''fail'', ''contaminated''}"
proof -
  assume "triad tt a b cfg = Inr out"
  then obtain base where "ab tt a b cfg = Inr base"
    and out: "out = triad_fold (foldl overhead_probe (bm_empty, []) (probes_of b)) base"
    by (auto simp: triad_ok)
  then show ?thesis using ab_verdicts [of tt a b cfg base] unfolding out triad_fold_verdict by auto
qed

lemma dispatch_verdicts: "dispatch env args = Inr out \<Longrightarrow> o_verdict out \<in> {''pass'', ''fail'', ''contaminated''}"
  by (auto simp: dispatch_def result_simps split: if_splits
      dest!: ab_verdicts drift_verdicts triad_verdicts)

lemma positional:
  assumes "\<not> starts_with ''--'' x"
  shows "valued x = None" and "feed_of x = None" and "switch x = None"
proof -
  have ne: "(x = l) = False" if "starts_with ''--'' l" for l using that assms by blast
  show "valued x = None" by (simp add: valued_def ne)
  show "feed_of x = None" by (simp add: feed_of_def ne)
  show "switch x = None" by (simp add: switch_def ne)
qed

lemma parse_positionals:
  "list_all (\<lambda>x. \<not> starts_with ''--'' x) xs \<Longrightarrow>
   parse_args_from a (Some fd) (xs @ rest) = parse_args_from (foldl (\<lambda>a x. push_positional fd x a) a xs) (Some fd) rest"
  by (induction xs arbitrary: a) (simp_all add: positional)

section \<open>Properties\<close>

text \<open>The exit code carries the verdict: when the command line, the files and the
  comparison give an outcome that can be emitted, the process exits with 0, 2 or 3 exactly
  for the verdicts "pass", "fail" and "contaminated" and there is no other verdict; every
  error exits with 1 and a message on standard error.\<close>

theorem exit_code_is_verdict:
  "case run_cli env argv of
     Inr (result, printed) \<Rightarrow>
       (\<exists>args out. parse_args argv = Inr args \<and> dispatch env args = Inr out \<and> result = outcome_json out
          \<and> (p_code (gate_main env argv), o_verdict out) \<in> {(0, ''pass''), (2, ''fail''), (3, ''contaminated'')})
   | Inl (Error e) \<Rightarrow> p_code (gate_main env argv) = 1
       \<and> p_stderr (gate_main env argv) = ''gate error: '' @ e @ [newline]
   | Inl (Panic e) \<Rightarrow> p_code (gate_main env argv) = 101"
proof (cases "run_cli env argv")
  case (Inl e)
  then show ?thesis by (cases e) (simp_all add: gate_main_def)
next
  case (Inr rp)
  obtain result printed where rp: "rp = (result, printed)" by (cases rp)
  obtain args out where *: "parse_args argv = Inr args" "dispatch env args = Inr out"
    "result = outcome_json out"
    using Inr rp by (auto simp: run_cli_def result_simps Let_def)
  have "p_code (gate_main env argv) = exit_code result" using Inr rp by (simp add: gate_main_def)
  then have "(p_code (gate_main env argv), o_verdict out) \<in> {(0, ''pass''), (2, ''fail''), (3, ''contaminated'')}"
    using dispatch_verdicts [OF *(2)] unfolding *(3) exit_code_outcome by auto
  then show ?thesis using Inr rp * by auto
qed

text \<open>The drift mode needs its own two groups: a command line that selects it without
  \<open>--baseline\<close> and \<open>--candidate\<close> files never yields a verdict, whatever files are named
  after \<open>--a\<close> and \<open>--b\<close>; it ends with exit code 1.\<close>

theorem drift_needs_baseline:
  assumes "parse_args argv = Inr args" and "a_mode args = ''longitudinal_drift''"
    and "a_baseline args = []" and "a_candidate args = []"
  shows "p_code (gate_main env argv) = 1"
  using assms
  by (simp add: gate_main_def run_cli_def dispatch_def load_pair_def load_def)

definition mute_env :: gate_env where
  "mute_env = \<lparr>ge_read = (\<lambda>p. Inl ''no such file''), ge_from_str = (\<lambda>s. Inl ''bad''),
     ge_pretty = (\<lambda>v. Inl ''bad''), ge_to_text = (\<lambda>v. ''''), ge_write = (\<lambda>p t. Inr ())\<rparr>"

theorem drift_needs_baseline_witness:
  "p_code (gate_main mute_env [''--mode'', ''longitudinal_drift'', ''--a'', ''a.json'', ''--b'', ''b.json'']) = 1"
proof -
  let ?argv = "[''--mode'', ''longitudinal_drift'', ''--a'', ''a.json'', ''--b'', ''b.json'']"
  let ?args = "default_args\<lparr>a_mode := ''longitudinal_drift'', a_a := [''a.json''], a_b := [''b.json'']\<rparr>"
  have "parse_args ?argv = Inr ?args"
    by (simp add: parse_args_def valued_def feed_of_def switch_def default_args_def)
  then show ?thesis by (rule drift_needs_baseline) (simp_all add: default_args_def)
qed

end
