(* ===== verification/GateHandoff.thy ===== *)
theory GateHandoff
  imports GateCli Capture
begin

text \<open>
  \<open>crates/orchestrate/src/gate.rs\<close>: handing the two groups to the gate, a subprocess. The
  command line it builds is \<open>gate_argv\<close>; launching a process, the printing of a binary64
  (\<open>f64::to_string\<close>) and the JSON parser are parameters. The lemmas compose it with the
  gate's own command line of \<open>GateCli\<close>.
\<close>

section \<open>Finding the binary\<close>

text \<open>The environment variable, a sibling of the executable that exists, or the bare name.\<close>

definition resolve_gate_bin :: "string option \<Rightarrow> string option \<Rightarrow> (string \<Rightarrow> bool) \<Rightarrow> string" where
  "resolve_gate_bin env_var exe_dir exists = (case env_var of
     Some p \<Rightarrow> p
   | None \<Rightarrow> (case exe_dir of
       Some d \<Rightarrow> let sibling = path_join d ''assayist-gate'' in
         if exists sibling then sibling else ''assayist-gate''
     | None \<Rightarrow> ''assayist-gate''))"

section \<open>The call\<close>

record gate_thresholds =
  th_p_threshold :: f64
  th_noise_threshold :: f64
  th_resamples :: u64
  th_ignore :: "string list"
  th_allow_ungraded :: bool

record gate_output =
  go_outcome :: json
  go_verdict :: string
  go_exit_code :: int

definition gate_argv ::
  "(f64 \<Rightarrow> string) \<Rightarrow> string \<Rightarrow> string list \<Rightarrow> string list \<Rightarrow> gate_thresholds \<Rightarrow> string list" where
  "gate_argv show_f64 mode a b th =
     [''--mode'', mode] @ [''--a''] @ a @ [''--b''] @ b
     @ [''--p-threshold'', show_f64 (th_p_threshold th)]
     @ [''--noise-threshold'', show_f64 (th_noise_threshold th)]
     @ [''--resamples'', show_u64 (th_resamples th)]
     @ concat (map (\<lambda>ig. [''--ignore'', ig]) (th_ignore th))
     @ (if th_allow_ungraded th then [''--allow-ungraded''] else [])"

text \<open>What a launched process leaves: its code (none when a signal ended it) and its streams.\<close>

type_synonym launcher = "string \<Rightarrow> string list \<Rightarrow> string + (int option \<times> string \<times> string)"

definition run_gate ::
  "(f64 \<Rightarrow> string) \<Rightarrow> launcher \<Rightarrow> (string \<Rightarrow> string + json) \<Rightarrow> string \<Rightarrow> string \<Rightarrow>
   string list \<Rightarrow> string list \<Rightarrow> gate_thresholds \<Rightarrow> string + gate_output" where
  "run_gate show_f64 spawn from_str bin mode a b th = and_then
     (map_err (\<lambda>e. ''launching gate `'' @ bin @ ''`: '' @ e) (spawn bin (gate_argv show_f64 mode a b th)))
     (\<lambda>(c, stdout, stderr). let code = or_else c (- 1) in
        if code = 1 then Inl (''gate error: '' @ trim stderr)
        else let outcome = (case from_str (trim stdout) of Inr v \<Rightarrow> v | Inl _ \<Rightarrow> JNull);
          verdict = (case Option.bind (Option.bind (jget outcome ''outcome'') (\<lambda>v. jget v ''verdict'')) as_str of
              Some v \<Rightarrow> v
            | None \<Rightarrow> if code = 0 then ''pass'' else if code = 2 then ''fail''
                else if code = 3 then ''contaminated'' else ''unknown'')
          in Inr \<lparr>go_outcome = outcome, go_verdict = verdict, go_exit_code = code\<rparr>)"

definition write_outcome ::
  "(json \<Rightarrow> string + string) \<Rightarrow> (string \<Rightarrow> string \<Rightarrow> ('w, unit) io) \<Rightarrow> string \<Rightarrow> json \<Rightarrow> ('w, string) io" where
  "write_outcome to_pretty write_file d outcome = (let path = path_join d ''outcome.json'' in
     io_then (io_of (to_pretty outcome)) (\<lambda>text.
       io_map (\<lambda>_. path) (io_map_err (\<lambda>e. ''writing '' @ path @ '': '' @ e) (write_file path text))))"

section \<open>The gate as the launched process\<close>

definition launch_gate :: "gate_env \<Rightarrow> launcher" where
  "launch_gate env bin argv = (let out = gate_main env argv in
     Inr (Some (p_code out), p_stdout out, p_stderr out))"

definition plain :: "string list \<Rightarrow> bool" where
  "plain xs = list_all (\<lambda>x. \<not> starts_with ''--'' x) xs"

definition handed_args :: "string \<Rightarrow> string list \<Rightarrow> string list \<Rightarrow> gate_thresholds \<Rightarrow> gate_args" where
  "handed_args mode a b th = default_args\<lparr>a_mode := mode, a_a := a, a_b := b,
     a_cfg := default_config\<lparr>p_threshold := th_p_threshold th, noise_threshold := th_noise_threshold th,
       resamples := unat (th_resamples th), ignore := th_ignore th,
       allow_ungraded := th_allow_ungraded th\<rparr>\<rparr>"

section \<open>Lemmas\<close>

lemma parse_valued:
  "valued arg = Some upd \<Longrightarrow> parse_args_from a cur (arg # v # rest) = and_then (upd v a) (\<lambda>a'. parse_args_from a' None rest)"
  by simp

lemma valued_flags:
  "valued ''--mode'' = Some (\<lambda>v a. Inr (a\<lparr>a_mode := v\<rparr>))"
  "valued ''--p-threshold'' =
     Some (\<lambda>v a. put_parsed ''--p-threshold'' (parse_f64 v) (\<lambda>x. set_cfg (\<lambda>c. c\<lparr>p_threshold := x\<rparr>) a))"
  "valued ''--noise-threshold'' =
     Some (\<lambda>v a. put_parsed ''--noise-threshold'' (parse_f64 v) (\<lambda>x. set_cfg (\<lambda>c. c\<lparr>noise_threshold := x\<rparr>) a))"
  "valued ''--resamples'' =
     Some (\<lambda>v a. put_parsed ''--resamples'' (parse_u64 v) (\<lambda>x. set_cfg (\<lambda>c. c\<lparr>resamples := unat x\<rparr>) a))"
  "valued ''--ignore'' = Some (\<lambda>v a. Inr (set_cfg (\<lambda>c. c\<lparr>ignore := ignore c @ [v]\<rparr>) a))"
  "valued ''--a'' = None" "feed_of ''--a'' = Some FeedA"
  "valued ''--b'' = None" "feed_of ''--b'' = Some FeedB"
  "valued ''--allow-ungraded'' = None" "feed_of ''--allow-ungraded'' = None"
  "switch ''--allow-ungraded'' = Some (set_cfg (\<lambda>c. c\<lparr>allow_ungraded := True\<rparr>))"
  by (simp_all add: valued_def feed_of_def switch_def)

lemma parse_ignores:
  "parse_args_from a None (concat (map (\<lambda>ig. [''--ignore'', ig]) igs) @ rest) =
   parse_args_from (set_cfg (\<lambda>c. c\<lparr>ignore := ignore c @ igs\<rparr>) a) None rest"
proof (induction igs arbitrary: a)
  case Nil
  then show ?case by (simp add: set_cfg_def)
next
  case (Cons ig igs)
  then show ?case by (simp add: valued_flags) (simp add: set_cfg_def)
qed

lemma push_all:
  "foldl (\<lambda>a x. a\<lparr>a_a := a_a a @ [x]\<rparr>) a xs = a\<lparr>a_a := a_a a @ xs\<rparr>"
  "foldl (\<lambda>a x. a\<lparr>a_b := a_b a @ [x]\<rparr>) a xs = a\<lparr>a_b := a_b a @ xs\<rparr>"
  by (induction xs arbitrary: a) simp_all

lemma parse_handed:
  assumes "plain a" and "plain b" and "parse_f64 (show_f64 (th_p_threshold th)) = Some (th_p_threshold th)"
    and "parse_f64 (show_f64 (th_noise_threshold th)) = Some (th_noise_threshold th)"
  shows "parse_args (gate_argv show_f64 mode a b th) = Inr (handed_args mode a b th)"
proof -
  let ?rest = "concat (map (\<lambda>ig. [''--ignore'', ig]) (th_ignore th))
     @ (if th_allow_ungraded th then [''--allow-ungraded''] else [])"
  have "parse_args (gate_argv show_f64 mode a b th) = parse_args_from
      (default_args\<lparr>a_mode := mode, a_a := a, a_b := b,
         a_cfg := default_config\<lparr>p_threshold := th_p_threshold th, noise_threshold := th_noise_threshold th,
           resamples := unat (th_resamples th)\<rparr>\<rparr>) None ?rest"
    using assms parse_positionals [of a] parse_positionals [of b]
    by (simp add: parse_args_def gate_argv_def plain_def valued_flags put_parsed_def push_all
        u64_codec.decode_enc set_cfg_def default_args_def)
  also have "\<dots> = Inr (handed_args mode a b th)"
    by (cases "th_allow_ungraded th")
      (simp_all add: parse_ignores valued_flags handed_args_def set_cfg_def default_config_def default_args_def
        parse_ignores [of _ _ "[]", simplified])
  finally show ?thesis .
qed

section \<open>Properties\<close>

text \<open>C25: The gate understands the command line the orchestrator builds: when no run file's
  name starts with "--" and the printed thresholds read back, the gate's parser returns
  exactly the mode, the two groups in order, the thresholds, the resample count, the
  ignore patterns in order and the grade override, and defaults for all the rest.\<close>

theorem argv_round_trip:
  assumes "plain a" and "plain b" and "parse_f64 (show_f64 (th_p_threshold th)) = Some (th_p_threshold th)"
    and "parse_f64 (show_f64 (th_noise_threshold th)) = Some (th_noise_threshold th)"
  shows "parse_args (gate_argv show_f64 mode a b th) = Inr (default_args\<lparr>a_mode := mode, a_a := a, a_b := b,
     a_cfg := default_config\<lparr>p_threshold := th_p_threshold th, noise_threshold := th_noise_threshold th,
       resamples := unat (th_resamples th), ignore := th_ignore th,
       allow_ungraded := th_allow_ungraded th\<rparr>\<rparr>)"
  using parse_handed [OF assms] by (simp add: handed_args_def)

definition sample_thresholds :: gate_thresholds where
  "sample_thresholds = \<lparr>th_p_threshold = Fin (1 / 2), th_noise_threshold = Fin (1 / 2),
     th_resamples = 10000, th_ignore = [''warmup''], th_allow_ungraded = True\<rparr>"

lemma sample_threshold_text: "parse_f64 ''0.5'' = Some (Fin (1 / 2))"
  by code_simp

theorem argv_round_trip_witness:
  "map_ok a_a (parse_args (gate_argv (\<lambda>_. ''0.5'') ''ab_permutation'' [''a0.json'', ''a1.json''] [''b0.json''] sample_thresholds))
   = Inr [''a0.json'', ''a1.json'']"
proof -
  have "plain [''a0.json'', ''a1.json'']" "plain [''b0.json'']" by (simp_all add: plain_def)
  then show ?thesis
    using argv_round_trip [of "[''a0.json'', ''a1.json'']" "[''b0.json'']" "\<lambda>_. ''0.5''" sample_thresholds]
    by (simp add: sample_thresholds_def sample_threshold_text)
qed


text \<open>A definition whose gate mode is \<open>longitudinal_drift\<close> passes validation, but its
  hand-off never reaches a verdict: the orchestrator names its groups with \<open>--a\<close> and
  \<open>--b\<close> only, and the gate answers with the error that it needs \<open>--baseline\<close> and
  \<open>--candidate\<close>.\<close>

theorem drift_handoff_fails:
  assumes "plain a" and "plain b" and "parse_f64 (show_f64 (th_p_threshold th)) = Some (th_p_threshold th)"
    and "parse_f64 (show_f64 (th_noise_threshold th)) = Some (th_noise_threshold th)"
  shows "run_gate show_f64 (launch_gate env) from_str bin ''longitudinal_drift'' a b th
    = Inl ''gate error: gate error: longitudinal_drift needs --baseline and --candidate''"
proof -
  let ?argv = "gate_argv show_f64 ''longitudinal_drift'' a b th"
  let ?e = "''longitudinal_drift needs --baseline and --candidate''"
  have "run_cli env ?argv = Inl (Error ?e)"
    by (simp add: run_cli_def parse_handed [OF assms] dispatch_def handed_args_def default_args_def
        load_pair_def load_def)
  then have "gate_main env ?argv = \<lparr>p_code = 1, p_stdout = '''', p_stderr = ''gate error: '' @ ?e @ [newline]\<rparr>"
    by (simp add: gate_main_def)
  moreover have "trim (''gate error: '' @ ?e @ [newline]) = ''gate error: '' @ ?e" by code_simp
  ultimately show ?thesis by (simp add: run_gate_def launch_gate_def Let_def)
qed

definition sample_env :: gate_env where
  "sample_env = \<lparr>ge_read = (\<lambda>p. Inr p), ge_from_str = (\<lambda>s. Inl ''bad''), 
     ge_pretty = (\<lambda>v. if v = JNull then Inr ''null'' else Inl ''unsupported''),
     ge_to_text = (\<lambda>v. ''''), ge_write = (\<lambda>p t. Inr ())\<rparr>"


theorem drift_handoff_fails_witness:
  "run_gate (\<lambda>_. ''0.5'') (launch_gate sample_env) (\<lambda>_. Inr JNull) ''gate'' ''longitudinal_drift''
      [''a.json''] [''b.json''] sample_thresholds
    = Inl ''gate error: gate error: longitudinal_drift needs --baseline and --candidate''"
  by (rule drift_handoff_fails) (simp_all add: plain_def sample_thresholds_def sample_threshold_text)

end
