(* ===== verification/RunBuild.thy ===== *)
theory RunBuild
  imports Contract BenchDef Bytes
begin

text \<open>
  \<open>crates/orchestrate/src/run.rs\<close>: the pieces of a run the orchestrator owns, its
  identity, its gate context and its id. The clock, the process id, the counter of the
  process and SHA-256 are the parameters \<open>id_env\<close>.
\<close>

section \<open>Identity and gate context\<close>

record adapter_versions =
  av_target :: string
  av_workload :: string

definition default_versions :: adapter_versions where
  "default_versions = \<lparr>av_target = ''0.0.0'', av_workload = ''0.0.0''\<rparr>"

definition build_identity ::
  "bench_def \<Rightarrow> json \<Rightarrow> string \<Rightarrow> string \<Rightarrow> string \<Rightarrow> adapter_versions \<Rightarrow> identity" where
  "build_identity d params hash def_sha sut_sha versions =
     \<lparr>i_target_adapter = ad_name (bd_target d), i_target_adapter_version = av_target versions,
      i_workload_driver = ad_name (bd_workload d), i_workload_driver_version = av_workload versions,
      i_sut_git_sha = sut_sha, i_params = params, i_params_hash = hash,
      i_benchmark_def_sha = def_sha, i_source = ''captured''\<rparr>"

definition build_gate_context :: "bench_def \<Rightarrow> string \<Rightarrow> json" where
  "build_gate_context d baseline_ref = jobj [
     (''mode'', JString (gs_mode (bd_gate d))), (''baseline_ref'', JString baseline_ref),
     (''p_threshold'', json_f64 (or_else (gs_p_threshold (bd_gate d)) (f_lit (1 / 100)))),
     (''noise_threshold'', json_f64 (or_else (gs_noise_threshold (bd_gate d)) (f_lit (5 / 100)))),
     (''resamples'', JNumber (PosInt (or_else (gs_resamples (bd_gate d)) 10000))),
     (''ignore'', JArray (map JString (gs_ignore (bd_gate d)))),
     (''tenancy'', JString (bd_tenancy d))]"

definition assemble_run ::
  "string \<Rightarrow> identity \<Rightarrow> fingerprint \<Rightarrow> json \<Rightarrow> fragment list \<Rightarrow> json list \<Rightarrow> assay_run" where
  "assemble_run run_id ident fp gate fragments spans = assemble run_id ident fp gate fragments spans"

section \<open>The run id\<close>

definition id_entropy :: "u8 list \<Rightarrow> u128" where
  "id_entropy digest = foldl (\<lambda>acc b. or (push_bit 8 acc) (ucast b)) 0 (take 10 digest)"

definition id_millis :: "u128 \<Rightarrow> u128" where
  "id_millis nanos = and (nanos div 1000000) (push_bit 48 1 - 1)"

definition run_id_of :: "(string \<Rightarrow> u8 list) \<Rightarrow> u128 \<Rightarrow> u64 \<Rightarrow> u64 \<Rightarrow> string" where
  "run_id_of sha nanos pid counter = (let
     digest = sha (bytes_text (u128_bytes nanos @ u64_bytes pid @ u64_bytes counter));
     ulid = or (push_bit 80 (id_millis nanos)) (id_entropy digest)
     in show_hex 32 (uint ulid))"

record 'w id_env =
  ie_sha :: "string \<Rightarrow> u8 list"
  ie_pid :: u64
  ie_since_epoch :: "'w \<Rightarrow> u128 option \<times> 'w"
  ie_fetch_add :: "'w \<Rightarrow> u64 \<times> 'w"

definition new_run_id :: "'w id_env \<Rightarrow> 'w \<Rightarrow> string \<times> 'w" where
  "new_run_id env w = (let (t, w1) = ie_since_epoch env w; (n, w2) = ie_fetch_add env w1 in
     (run_id_of (ie_sha env) (or_else t 0) (ie_pid env) n, w2))"

section \<open>Lemmas: hexadecimal order\<close>

lemma of_char_hex: "0 \<le> d \<Longrightarrow> d < 16 \<Longrightarrow> (of_char (hex_digit d) :: int) = (if d < 10 then 48 + d else 87 + d)"
  by (simp add: hex_digit_def of_char_of)

lemma of_char_less: "c < d \<longleftrightarrow> (of_char c :: int) < of_char d"
  by (metis less_char_def of_nat_less_iff of_nat_of_char)

lemma hex_digit_less:
  assumes "0 \<le> a" "a < 16" "0 \<le> b" "b < 16"
  shows "hex_digit a < hex_digit b \<longleftrightarrow> a < b"
  using assms by (simp add: of_char_less of_char_hex)

lemma length_show_hex [simp]: "length (show_hex k n) = k"
  by (induction k arbitrary: n) auto

definition hex_chars :: string where
  "hex_chars = ''0123456789abcdef''"

lemma show_hex_chars: "c \<in> set (show_hex k n) \<Longrightarrow> c \<in> set hex_chars"
proof (induction k arbitrary: n)
  case (Suc k)
  have "\<forall>d \<in> set [0..15]. hex_digit d \<in> set hex_chars" by code_simp
  moreover have "n mod 16 \<in> set [0..15]" by simp
  ultimately have "hex_digit (n mod 16) \<in> set hex_chars" by (rule bspec)
  then show ?case using Suc by auto
qed simp

lemma snoc_less:
  "length xs = length ys \<Longrightarrow> xs @ [a] < ys @ [b] \<longleftrightarrow> xs < ys \<or> xs = ys \<and> a < (b :: 'a :: linorder)"
proof (induction xs arbitrary: ys)
  case (Cons x xs)
  then show ?case by (cases ys) auto
qed simp

lemma show_hex_less:
  assumes "0 \<le> m" "n < 16 ^ k" "m < n"
  shows "show_hex k m < show_hex k n"
  using assms
proof (induction k arbitrary: m n)
  case (Suc k)
  have d: "m div 16 \<le> n div 16" using Suc.prems by (simp add: zdiv_mono1)
  show ?case
  proof (cases "m div 16 = n div 16")
    case True
    then have "m mod 16 < n mod 16" using Suc.prems(3) by (metis mod_div_mult_eq add_less_cancel_right)
    then show ?thesis using True by (simp add: snoc_less hex_digit_less)
  next
    case False
    then have "m div 16 < n div 16" using d by simp
    moreover have "n div 16 < 16 ^ k" using Suc.prems by (simp add: div_less_iff_less_mult)
    ultimately show ?thesis using Suc.IH [of "m div 16" "n div 16"] Suc.prems by (simp add: snoc_less)
  qed
qed simp

section \<open>Lemmas: the layout of the id\<close>

lemma entropy_step:
  assumes "\<forall>i \<ge> n. \<not> bit acc i"
  shows "\<forall>i \<ge> n + 8. \<not> bit (or (push_bit 8 acc) (ucast (b :: u8)) :: u128) i"
proof (intro allI impI)
  fix i assume i: "n + 8 \<le> i"
  have "\<not> bit b i" using i bit_imp_le_length [of b i] by auto
  moreover have "\<not> bit acc (i - 8)" using assms i by simp
  ultimately show "\<not> bit (or (push_bit 8 acc) (ucast b) :: u128) i"
    by (simp add: bit_or_iff bit_push_bit_iff bit_ucast_iff)
qed

lemma entropy_fold:
  "\<forall>i \<ge> n. \<not> bit acc i \<Longrightarrow>
     \<forall>i \<ge> n + 8 * length bs. \<not> bit (foldl (\<lambda>acc b. or (push_bit 8 acc) (ucast (b :: u8))) (acc :: u128) bs) i"
proof (induction bs arbitrary: acc n)
  case (Cons b bs)
  from Cons.IH [OF entropy_step [OF Cons.prems, of b]] show ?case by (simp add: add.assoc)
qed simp

lemma entropy_bits: "80 \<le> i \<Longrightarrow> \<not> bit (id_entropy digest) i"
  using entropy_fold [of 0 0 "take 10 digest"] by (simp add: id_entropy_def)

lemma id_millis_take: "id_millis nanos = take_bit 48 (nanos div 1000000)"
proof -
  have "(push_bit 48 1 - 1 :: u128) = mask 48" by (simp add: mask_eq_exp_minus_1 push_bit_eq_mult)
  then show ?thesis by (simp add: id_millis_def take_bit_eq_mask)
qed

lemma millis_uint: "uint (id_millis nanos) = uint nanos div 1000000 mod 2 ^ 48"
  by (simp add: id_millis_take take_bit_eq_mod uint_mod_distrib uint_div_distrib)

lemma id_millis_of_ulid: "drop_bit 80 (or (push_bit 80 (id_millis nanos)) (id_entropy d)) = id_millis nanos"
proof (rule bit_eqI)
  fix i assume "possible_bit TYPE(128 word) i"
  then have i: "i < 128" by simp
  have "i < 48" if "bit (id_millis nanos) i" using that by (simp add: id_millis_take bit_take_bit_iff)
  then show "bit (drop_bit 80 (or (push_bit 80 (id_millis nanos)) (id_entropy d))) i = bit (id_millis nanos) i"
    using entropy_bits by (auto simp: bit_drop_bit_eq bit_or_iff bit_push_bit_iff)
qed

section \<open>Properties\<close>

text \<open>C36: A run id is 32 lower-case hexadecimal digits (16 bytes, a trace id), and ids sort by the
  millisecond they were made in: of two runs in different milliseconds (of the 48 bits,
  until the year 10889) the earlier has the smaller id, whatever the digests of the
  entropy, the process ids and the counters.\<close>

theorem run_id_sorts:
  assumes "uint ta div 1000000 < uint tb div 1000000" and "uint tb div 1000000 < 2 ^ 48"
  shows "length (run_id_of sha ta pa ca) = 32 \<and> set (run_id_of sha ta pa ca) \<subseteq> set hex_chars
    \<and> run_id_of sha ta pa ca < run_id_of sha tb pb cb"
proof -
  define ulid where "ulid t p c = or (push_bit 80 (id_millis t))
    (id_entropy (sha (bytes_text (u128_bytes t @ u64_bytes p @ u64_bytes c))))" for t p c
  have run: "run_id_of sha t p c = show_hex 32 (uint (ulid t p c))" for t p c
    by (simp add: run_id_of_def ulid_def Let_def)
  have ms: "uint (ulid t p c) div 2 ^ 80 = uint t div 1000000 mod 2 ^ 48" for t p c
  proof -
    have "uint (ulid t p c) div 2 ^ 80 = uint (drop_bit 80 (ulid t p c))"
      by (simp add: drop_bit_eq_div uint_div_distrib)
    then show ?thesis by (simp only: ulid_def id_millis_of_ulid millis_uint)
  qed
  have mono: "x div 2 ^ 80 < y div 2 ^ 80 \<Longrightarrow> x < y" for x y :: int
    by (meson not_le zdiv_mono1 zero_less_numeral zero_less_power)
  have "uint (ulid ta pa ca) div 2 ^ 80 < uint (ulid tb pb cb) div 2 ^ 80"
    unfolding ms using assms div_int_pos_iff [of "uint ta" 1000000] by (simp add: mod_pos_pos_trivial)
  then have "uint (ulid ta pa ca) < uint (ulid tb pb cb)" by (rule mono)
  moreover have "uint (ulid tb pb cb) < 16 ^ 32" using uint_lt2p [of "ulid tb pb cb"] by simp
  ultimately have "show_hex 32 (uint (ulid ta pa ca)) < show_hex 32 (uint (ulid tb pb cb))"
    by (intro show_hex_less) simp_all
  then show ?thesis using show_hex_chars by (auto simp: run)
qed

theorem run_id_sorts_witness:
  "run_id_of (\<lambda>s. replicate 32 255) 1700000000000000000 7 0 < run_id_of (\<lambda>s. replicate 32 0) 1700000000001000000 7 1
   \<or> run_id_of (\<lambda>s. replicate 32 255) 1700000000000000000 7 0
       < run_id_of (\<lambda>s. replicate 32 255) 1700000000001000000 9 1"
proof -
  have "uint (1700000000000000000 :: u128) div 1000000 < uint (1700000000001000000 :: u128) div 1000000"
    "uint (1700000000001000000 :: u128) div 1000000 < 2 ^ 48"
    by code_simp+
  from run_id_sorts [OF this, of "\<lambda>s. replicate 32 255" 7 0 9 1] show ?thesis by blast
qed

end
