(* ===== verification/HostPrep.thy ===== *)
theory HostPrep
  imports Contract Effects
begin

text \<open>
  \<open>crates/orchestrate/src/hostprep.rs\<close>: the host fingerprint and the tuning rule, that what
  host preparation asked for is what the host reports back. A host is the trait \<open>Host\<close> as a
  record of effects; \<open>linux_host\<close> is the real one over the files of \<open>/proc\<close> and \<open>/sys\<close>,
  whose reads and writes are the operations \<open>sys_ops\<close>.
\<close>

section \<open>Tuning\<close>

record tuning_knobs =
  tk_cpu_governor :: "string option"
  tk_smt :: "bool option"
  tk_thp :: "string option"

definition opt_json :: "string \<Rightarrow> ('a \<Rightarrow> json) \<Rightarrow> 'a option \<Rightarrow> (string \<times> json) list" where
  "opt_json k f x = (case x of None \<Rightarrow> [] | Some v \<Rightarrow> [(k, f v)])"

definition knobs_value :: "tuning_knobs \<Rightarrow> json" where
  "knobs_value t = jobj (opt_json ''cpu_governor'' JString (tk_cpu_governor t)
     @ opt_json ''smt'' JBool (tk_smt t) @ opt_json ''thp'' JString (tk_thp t))"

record requested_fields =
  rf_governor :: bool
  rf_smt :: bool
  rf_thp :: bool

definition requested_of :: "tuning_knobs \<Rightarrow> requested_fields" where
  "requested_of t = \<lparr>rf_governor = (tk_cpu_governor t \<noteq> None), rf_smt = (tk_smt t \<noteq> None),
     rf_thp = (tk_thp t \<noteq> None)\<rparr>"

record host_prep =
  hp_knobs :: tuning_knobs
  hp_pin_threads :: bool

text \<open>A boolean as YAML may hand it over.\<close>

fun prep_bool :: "json \<Rightarrow> bool option" where
  "prep_bool (JBool b) = Some b"
| "prep_bool (JString s) = (let t = to_lower s in
     if t \<in> {''on'', ''yes'', ''true'', ''1''} then Some True
     else if t \<in> {''off'', ''no'', ''false'', ''0''} then Some False else None)"
| "prep_bool _ = None"

definition host_prep_of :: "json \<Rightarrow> host_prep" where
  "host_prep_of v = \<lparr>hp_knobs = \<lparr>tk_cpu_governor = Option.bind (jget v ''cpu_governor'') as_str,
       tk_smt = Option.bind (jget v ''smt'') prep_bool, tk_thp = Option.bind (jget v ''thp'') as_str\<rparr>,
     hp_pin_threads = or_else (Option.bind (jget v ''pin_threads'') prep_bool) False\<rparr>"

section \<open>Facts and the fingerprint\<close>

record facts =
  fa_hostname :: string
  fa_kernel_version :: string
  fa_os_release :: string
  fa_cpu_model :: string
  fa_cpu_count_logical :: u32
  fa_cpu_count_physical :: u32
  fa_smt_enabled :: bool
  fa_cpu_governor :: string
  fa_thp_setting :: string
  fa_total_memory_bytes :: u64
  fa_kvm_present :: bool
  fa_numa_topology :: "json option"
  fa_mitigations :: "json option"
  fa_microcode_version :: "string option"
  fa_nested_virt :: "bool option"

record 'w host =
  ho_facts :: "('w, facts) io"
  ho_read_tuning :: "tuning_knobs \<Rightarrow> ('w, tuning_knobs) io"
  ho_apply_tuning :: "tuning_knobs \<Rightarrow> ('w, unit) io"

definition build_fingerprint ::
  "facts \<Rightarrow> tuning_knobs \<Rightarrow> tuning_knobs \<Rightarrow> string \<Rightarrow> json option \<Rightarrow> fingerprint" where
  "build_fingerprint f requested readback tenancy pinning = \<lparr>
     fp_hostname = fa_hostname f, fp_kernel_version = fa_kernel_version f,
     fp_os_release = fa_os_release f, fp_cpu_model = fa_cpu_model f,
     fp_cpu_count_logical = fa_cpu_count_logical f, fp_cpu_count_physical = fa_cpu_count_physical f,
     fp_smt_enabled = fa_smt_enabled f, fp_cpu_governor = fa_cpu_governor f,
     fp_thp_setting = fa_thp_setting f, fp_total_memory_bytes = fa_total_memory_bytes f,
     fp_kvm_present = fa_kvm_present f, fp_tenancy = tenancy,
     fp_tuning_requested = knobs_value requested, fp_tuning_readback = knobs_value readback,
     fp_numa_topology = fa_numa_topology f, fp_pinning_layout = pinning,
     fp_mitigations = fa_mitigations f, fp_microcode_version = fa_microcode_version f,
     fp_nested_virt = fa_nested_virt f\<rparr>"

definition observe :: "'w host \<Rightarrow> host_prep \<Rightarrow> string \<Rightarrow> ('w, fingerprint) io" where
  "observe h prep tenancy = io_then (ho_facts h) (\<lambda>f. io_then (ho_read_tuning h (hp_knobs prep)) (\<lambda>readback.
     io_ok (build_fingerprint f (hp_knobs prep) readback tenancy None)))"

definition prepare :: "'w host \<Rightarrow> host_prep \<Rightarrow> string \<Rightarrow> ('w, fingerprint) io" where
  "prepare h prep tenancy = io_then (ho_apply_tuning h (hp_knobs prep)) (\<lambda>_.
     io_then (ho_facts h) (\<lambda>f. io_then (ho_read_tuning h (hp_knobs prep)) (\<lambda>readback.
     io_ok (build_fingerprint f (hp_knobs prep) readback tenancy None))))"

section \<open>Reading \<open>/proc\<close> and \<open>/sys\<close>\<close>

record 'w sys_ops =
  sy_read :: "string \<Rightarrow> 'w \<Rightarrow> string option"
  sy_list :: "string \<Rightarrow> 'w \<Rightarrow> string + string list"
  sy_exists :: "string \<Rightarrow> 'w \<Rightarrow> bool"
  sy_write :: "string \<Rightarrow> string \<Rightarrow> ('w, unit) io"

definition read_trim :: "'w sys_ops \<Rightarrow> 'w \<Rightarrow> string \<Rightarrow> string option" where
  "read_trim sy w path = map_option trim (sy_read sy path w)"

definition cpuinfo_field :: "string \<Rightarrow> string \<Rightarrow> string option" where
  "cpuinfo_field cpuinfo key = find_map (\<lambda>l. case split_once (CHR '':'') l of
     None \<Rightarrow> None | Some (k, v) \<Rightarrow> if trim k = key then Some (trim v) else None) (str_lines cpuinfo)"

text \<open>The loop over the lines: the ids of the block being read, and the cores seen.\<close>

record core_scan =
  cr_phys :: "string option"
  cr_core :: "string option"
  cr_cores :: "string list"

definition note_core :: "core_scan \<Rightarrow> core_scan" where
  "note_core s = (case (cr_phys s, cr_core s) of
     (Some p, Some c) \<Rightarrow> s\<lparr>cr_cores := push_new (p @ '':'' @ c) (cr_cores s)\<rparr> | _ \<Rightarrow> s)"

definition scan_field :: "core_scan \<Rightarrow> string \<Rightarrow> core_scan" where
  "scan_field s l = (case split_once (CHR '':'') l of None \<Rightarrow> s
     | Some (k, v) \<Rightarrow> if trim k = ''physical id'' then s\<lparr>cr_phys := Some (trim v)\<rparr>
         else if trim k = ''core id'' then s\<lparr>cr_core := Some (trim v)\<rparr>
         else if trim k = ''processor'' then s\<lparr>cr_phys := None, cr_core := None\<rparr>
         else s)"

definition scan_line :: "core_scan \<Rightarrow> string \<Rightarrow> core_scan" where
  "scan_line s l = (let s' = scan_field s l in if trim l = '''' then note_core s' else s')"

definition is_processor :: "string \<Rightarrow> bool" where
  "is_processor l = (case split_once (CHR '':'') l of None \<Rightarrow> False | Some (k, _) \<Rightarrow> trim k = ''processor'')"

definition cores_of :: "string list \<Rightarrow> string list" where
  "cores_of ls = cr_cores (note_core (foldl scan_line \<lparr>cr_phys = None, cr_core = None, cr_cores = []\<rparr> ls))"

definition cpu_counts :: "string \<Rightarrow> u32 \<times> u32" where
  "cpu_counts cpuinfo = (let ls = str_lines cpuinfo;
     logical = of_nat (length (filter is_processor ls)); cores = cores_of ls;
     physical = (if cores = [] then logical else of_nat (length cores))
     in (max logical 1, max physical 1))"

definition os_pretty_name :: "'w sys_ops \<Rightarrow> 'w \<Rightarrow> string option" where
  "os_pretty_name sy w = Option.bind (sy_read sy ''/etc/os-release'' w)
     (\<lambda>text. find_map (\<lambda>l. map_option (trim_matches (CHR 0x22)) (strip_prefix ''PRETTY_NAME='' l)) (str_lines text))"

definition thp_active :: "'w sys_ops \<Rightarrow> 'w \<Rightarrow> string option" where
  "thp_active sy w = Option.bind (read_trim sy w ''/sys/kernel/mm/transparent_hugepage/enabled'')
     (\<lambda>text. find_map (\<lambda>t. Option.bind (strip_prefix ''['' t) (strip_suffix '']'')) (split_ws text))"

text \<open>The first \<open>MemTotal:\<close> line decides, even when its number does not parse.\<close>

definition meminfo_total_bytes :: "'w sys_ops \<Rightarrow> 'w \<Rightarrow> u64 option" where
  "meminfo_total_bytes sy w = Option.bind (sy_read sy ''/proc/meminfo'' w)
     (\<lambda>text. Option.bind (find_map (strip_prefix ''MemTotal:'') (str_lines text))
       (\<lambda>rest. case split_ws rest of [] \<Rightarrow> None | x # _ \<Rightarrow> map_option (\<lambda>kb. kb * 1024) (parse_u64 x)))"

definition numa_topology :: "'w sys_ops \<Rightarrow> 'w \<Rightarrow> json option" where
  "numa_topology sy w = (case sy_list sy ''/sys/devices/system/node'' w of Inl _ \<Rightarrow> None
     | Inr names \<Rightarrow> let nodes = List.map_filter (\<lambda>name. case strip_prefix ''node'' name of None \<Rightarrow> None
           | Some ident \<Rightarrow> if list_all is_ascii_digit ident
               then Some (name, JString (or_else (read_trim sy w (''/sys/devices/system/node/'' @ name @ ''/cpulist'')) ''''))
               else None) names
       in if nodes = [] then None else Some (jobj nodes))"

definition mitigations :: "'w sys_ops \<Rightarrow> 'w \<Rightarrow> json option" where
  "mitigations sy w = (case sy_list sy ''/sys/devices/system/cpu/vulnerabilities'' w of Inl _ \<Rightarrow> None
     | Inr names \<Rightarrow> let found = List.map_filter (\<lambda>name.
           map_option (\<lambda>v. (name, JString v)) (read_trim sy w (''/sys/devices/system/cpu/vulnerabilities/'' @ name))) names
       in if found = [] then None else Some (jobj found))"

definition nested_virt :: "'w sys_ops \<Rightarrow> 'w \<Rightarrow> bool option" where
  "nested_virt sy w = find_map (\<lambda>path. map_option (\<lambda>v. v = ''Y'' \<or> v = ''1'') (read_trim sy w path))
     [''/sys/module/kvm_intel/parameters/nested'', ''/sys/module/kvm_amd/parameters/nested'']"

section \<open>The Linux host\<close>

definition governor_path :: "string \<Rightarrow> string" where
  "governor_path cpu = ''/sys/devices/system/cpu/'' @ cpu @ ''/cpufreq/scaling_governor''"

definition smt_active :: "'w sys_ops \<Rightarrow> 'w \<Rightarrow> bool option" where
  "smt_active sy w = map_option (\<lambda>s. s = ''1'') (read_trim sy w ''/sys/devices/system/cpu/smt/active'')"

definition ok_or :: "'a option \<Rightarrow> string \<Rightarrow> string + 'a" where
  "ok_or x e = (case x of Some v \<Rightarrow> Inr v | None \<Rightarrow> Inl e)"

definition linux_facts :: "'w sys_ops \<Rightarrow> 'w \<Rightarrow> string + facts" where
  "linux_facts sy w = (let cpuinfo = or_else (read_trim sy w ''/proc/cpuinfo'') '''';
     (logical, physical) = cpu_counts cpuinfo in
     and_then (ok_or (read_trim sy w ''/proc/sys/kernel/hostname'') ''cannot read hostname'') (\<lambda>hostname.
     and_then (ok_or (read_trim sy w ''/proc/sys/kernel/osrelease'') ''cannot read kernel version'') (\<lambda>kernel.
     and_then (ok_or (meminfo_total_bytes sy w) ''cannot read MemTotal'') (\<lambda>mem.
     Inr \<lparr>fa_hostname = hostname, fa_kernel_version = kernel,
       fa_os_release = or_else (os_pretty_name sy w) ''unknown'',
       fa_cpu_model = or_else (cpuinfo_field cpuinfo ''model name'') ''unknown'',
       fa_cpu_count_logical = logical, fa_cpu_count_physical = physical,
       fa_smt_enabled = or_else (smt_active sy w) False,
       fa_cpu_governor = or_else (read_trim sy w (governor_path ''cpu0'')) ''unknown'',
       fa_thp_setting = or_else (thp_active sy w) ''unknown'',
       fa_total_memory_bytes = mem, fa_kvm_present = sy_exists sy ''/dev/kvm'' w,
       fa_numa_topology = numa_topology sy w, fa_mitigations = mitigations sy w,
       fa_microcode_version = cpuinfo_field cpuinfo ''microcode'', fa_nested_virt = nested_virt sy w\<rparr>))))"

definition linux_read_tuning :: "'w sys_ops \<Rightarrow> tuning_knobs \<Rightarrow> 'w \<Rightarrow> tuning_knobs" where
  "linux_read_tuning sy want w = (let f = requested_of want in
     \<lparr>tk_cpu_governor = (if rf_governor f then read_trim sy w (governor_path ''cpu0'') else None),
      tk_smt = (if rf_smt f then smt_active sy w else None),
      tk_thp = (if rf_thp f then thp_active sy w else None)\<rparr>)"

definition write_sysfs :: "'w sys_ops \<Rightarrow> string \<Rightarrow> string \<Rightarrow> ('w, unit) io" where
  "write_sysfs sy path v = io_map_err (\<lambda>e. ''writing '' @ [CHR 0x27] @ v @ [CHR 0x27] @ '' to '' @ path @ '': '' @ e)
     (sy_write sy path v)"

definition is_cpu_n :: "string \<Rightarrow> bool" where
  "is_cpu_n name = (case strip_prefix ''cpu'' name of None \<Rightarrow> False
     | Some n \<Rightarrow> n \<noteq> [] \<and> list_all is_ascii_digit n)"

text \<open>The write of each CPU's governor, with the number of nodes written.\<close>

fun govern_each :: "'w sys_ops \<Rightarrow> string \<Rightarrow> string list \<Rightarrow> nat \<Rightarrow> ('w, nat) io" where
  "govern_each sy gov [] wrote w = (Inr wrote, w)"
| "govern_each sy gov (name # names) wrote w =
     (if \<not> is_cpu_n name \<or> \<not> sy_exists sy (governor_path name) w then govern_each sy gov names wrote w
      else case write_sysfs sy (governor_path name) gov w of
        (Inl e, w') \<Rightarrow> (Inl e, w') | (Inr _, w') \<Rightarrow> govern_each sy gov names (wrote + 1) w')"

definition set_governor :: "'w sys_ops \<Rightarrow> string \<Rightarrow> ('w, unit) io" where
  "set_governor sy gov w = (case sy_list sy ''/sys/devices/system/cpu'' w of
     Inl e \<Rightarrow> (Inl (''listing cpus: '' @ e), w)
   | Inr names \<Rightarrow> io_then (govern_each sy gov names 0) (\<lambda>wrote.
       if wrote = 0 then io_err ''no cpufreq scaling_governor present; cannot set the CPU governor''
       else io_ok ()) w)"

definition set_smt :: "'w sys_ops \<Rightarrow> bool \<Rightarrow> ('w, unit) io" where
  "set_smt sy on w = (if \<not> sy_exists sy ''/sys/devices/system/cpu/smt/control'' w
     then (Inl ''SMT control not available (/sys/devices/system/cpu/smt/control missing)'', w)
     else write_sysfs sy ''/sys/devices/system/cpu/smt/control'' (if on then ''on'' else ''off'') w)"

definition when_some :: "('a \<Rightarrow> ('w, unit) io) \<Rightarrow> 'a option \<Rightarrow> ('w, unit) io" where
  "when_some f x = (case x of None \<Rightarrow> io_ok () | Some v \<Rightarrow> f v)"

definition linux_apply_tuning :: "'w sys_ops \<Rightarrow> tuning_knobs \<Rightarrow> ('w, unit) io" where
  "linux_apply_tuning sy want = io_then (when_some (set_governor sy) (tk_cpu_governor want)) (\<lambda>_.
     io_then (when_some (set_smt sy) (tk_smt want)) (\<lambda>_.
     when_some (write_sysfs sy ''/sys/kernel/mm/transparent_hugepage/enabled'') (tk_thp want)))"

definition linux_host :: "'w sys_ops \<Rightarrow> 'w host" where
  "linux_host sy = \<lparr>ho_facts = (\<lambda>w. (linux_facts sy w, w)),
     ho_read_tuning = (\<lambda>want w. (Inr (linux_read_tuning sy want w), w)),
     ho_apply_tuning = linux_apply_tuning sy\<rparr>"

section \<open>Lemmas: the tuning rule\<close>

fun plain_value :: "json \<Rightarrow> bool" where
  "plain_value (JString s) = True"
| "plain_value (JBool b) = True"
| "plain_value _ = False"

lemma plain_json_eq: "plain_value v \<Longrightarrow> json_eq v u \<longleftrightarrow> v = u"
  by (cases v) auto

lemma plain_fields_eq: "\<forall>kv \<in> set m. plain_value (snd kv) \<Longrightarrow> fields_eq m n \<longleftrightarrow> m = n"
proof (induction m arbitrary: n)
  case (Cons kv m)
  obtain k v where kv: "kv = (k, v)" by (cases kv)
  show ?case using Cons by (cases n) (auto simp: kv plain_json_eq)
qed auto

lemma plain_object:
  assumes "\<forall>kv \<in> set kvs. plain_value (snd kv)"
  shows "json_eq (jobj kvs) u \<longleftrightarrow> jobj kvs = u"
proof -
  have "\<forall>kv \<in> set (fold (\<lambda>(k, v). bm_insert k v) kvs m). plain_value (snd kv)"
    if "\<forall>kv \<in> set m. plain_value (snd kv)" for m
    using assms that
  proof (induction kvs arbitrary: m)
    case (Cons kv kvs)
    obtain k v where kv: "kv = (k, v)" by (cases kv)
    have "\<forall>p \<in> set (bm_insert k v m). plain_value (snd p)"
      using Cons.prems bm_insert_values [of k v m] kv by auto
    then show ?case using Cons.IH [of "bm_insert k v m"] Cons.prems(1) kv by simp
  qed simp
  from this [of bm_empty] have "\<forall>kv \<in> set (fold (\<lambda>(k, v). bm_insert k v) kvs bm_empty). plain_value (snd kv)"
    by (simp add: bm_empty_def)
  then show ?thesis by (cases u) (auto simp: jobj_def plain_fields_eq)
qed

lemma knobs_value_get:
  "jget (knobs_value t) ''cpu_governor'' = map_option JString (tk_cpu_governor t)"
  "jget (knobs_value t) ''smt'' = map_option JBool (tk_smt t)"
  "jget (knobs_value t) ''thp'' = map_option JString (tk_thp t)"
  by (auto simp: knobs_value_def jget_jobj opt_json_def split: option.splits)

lemma knobs_value_eq: "json_eq (knobs_value a) (knobs_value b) \<longleftrightarrow> a = (b :: tuning_knobs)"
proof -
  have "json_eq (knobs_value a) (knobs_value b) \<longleftrightarrow> knobs_value a = knobs_value b"
    unfolding knobs_value_def [of a]
    by (rule plain_object) (auto simp: opt_json_def split: option.splits)
  moreover have "a = b" if "knobs_value a = knobs_value b"
  proof -
    have inj: "x = y" if "map_option JString x = map_option JString y" for x y
      using that by (cases x; cases y) auto
    have inj2: "x = y" if "map_option JBool x = map_option JBool y" for x y
      using that by (cases x; cases y) auto
    have "tk_cpu_governor a = tk_cpu_governor b" "tk_smt a = tk_smt b" "tk_thp a = tk_thp b"
      using knobs_value_get [of a] knobs_value_get [of b] that inj inj2 by metis+
    then show ?thesis by simp
  qed
  ultimately show ?thesis by auto
qed

text \<open>What the host reports is what was asked, knob by knob; a knob not asked for is free.\<close>

definition reads_back :: "'w sys_ops \<Rightarrow> 'w \<Rightarrow> tuning_knobs \<Rightarrow> bool" where
  "reads_back sy w want \<longleftrightarrow>
     (tk_cpu_governor want = None \<or> read_trim sy w (governor_path ''cpu0'') = tk_cpu_governor want)
     \<and> (tk_smt want = None \<or> smt_active sy w = tk_smt want)
     \<and> (tk_thp want = None \<or> thp_active sy w = tk_thp want)"

lemma read_tuning_eq: "want = linux_read_tuning sy want w \<longleftrightarrow> reads_back sy w (want :: tuning_knobs)"
  by (cases want) (auto simp: linux_read_tuning_def requested_of_def reads_back_def Let_def)

lemma linux_readback:
  assumes "observe (linux_host sy) prep tenancy w = (Inr fp, w') \<or> prepare (linux_host sy) prep tenancy w = (Inr fp, w')"
  shows "fp_tuning_requested fp = knobs_value (hp_knobs prep)"
    and "fp_tuning_readback fp = knobs_value (linux_read_tuning sy (hp_knobs prep) w')"
    and "fp_pinning_layout fp = None"
  using assms
  by (auto simp: observe_def prepare_def linux_host_def io_simps build_fingerprint_def)

section \<open>Lemmas: the governor\<close>

text \<open>A file tree whose writes are read back and touch no other file.\<close>

definition sticky :: "'w sys_ops \<Rightarrow> bool" where
  "sticky sy \<longleftrightarrow> (\<forall>p v w w'. sy_write sy p v w = (Inr (), w') \<longrightarrow>
     (\<forall>q. sy_read sy q w' = (if q = p then Some v else sy_read sy q w) \<and> sy_exists sy q w' = sy_exists sy q w))"

definition governed :: "'w sys_ops \<Rightarrow> 'w \<Rightarrow> string list \<Rightarrow> string set" where
  "governed sy w names = governor_path ` {name \<in> set names. is_cpu_n name \<and> sy_exists sy (governor_path name) w}"

lemma governed_simps [simp]:
  "governed sy w [] = {}"
  "governed sy w (name # names) = (if is_cpu_n name \<and> sy_exists sy (governor_path name) w
     then insert (governor_path name) (governed sy w names) else governed sy w names)"
  by (auto simp: governed_def)

lemma govern_each_writes:
  assumes "sticky sy" and "govern_each sy gov names wrote w = (Inr n, w')"
  shows "(\<forall>q. sy_exists sy q w' = sy_exists sy q w)
    \<and> (\<forall>q. sy_read sy q w' = (if q \<in> governed sy w names then Some gov else sy_read sy q w))
    \<and> n = wrote + length (filter (\<lambda>name. is_cpu_n name \<and> sy_exists sy (governor_path name) w) names)"
  using assms(2)
proof (induction names arbitrary: wrote w)
  case (Cons name names)
  let ?P = "\<lambda>w name. is_cpu_n name \<and> sy_exists sy (governor_path name) w"
  show ?case
  proof (cases "?P w name")
    case False
    then have "govern_each sy gov names wrote w = (Inr n, w')" using Cons.prems by simp
    from Cons.IH [OF this] False show ?thesis by auto
  next
    case True
    then obtain w1 where wr: "sy_write sy (governor_path name) gov w = (Inr (), w1)"
      and rest: "govern_each sy gov names (wrote + 1) w1 = (Inr n, w')"
      using Cons.prems by (auto simp: write_sysfs_def io_map_err_def result_simps split: prod.splits sum.splits)
    have s: "sy_read sy q w1 = (if q = governor_path name then Some gov else sy_read sy q w)"
      "sy_exists sy q w1 = sy_exists sy q w" for q
      using assms(1) wr unfolding sticky_def by blast+
    have "governed sy w1 names = governed sy w names" by (simp add: governed_def s)
    then show ?thesis using Cons.IH [OF rest] True by (simp add: s)
  qed
qed simp

lemma governor_path_inj: "governor_path a = governor_path b \<longleftrightarrow> a = b"
  by (simp add: governor_path_def)

section \<open>Lemmas: counting cores\<close>

text \<open>A processor's block of \<open>/proc/cpuinfo\<close>: its number, other fields, its package and core.\<close>

record cpu_block =
  cb_index :: string
  cb_extra :: "(string \<times> string) list"
  cb_phys :: string
  cb_core :: string

definition field_line :: "string \<Rightarrow> string \<Rightarrow> string" where
  "field_line k v = k @ char_of (9 :: int) # '': '' @ v"

definition block_fields :: "cpu_block \<Rightarrow> string list" where
  "block_fields b = [field_line ''processor'' (cb_index b)]
     @ map (\<lambda>(k, v). field_line k v) (cb_extra b)
     @ [field_line ''physical id'' (cb_phys b), field_line ''core id'' (cb_core b)]"

definition core_keys :: "string list" where
  "core_keys = [''processor'', ''physical id'', ''core id'']"

text \<open>Keys hold no colon and are not the three; package and core are trimmed, the package without a colon.\<close>

definition plain_key :: "string \<Rightarrow> bool" where
  "plain_key k \<longleftrightarrow> CHR '':'' \<notin> set k \<and> trim (k @ [char_of (9 :: int)]) \<notin> set core_keys"

definition plain_block :: "cpu_block \<Rightarrow> bool" where
  "plain_block b \<longleftrightarrow> (\<forall>kv \<in> set (cb_extra b). plain_key (fst kv))
     \<and> trim (cb_phys b) = cb_phys b \<and> trim (cb_core b) = cb_core b \<and> CHR '':'' \<notin> set (cb_phys b)"

lemma split_once_field:
  "CHR '':'' \<notin> set k \<Longrightarrow> split_once (CHR '':'') (field_line k v) = Some (k @ [char_of (9 :: int)], CHR '' '' # v)"
proof -
  assume k: "CHR '':'' \<notin> set k"
  have tab: "char_of (9 :: int) \<noteq> CHR '':''" by code_simp
  have "split_once (CHR '':'') (s @ char_of (9 :: int) # '':'' @ t) = Some (s @ [char_of (9 :: int)], t)"
    if "CHR '':'' \<notin> set s" for s t
    using that tab by (induction s) auto
  then show ?thesis using k by (simp add: field_line_def)
qed

lemma trim_space: "trim (CHR '' '' # v) = trim v"
  by (simp add: trim_def)

lemma trim_empty_iff: "trim l = '''' \<longleftrightarrow> (\<forall>c \<in> set l. is_ws c)"
proof
  assume "trim l = ''''"
  then have "\<forall>c \<in> set (dropWhile is_ws l). is_ws c"
    by (metis dropWhile_eq_Nil_conv rev_is_Nil_conv set_rev trim_def)
  then show "\<forall>c \<in> set l. is_ws c" by (metis dropWhile_eq_Nil_conv hd_dropWhile hd_in_set)
qed (simp add: trim_def dropWhile_eq_Nil_conv [THEN iffD2])

lemma field_not_blank: "trim (field_line k v) \<noteq> ''''"
proof -
  have "\<not> is_ws (CHR '':'')" by (simp add: is_ws_def)
  then show ?thesis by (auto simp: trim_empty_iff field_line_def)
qed

lemma core_key_trims:
  "trim (''processor'' @ [char_of (9 :: int)]) = ''processor''"
  "trim (''physical id'' @ [char_of (9 :: int)]) = ''physical id''"
  "trim (''core id'' @ [char_of (9 :: int)]) = ''core id''"
  by code_simp+

lemma scan_line_field:
  "CHR '':'' \<notin> set k \<Longrightarrow> scan_line s (field_line k v) = (let key = trim (k @ [char_of (9 :: int)]) in
     if key = ''physical id'' then s\<lparr>cr_phys := Some (trim v)\<rparr>
     else if key = ''core id'' then s\<lparr>cr_core := Some (trim v)\<rparr>
     else if key = ''processor'' then s\<lparr>cr_phys := None, cr_core := None\<rparr> else s)"
  by (simp add: scan_line_def scan_field_def split_once_field field_not_blank trim_space Let_def)

lemma scan_extra:
  "\<forall>kv \<in> set xs. plain_key (fst kv) \<Longrightarrow> foldl scan_line s (map (\<lambda>(k, v). field_line k v) xs) = s"
proof (induction xs)
  case (Cons kv xs)
  obtain k v where kv: "kv = (k, v)" by (cases kv)
  have "scan_line s (field_line k v) = s"
    using Cons.prems scan_line_field [of k s v] by (auto simp: kv plain_key_def core_keys_def Let_def)
  then show ?case using Cons by (simp add: kv)
qed simp

definition core_id :: "cpu_block \<Rightarrow> string" where
  "core_id b = cb_phys b @ '':'' @ cb_core b"

lemma scan_block:
  assumes "plain_block b"
  shows "foldl scan_line s (block_fields b) = s\<lparr>cr_phys := Some (cb_phys b), cr_core := Some (cb_core b)\<rparr>"
proof -
  have nc: "CHR '':'' \<notin> set ''processor''" "CHR '':'' \<notin> set ''physical id''" "CHR '':'' \<notin> set ''core id''" by simp_all
  have ex: "foldl scan_line s' (map (\<lambda>(k, v). field_line k v) (cb_extra b)) = s'" for s'
    using assms by (intro scan_extra) (simp add: plain_block_def)
  show ?thesis
    using assms unfolding block_fields_def plain_block_def
    by (simp only: foldl_append foldl.simps scan_line_field [OF nc(1)] scan_line_field [OF nc(2)]
        scan_line_field [OF nc(3)] core_key_trims Let_def ex) simp
qed

lemma scan_blank: "scan_line s '''' = note_core s"
  by (simp add: scan_line_def scan_field_def trim_def Let_def)

lemma note_core_at:
  "note_core (s\<lparr>cr_phys := Some (cb_phys b), cr_core := Some (cb_core b)\<rparr>)
     = s\<lparr>cr_phys := Some (cb_phys b), cr_core := Some (cb_core b), cr_cores := push_new (core_id b) (cr_cores s)\<rparr>"
  by (simp add: note_core_def core_id_def)

lemma scan_blocks:
  "\<forall>b \<in> set bs. plain_block b \<Longrightarrow>
     cr_cores (foldl scan_line s (concat (map (\<lambda>b. block_fields b @ ['''']) bs)))
       = foldl (\<lambda>acc b. push_new (core_id b) acc) (cr_cores s) bs"
proof (induction bs arbitrary: s)
  case (Cons b bs)
  then show ?case by (simp add: scan_block scan_blank note_core_at)
qed simp

lemma cores_of_blocks:
  assumes "\<forall>b \<in> set (bs @ [b]). plain_block b"
  shows "cores_of (concat (map (\<lambda>b. block_fields b @ ['''']) bs) @ block_fields b) = first_seen (map core_id (bs @ [b]))"
proof -
  have "foldl (\<lambda>acc b. push_new (core_id b) acc) acc xs = foldl (\<lambda>acc x. push_new x acc) acc (map core_id xs)" for acc xs
    by (induction xs arbitrary: acc) auto
  then show ?thesis
    using assms scan_blocks [of bs] scan_block [of b]
    by (simp add: cores_of_def note_core_at first_seen_def)
qed

lemma core_id_inj:
  assumes "plain_block a" and "plain_block b" and "core_id a = core_id b"
  shows "cb_phys a = cb_phys b \<and> cb_core a = cb_core b"
proof -
  have "split_once (CHR '':'') (p @ '':'' @ c) = Some (p, c)" if "CHR '':'' \<notin> set p" for p c
    using that by (induction p) auto
  then show ?thesis using assms unfolding plain_block_def core_id_def by (metis option.inject prod.inject)
qed

lemma is_processor_field:
  "CHR '':'' \<notin> set k \<Longrightarrow> is_processor (field_line k v) \<longleftrightarrow> trim (k @ [char_of (9 :: int)]) = ''processor''"
  by (simp add: is_processor_def split_once_field)

lemma processors_of_block: "plain_block b \<Longrightarrow> length (filter is_processor (block_fields b)) = 1"
proof -
  assume b: "plain_block b"
  have "\<not> is_processor (field_line k v)" if "(k, v) \<in> set (cb_extra b)" for k v
    using b that is_processor_field [of k v] by (force simp: plain_block_def plain_key_def core_keys_def)
  then have "filter is_processor (map (\<lambda>(k, v). field_line k v) (cb_extra b)) = []"
    by (auto simp: filter_empty_conv)
  moreover have "is_processor (field_line ''processor'' v)" for v
    using is_processor_field [of "''processor''" v] unfolding core_key_trims by simp
  moreover have "\<not> is_processor (field_line ''physical id'' v)" for v
    using is_processor_field [of "''physical id''" v] unfolding core_key_trims by simp
  moreover have "\<not> is_processor (field_line ''core id'' v)" for v
    using is_processor_field [of "''core id''" v] unfolding core_key_trims by simp
  ultimately show ?thesis by (simp add: block_fields_def)
qed

lemma processors_of_blocks:
  assumes "\<forall>b \<in> set (bs @ [b]). plain_block b"
  shows "length (filter is_processor (concat (map (\<lambda>b. block_fields b @ ['''']) bs) @ block_fields b)) = length bs + 1"
proof -
  have "\<not> is_processor ''''" by (simp add: is_processor_def)
  then have "\<forall>b \<in> set bs. plain_block b \<Longrightarrow>
      length (filter is_processor (concat (map (\<lambda>b. block_fields b @ ['''']) bs))) = length bs"
    by (induction bs) (simp_all add: processors_of_block)
  then show ?thesis using assms by (simp add: processors_of_block)
qed

lemma max_of_nat: "0 < n \<Longrightarrow> n < 2 ^ 32 \<Longrightarrow> max (of_nat n :: u32) 1 = of_nat n"
proof -
  assume n: "0 < n" "n < 2 ^ 32"
  then have "unat (of_nat n :: u32) = n" by (simp add: unat_of_nat)
  then have "(1 :: u32) \<le> of_nat n" using n(1) by (simp add: word_le_nat_alt)
  then show ?thesis by (simp add: max_def)
qed

section \<open>Properties\<close>

text \<open>C19: The tuning rule: a run whose fingerprint was observed on this host, or prepared on it,
  never grades reproducible on that fingerprint alone (no pinning is recorded), and it
  grades invalid exactly when some knob the definition asked for does not read back as
  asked; a knob it did not ask for has no say.\<close>

theorem tuning_rule:
  assumes "observe (linux_host sy) prep tenancy w = (Inr fp, w') \<or> prepare (linux_host sy) prep tenancy w = (Inr fp, w')"
    and "r_fingerprint run = fp"
  shows "compute_grade run probes_ran \<noteq> Reproducible
    \<and> (compute_grade run probes_ran = Invalid \<longleftrightarrow> \<not> reads_back sy w' (hp_knobs prep))"
proof -
  note fp = linux_readback [OF assms(1)]
  have "tuning_consistent fp \<longleftrightarrow> reads_back sy w' (hp_knobs prep)"
    by (simp add: tuning_consistent_def fp knobs_value_eq read_tuning_eq)
  moreover have "\<not> has_extended fp" by (simp add: has_extended_def fp)
  ultimately show ?thesis using assms(2) by (simp add: compute_grade_def Let_def)
qed

text \<open>A file tree as a function from paths.\<close>

definition tree_ops :: "(string \<rightharpoonup> string) sys_ops" where
  "tree_ops = \<lparr>sy_read = (\<lambda>p w. w p),
     sy_list = (\<lambda>d w. if d = ''/sys/devices/system/cpu'' then Inr [''cpu0'', ''cpu1'', ''cpufreq''] else Inl ''ENOENT''),
     sy_exists = (\<lambda>p w. w p \<noteq> None), sy_write = (\<lambda>p v w. if w p = None then (Inl ''ENOENT'', w) else (Inr (), w(p \<mapsto> v)))\<rparr>"

definition small_host :: "string \<rightharpoonup> string" where
  "small_host = [''/proc/sys/kernel/hostname'' \<mapsto> ''lab'', ''/proc/sys/kernel/osrelease'' \<mapsto> ''6.11'',
     ''/proc/meminfo'' \<mapsto> ''MemTotal: 8 kB'', governor_path ''cpu0'' \<mapsto> ''powersave'', governor_path ''cpu1'' \<mapsto> ''powersave'']"

definition want_performance :: host_prep where
  "want_performance = \<lparr>hp_knobs = \<lparr>tk_cpu_governor = Some ''performance'', tk_smt = None, tk_thp = None\<rparr>, hp_pin_threads = False\<rparr>"

lemma sticky_tree: "sticky tree_ops"
  by (auto simp: sticky_def tree_ops_def split: if_splits)

theorem tuning_rule_witness:
  "\<exists>fp w'. observe (linux_host tree_ops) want_performance ''single_tenant'' small_host = (Inr fp, w')
     \<and> (\<forall>run. r_fingerprint run = fp \<longrightarrow> compute_grade run True = Invalid)"
proof -
  have ok: "is_ok (fst (observe (linux_host tree_ops) want_performance ''single_tenant'' small_host))" by code_simp
  obtain fp w' where run: "observe (linux_host tree_ops) want_performance ''single_tenant'' small_host = (Inr fp, w')"
    using ok by (metis is_ok_iff prod.collapse)
  have w': "w' = small_host" using run by (auto simp: observe_def linux_host_def io_simps)
  have "read_trim tree_ops small_host (governor_path ''cpu0'') = Some ''powersave''" by code_simp
  then have "\<not> reads_back tree_ops w' (hp_knobs want_performance)"
    by (simp add: w' reads_back_def want_performance_def)
  then show ?thesis using tuning_rule [OF disjI1 [OF run]] run by blast
qed

text \<open>Setting the governor sets it everywhere: on a file tree that keeps what is written, when
  it succeeds, every listed CPU that has a governor node reads back the governor asked
  for, there is at least one, and no other file has changed; when no CPU has a node it is
  an error and nothing has changed.\<close>

theorem governor_everywhere:
  assumes "sticky sy" and "sy_list sy ''/sys/devices/system/cpu'' w = Inr names"
    and "set_governor sy gov w = (r, w')"
  shows "(r = Inr () \<longrightarrow> governed sy w names \<noteq> {}
      \<and> (\<forall>q. sy_read sy q w' = (if q \<in> governed sy w names then Some gov else sy_read sy q w)))
    \<and> (governed sy w names = {} \<longrightarrow> \<not> is_ok r \<and> w' = w)"
proof
  show "r = Inr () \<longrightarrow> governed sy w names \<noteq> {}
      \<and> (\<forall>q. sy_read sy q w' = (if q \<in> governed sy w names then Some gov else sy_read sy q w))"
  proof
    assume "r = Inr ()"
    then obtain n where n: "govern_each sy gov names 0 w = (Inr n, w')" "n \<noteq> 0"
      using assms(2,3) by (auto simp: set_governor_def io_simps split: if_splits)
    note ge = govern_each_writes [OF assms(1) n(1)]
    have "governed sy w names \<noteq> {}" using ge n(2) by (auto simp: governed_def filter_empty_conv)
    then show "governed sy w names \<noteq> {}
      \<and> (\<forall>q. sy_read sy q w' = (if q \<in> governed sy w names then Some gov else sy_read sy q w))" using ge by blast
  qed
  show "governed sy w names = {} \<longrightarrow> \<not> is_ok r \<and> w' = w"
  proof
    assume none: "governed sy w names = {}"
    have "govern_each sy gov names k w = (Inr k, w)" for k
      using none by (induction names arbitrary: k) (auto split: if_splits)
    then show "\<not> is_ok r \<and> w' = w"
      using assms(2,3) by (auto simp: set_governor_def io_then_def io_err_def)
  qed
qed

theorem governor_everywhere_witness:
  "\<exists>w'. set_governor tree_ops ''performance'' small_host = (Inr (), w')
     \<and> sy_read tree_ops (governor_path ''cpu1'') w' = Some ''performance''"
proof -
  have ok: "fst (set_governor tree_ops ''performance'' small_host) = Inr ()" by code_simp
  obtain w' where run: "set_governor tree_ops ''performance'' small_host = (Inr (), w')"
    using ok by (metis prod.collapse)
  have l: "sy_list tree_ops ''/sys/devices/system/cpu'' small_host = Inr [''cpu0'', ''cpu1'', ''cpufreq'']"
    by (simp add: tree_ops_def)
  have "governor_path ''cpu1'' \<in> governed tree_ops small_host [''cpu0'', ''cpu1'', ''cpufreq'']" by code_simp
  then show ?thesis using governor_everywhere [OF sticky_tree l run] run by simp
qed

text \<open>The CPU counts are what the text says: for a \<open>/proc/cpuinfo\<close> of one block per processor,
  each with its package and core, the logical count is the number of blocks and the
  physical count the number of distinct (package, core) pairs, whatever the other fields
  and although the last block has no blank line after it.\<close>

theorem cpu_counts_blocks:
  assumes "str_lines cpuinfo = concat (map (\<lambda>b. block_fields b @ ['''']) bs) @ block_fields b"
    and "\<forall>b \<in> set (bs @ [b]). plain_block b" and "length bs + 1 < 2 ^ 32"
  shows "cpu_counts cpuinfo = (of_nat (length bs + 1),
    of_nat (card ((\<lambda>b. (cb_phys b, cb_core b)) ` set (bs @ [b]))))"
proof -
  let ?ids = "first_seen (map core_id (bs @ [b]))" and ?pairs = "(\<lambda>b. (cb_phys b, cb_core b)) ` set (bs @ [b])"
  have "length ?ids = card (set ?ids)" by (metis distinct_card distinct_first_seen)
  also have "set ?ids = (\<lambda>(p, c). p @ '':'' @ c) ` ?pairs" by (auto simp: core_id_def)
  also have "card \<dots> = card ?pairs"
  proof (rule card_image)
    show "inj_on (\<lambda>(p, c). p @ '':'' @ c) ?pairs"
      using assms(2) core_id_inj by (fastforce simp: inj_on_def core_id_def)
  qed
  finally have n: "length ?ids = card ?pairs" .
  have "card ?pairs \<le> length (bs @ [b])" by (meson card_image_le card_length finite_set le_trans)
  moreover have "0 < card ?pairs" by (simp add: card_gt_0_iff)
  ultimately have bound: "0 < card ?pairs" "card ?pairs < 2 ^ 32" using assms(3) by simp_all
  have "?ids \<noteq> []" using n bound(1) by (metis length_0_conv less_irrefl)
  moreover have "max (of_nat (length bs + 1) :: u32) 1 = of_nat (length bs + 1)" using assms(3) by (intro max_of_nat) simp_all
  ultimately show ?thesis
    using cores_of_blocks [OF assms(2)] processors_of_blocks [OF assms(2)] n max_of_nat [OF bound]
    unfolding cpu_counts_def Let_def assms(1) by simp
qed

definition sample_blocks :: "cpu_block list" where
  "sample_blocks = map (\<lambda>(i, c). \<lparr>cb_index = i, cb_extra = [(''model name'', ''X'')], cb_phys = ''0'', cb_core = c\<rparr>)
     [(''0'', ''0''), (''1'', ''0''), (''2'', ''1'')]"

theorem cpu_counts_blocks_witness:
  "cpu_counts (str_join [newline] (concat (map (\<lambda>b. block_fields b @ ['''']) (take 2 sample_blocks))
     @ block_fields (sample_blocks ! 2))) = (3, 2)"
proof -
  let ?text = "str_join [newline] (concat (map (\<lambda>b. block_fields b @ ['''']) (take 2 sample_blocks))
     @ block_fields (sample_blocks ! 2))"
  have l: "str_lines ?text = concat (map (\<lambda>b. block_fields b @ ['''']) (take 2 sample_blocks))
     @ block_fields (sample_blocks ! 2)" by code_simp
  have p: "\<forall>b \<in> set (take 2 sample_blocks @ [sample_blocks ! 2]). plain_block b" by code_simp
  have n: "length (take 2 sample_blocks) + 1 < 2 ^ 32" by (simp add: sample_blocks_def)
  have "card ((\<lambda>b. (cb_phys b, cb_core b)) ` set (take 2 sample_blocks @ [sample_blocks ! 2])) = 2"
    "length (take 2 sample_blocks) + 1 = 3" by code_simp+
  then show ?thesis using cpu_counts_blocks [OF l p n] by simp
qed

end
