(* ===== verification/Cli.thy ===== *)
theory Cli
  imports GateHandoff RunBuild HostPrep NativeWorkload ExecuteRun Otlp
begin

text \<open>
  \<open>crates/orchestrate/src/main.rs\<close>, the choices of the orchestrator's front end: the command
  lines of its subcommands, the adapters a definition selects, and the target of a run, one
  instance or a fan-out of several. The cells of the adapters of a run live in one record of
  boxes next to the world; an adapter's effects are lifted to it by the part it owns.
\<close>

section \<open>The command lines\<close>

text \<open>
  The loop the subcommands share: a flag with a value, a switch, an unknown flag, and one
  positional path. A flag's update may refuse its value.
\<close>

fun cli_loop :: "(string \<Rightarrow> (string \<Rightarrow> 'a \<Rightarrow> string + 'a) option) \<Rightarrow> (string \<Rightarrow> ('a \<Rightarrow> 'a) option)
    \<Rightarrow> 'a \<Rightarrow> string option \<Rightarrow> string list \<Rightarrow> string + 'a \<times> string option" where
  "cli_loop flag sw acc path [] = Inr (acc, path)"
| "cli_loop flag sw acc path (arg # args) = (case flag arg of
     Some upd \<Rightarrow> (case args of [] \<Rightarrow> Inl (''missing value after '' @ arg)
       | v # rest \<Rightarrow> and_then (upd v acc) (\<lambda>acc'. cli_loop flag sw acc' path rest))
   | None \<Rightarrow> (case sw arg of
       Some f \<Rightarrow> cli_loop flag sw (f acc) path args
     | None \<Rightarrow> if starts_with ''--'' arg then Inl (''unknown flag '' @ arg)
         else if path \<noteq> None then Inl (''unexpected argument '' @ arg)
         else cli_loop flag sw acc (Some arg) args))"

definition with_value :: "'v option \<Rightarrow> string \<Rightarrow> ('v \<Rightarrow> 'a) \<Rightarrow> string + 'a" where
  "with_value x e f = (case x of Some v \<Rightarrow> Inr (f v) | None \<Rightarrow> Inl e)"

record run_args =
  rg_def_path :: string
  rg_repeat :: u32
  rg_a_sut :: string
  rg_b_sut :: string
  rg_out_dir :: string
  rg_duration :: u64
  rg_allow_ungraded :: bool
  rg_apply_prep :: bool

definition default_run_args :: run_args where
  "default_run_args = \<lparr>rg_def_path = '''', rg_repeat = 3, rg_a_sut = ''unknown-a'', rg_b_sut = ''unknown-b'',
     rg_out_dir = ''assayist-out'', rg_duration = 30, rg_allow_ungraded = False, rg_apply_prep = False\<rparr>"

definition run_flag :: "string \<Rightarrow> (string \<Rightarrow> run_args \<Rightarrow> string + run_args) option" where
  "run_flag arg = (
     if arg = ''--repeat'' then Some (\<lambda>v a. with_value (parse_u32 v) ''bad --repeat'' (\<lambda>n. a\<lparr>rg_repeat := n\<rparr>))
     else if arg = ''--a-sut'' then Some (\<lambda>v a. Inr (a\<lparr>rg_a_sut := v\<rparr>))
     else if arg = ''--b-sut'' then Some (\<lambda>v a. Inr (a\<lparr>rg_b_sut := v\<rparr>))
     else if arg = ''--out'' then Some (\<lambda>v a. Inr (a\<lparr>rg_out_dir := v\<rparr>))
     else if arg = ''--duration'' then Some (\<lambda>v a. with_value (parse_u64 v) ''bad --duration'' (\<lambda>n. a\<lparr>rg_duration := n\<rparr>))
     else None)"

definition run_switch :: "string \<Rightarrow> (run_args \<Rightarrow> run_args) option" where
  "run_switch arg = (if arg = ''--allow-ungraded'' then Some (\<lambda>a. a\<lparr>rg_allow_ungraded := True\<rparr>)
     else if arg = ''--apply-prep'' then Some (\<lambda>a. a\<lparr>rg_apply_prep := True\<rparr>) else None)"

definition parse_run_args :: "string list \<Rightarrow> string + run_args" where
  "parse_run_args args = and_then (cli_loop run_flag run_switch default_run_args None args) (\<lambda>(ra, path).
     and_then (ok_or path ''run needs a <def.yaml> path'') (\<lambda>p.
     if rg_repeat ra = 0 then Inl ''--repeat must be > 0'' else Inr (ra\<lparr>rg_def_path := p\<rparr>)))"

record capture_args =
  cg_def_path :: string
  cg_duration :: u64
  cg_out :: string
  cg_sut_sha :: string
  cg_work_dir :: "string option"

definition default_capture_args :: capture_args where
  "default_capture_args = \<lparr>cg_def_path = '''', cg_duration = 30, cg_out = ''-'', cg_sut_sha = ''unknown'', cg_work_dir = None\<rparr>"

definition capture_flag :: "string \<Rightarrow> (string \<Rightarrow> capture_args \<Rightarrow> string + capture_args) option" where
  "capture_flag arg = (
     if arg = ''--duration'' then Some (\<lambda>v a. with_value (parse_u64 v) ''bad --duration'' (\<lambda>n. a\<lparr>cg_duration := n\<rparr>))
     else if arg = ''--out'' then Some (\<lambda>v a. Inr (a\<lparr>cg_out := v\<rparr>))
     else if arg = ''--sut-sha'' then Some (\<lambda>v a. Inr (a\<lparr>cg_sut_sha := v\<rparr>))
     else if arg = ''--work-dir'' then Some (\<lambda>v a. Inr (a\<lparr>cg_work_dir := Some v\<rparr>))
     else None)"

definition parse_capture_args :: "string list \<Rightarrow> string + capture_args" where
  "parse_capture_args args = and_then (cli_loop capture_flag (\<lambda>_. None) default_capture_args None args) (\<lambda>(ca, path).
     map_ok (\<lambda>p. ca\<lparr>cg_def_path := p\<rparr>) (ok_or path ''capture needs a <def.yaml> path''))"

text \<open>\<open>export\<close> and \<open>import\<close> keep the signal and the output path only.\<close>

record convert_args =
  xg_signal :: string
  xg_out :: string

definition default_convert_args :: convert_args where
  "default_convert_args = \<lparr>xg_signal = ''both'', xg_out = ''-''\<rparr>"

definition import_flag :: "string \<Rightarrow> (string \<Rightarrow> convert_args \<Rightarrow> string + convert_args) option" where
  "import_flag arg = (if arg = ''--out'' then Some (\<lambda>v a. Inr (a\<lparr>xg_out := v\<rparr>)) else None)"

definition export_flag :: "string \<Rightarrow> (string \<Rightarrow> convert_args \<Rightarrow> string + convert_args) option" where
  "export_flag arg = (if arg = ''--signal'' then Some (\<lambda>v a. Inr (a\<lparr>xg_signal := v\<rparr>)) else import_flag arg)"

definition parse_convert_args ::
  "(string \<Rightarrow> (string \<Rightarrow> convert_args \<Rightarrow> string + convert_args) option) \<Rightarrow> string \<Rightarrow> string list
    \<Rightarrow> string + convert_args \<times> string" where
  "parse_convert_args flag missing args = and_then (cli_loop flag (\<lambda>_. None) default_convert_args None args)
     (\<lambda>(xa, path). map_ok (\<lambda>p. (xa, p)) (ok_or path missing))"

section \<open>Boxes\<close>

text \<open>The cells of a run's adapters: per instance those of its target, the fan-out's, the workload's.\<close>

record boxes =
  bx_fc :: "nat \<Rightarrow> fc_cells"
  bx_cold :: "nat \<Rightarrow> json list"
  bx_fanout :: fanout_state
  bx_fio :: "json option"
  bx_wrk :: "string option"
  bx_vsock :: vsock_cells

definition boxes_new :: boxes where
  "boxes_new = \<lparr>bx_fc = (\<lambda>_. fc_cells_new), bx_cold = (\<lambda>_. []), bx_fanout = fanout_new, bx_fio = None,
     bx_wrk = None, bx_vsock = vsock_cells_new\<rparr>"

text \<open>An effect on a part of a state, as an effect on the whole.\<close>

definition zoom :: "('x \<Rightarrow> 'y) \<Rightarrow> ('y \<Rightarrow> 'x \<Rightarrow> 'x) \<Rightarrow> ('y \<Rightarrow> 'r \<times> 'y) \<Rightarrow> 'x \<Rightarrow> 'r \<times> 'x" where
  "zoom get put m x = (case m (get x) of (r, y) \<Rightarrow> (r, put y x))"

definition zoom_target :: "('x \<Rightarrow> 'y) \<Rightarrow> ('y \<Rightarrow> 'x \<Rightarrow> 'x) \<Rightarrow> 'y target \<Rightarrow> 'x target" where
  "zoom_target get put t = \<lparr>tg_version = zoom get put (tg_version t), tg_provision = zoom get put (tg_provision t),
     tg_start = zoom get put (tg_start t), tg_reach_steady = zoom get put (tg_reach_steady t),
     tg_spans = zoom get put (tg_spans t), tg_teardown = zoom get put (tg_teardown t),
     tg_pinning_layout = (\<lambda>x. tg_pinning_layout t (get x)), tg_resident_files = (\<lambda>x. tg_resident_files t (get x)),
     tg_net_attribution = zoom get put (tg_net_attribution t)\<rparr>"

definition zoom_workload :: "('x \<Rightarrow> 'y) \<Rightarrow> ('y \<Rightarrow> 'x \<Rightarrow> 'x) \<Rightarrow> 'y workload \<Rightarrow> 'x workload" where
  "zoom_workload get put l = \<lparr>wl_version = zoom get put (wl_version l), wl_start = zoom get put (wl_start l),
     wl_stop = zoom get put (wl_stop l), wl_report = zoom get put (wl_report l)\<rparr>"

definition boxed_target :: "(boxes \<Rightarrow> 's) \<Rightarrow> ('s \<Rightarrow> boxes \<Rightarrow> boxes) \<Rightarrow> ('w \<times> 's) target \<Rightarrow> ('w \<times> boxes) target" where
  "boxed_target get put = zoom_target (\<lambda>(w, b). (w, get b)) (\<lambda>(w, s) (_, b). (w, put s b))"

definition boxed_workload :: "(boxes \<Rightarrow> 's) \<Rightarrow> ('s \<Rightarrow> boxes \<Rightarrow> boxes) \<Rightarrow> ('w \<times> 's) workload \<Rightarrow> ('w \<times> boxes) workload" where
  "boxed_workload get put = zoom_workload (\<lambda>(w, b). (w, get b)) (\<lambda>(w, s) (_, b). (w, put s b))"

definition plain_target :: "'w target \<Rightarrow> ('w \<times> boxes) target" where
  "plain_target = zoom_target fst (\<lambda>w (_, b). (w, b))"

definition plain_workload :: "'w workload \<Rightarrow> ('w \<times> boxes) workload" where
  "plain_workload = zoom_workload fst (\<lambda>w (_, b). (w, b))"

definition boxed_fanout :: "(('w \<times> boxes) \<times> fanout_state) target \<Rightarrow> ('w \<times> boxes) target" where
  "boxed_fanout = zoom_target (\<lambda>(w, b). ((w, b), bx_fanout b)) (\<lambda>((w, b), s) _. (w, b\<lparr>bx_fanout := s\<rparr>))"

section \<open>Adapters\<close>

text \<open>What the adapters are built from: their effects, the process id, the sockets, and JSON arrays read.\<close>

record ('w, 'v) adapter_env =
  ae_native :: "'w native_env"
  ae_pid :: u32
  ae_vsock :: "('w, 'v) vsock_ops"
  ae_from_list :: "string \<Rightarrow> string + json list"

text \<open>\<open>slot\<close> is the instance's place in the boxes; building a firecracker target reads the clock.\<close>

definition select_target :: "('w, 'v) adapter_env \<Rightarrow> bench_def \<Rightarrow> nat \<Rightarrow> (string, string) bmap \<Rightarrow> bool
    \<Rightarrow> 'w \<Rightarrow> ('w \<times> boxes) target \<times> 'w" where
  "select_target ae d slot vs pin w = (let nv = ae_native ae; pid = ae_pid ae; show = nv_to_text nv;
     name = ad_name (bd_target d); config = ad_config (bd_target d);
     cold = boxed_target (\<lambda>b. bx_cold b slot) (\<lambda>s b. b\<lparr>bx_cold := (bx_cold b)(slot := s)\<rparr>) in
     if name = ''firecracker'' then (case nv_now nv w of (built, w') \<Rightarrow>
       (boxed_target (\<lambda>b. bx_fc b slot) (\<lambda>s b. b\<lparr>bx_fc := (bx_fc b)(slot := s)\<rparr>)
          (fc_target nv (firecracker_target show pid built config vs pin)), w'))
     else if name = ''qemu'' then (cold (qemu_target nv (qemu_of show pid config vs pin)), w)
     else if name = ''cloud-hypervisor'' \<or> name = ''chv'' then (cold (ch_target nv (ch_of show pid config vs pin)), w)
     else if name = ''unikernel'' then (cold (uk_target nv (unikernel_of show pid config vs pin)), w)
     else (plain_target (command_target (nv_shell nv) (ae_from_list ae) (command_set_of (bd_target d) vs)), w))"

text \<open>A count a cell or the target's config may set: at least 1, and 1 when it is not a number.\<close>

definition count_setting :: "(json \<Rightarrow> string) \<Rightarrow> bench_def \<Rightarrow> (string, string) bmap \<Rightarrow> string \<Rightarrow> u32" where
  "count_setting to_text d vs key = max 1 (or_else (Option.bind
     (case bm_get vs key of Some s \<Rightarrow> Some s
      | None \<Rightarrow> (case bm_get (ad_config (bd_target d)) key of
          Some (JString s) \<Rightarrow> Some s | Some other \<Rightarrow> Some (to_text other) | None \<Rightarrow> None))
     parse_u32) 1)"

definition instances_of :: "(json \<Rightarrow> string) \<Rightarrow> bench_def \<Rightarrow> (string, string) bmap \<Rightarrow> u32" where
  "instances_of to_text d vs = count_setting to_text d vs ''instances''"

text \<open>The variables of instance \<open>i\<close>; \<open>i * vcpu\<close> wraps, as a release build does.\<close>

definition instance_vars :: "u32 \<Rightarrow> bool \<Rightarrow> (string, string) bmap \<Rightarrow> nat \<Rightarrow> (string, string) bmap" where
  "instance_vars vcpu pin vs i = (let v = bm_insert ''instance'' (show_u32 (of_nat i)) vs in
     if pin then bm_insert ''cpu_base'' (show_u32 (of_nat i * vcpu)) v else v)"

fun build_instances :: "('w, 'v) adapter_env \<Rightarrow> bench_def \<Rightarrow> (nat \<Rightarrow> (string, string) bmap) \<Rightarrow> bool \<Rightarrow> nat list
    \<Rightarrow> 'w \<Rightarrow> ('w \<times> boxes) target list \<times> 'w" where
  "build_instances ae d vars_of pin [] w = ([], w)"
| "build_instances ae d vars_of pin (i # is) w = (case select_target ae d i (vars_of i) pin w of (t, w1) \<Rightarrow>
     case build_instances ae d vars_of pin is w1 of (ts, w2) \<Rightarrow> (t # ts, w2))"

definition boxed_now :: "('w \<Rightarrow> u64 \<times> 'w) \<Rightarrow> 'w \<times> boxes \<Rightarrow> u64 \<times> 'w \<times> boxes" where
  "boxed_now now = (\<lambda>(w, b). case now w of (t, w') \<Rightarrow> (t, w', b))"

definition build_target :: "('w, 'v) adapter_env \<Rightarrow> bench_def \<Rightarrow> (string, string) bmap \<Rightarrow> bool
    \<Rightarrow> 'w \<Rightarrow> ('w \<times> boxes) target \<times> 'w" where
  "build_target ae d vs pin w = (let nv = ae_native ae; n = instances_of (nv_to_text nv) d vs in
     if n \<le> 1 then select_target ae d 0 vs pin w
     else let vcpu = count_setting (nv_to_text nv) d vs ''vcpu'' in
       case build_instances ae d (instance_vars vcpu pin vs) pin [0..<unat n] w of (inners, w') \<Rightarrow>
         (boxed_fanout (fanout_target (boxed_now (nv_now nv)) inners), w'))"

definition select_workload :: "('w, 'v) adapter_env \<Rightarrow> bench_def \<Rightarrow> (string, string) bmap \<Rightarrow> ('w \<times> boxes) workload" where
  "select_workload ae d vs = (let nv = ae_native ae; show = nv_to_text nv;
     name = ad_name (bd_workload d); config = ad_config (bd_workload d) in
     if name = ''fio'' \<or> starts_with ''fio-'' name
     then boxed_workload bx_fio (\<lambda>s b. b\<lparr>bx_fio := s\<rparr>) (fio_workload nv (fio_of show config vs))
     else if name = ''wrk'' \<or> starts_with ''wrk'' name
     then boxed_workload bx_wrk (\<lambda>s b. b\<lparr>bx_wrk := s\<rparr>) (wrk_workload nv (wrk_of show config vs))
     else if name = ''vsock''
     then boxed_workload bx_vsock (\<lambda>s b. b\<lparr>bx_vsock := s\<rparr>) (vsock_workload (ae_vsock ae) (vsock_of show config vs))
     else plain_workload (command_workload (nv_shell nv) (nv_from_str nv) (command_set_of (bd_workload d) vs)))"

end
