(* ===== verification/Commands.thy ===== *)
theory Commands
  imports Cli
begin

text \<open>
  \<open>crates/orchestrate/src/main.rs\<close>, the subcommands: \<open>run\<close>, \<open>capture\<close>, \<open>inspect\<close>, \<open>export\<close> and
  \<open>import\<close>. A command is a function of the world that gives the exit code; what it prints is an
  effect on the world too. An error in the middle is the message its branch prints before it
  returns 1. Files, processes, the YAML reader, the JSON printer and the clock are \<open>orch_env\<close>.
\<close>

record ('w, 'h, 'v) orch_env =
  oe_adapters :: "('w, 'v) adapter_env"
  oe_process :: "('w, 'h) process_ops"
  oe_channel :: "('w \<times> boxes) channel"
  oe_residency :: "'w residency_ops"
  oe_sys :: "'w sys_ops"
  oe_ids :: "'w id_env"
  oe_read :: "string \<Rightarrow> ('w, string) io"
  oe_write :: "string \<Rightarrow> string \<Rightarrow> ('w, unit) io"
  oe_mkdir :: "string \<Rightarrow> ('w, unit) io"
  oe_parent_of :: "string \<Rightarrow> 'w \<Rightarrow> string option"
  oe_print :: "string \<Rightarrow> 'w \<Rightarrow> 'w"
  oe_eprint :: "string \<Rightarrow> 'w \<Rightarrow> 'w"
  oe_from_yaml :: "string \<Rightarrow> string + bench_def"
  oe_run_from :: "string \<Rightarrow> string + assay_run"
  oe_pretty :: "json \<Rightarrow> string + string"
  oe_show_f64 :: "f64 \<Rightarrow> string"
  oe_launch :: "'w \<Rightarrow> launcher"
  oe_gate_var :: "string option"
  oe_exe_dir :: "string option"
  oe_exists :: "string \<Rightarrow> 'w \<Rightarrow> bool"
  oe_temp_dir :: string

abbreviation oe_native :: "('w, 'h, 'v) orch_env \<Rightarrow> 'w native_env" where
  "oe_native env \<equiv> ae_native (oe_adapters env)"

abbreviation oe_text :: "('w, 'h, 'v) orch_env \<Rightarrow> json \<Rightarrow> string" where
  "oe_text env \<equiv> nv_to_text (oe_native env)"

abbreviation oe_sha :: "('w, 'h, 'v) orch_env \<Rightarrow> string \<Rightarrow> u8 list" where
  "oe_sha env \<equiv> ie_sha (oe_ids env)"

section \<open>Ending a command\<close>

definition println :: "('w, 'h, 'v) orch_env \<Rightarrow> string \<Rightarrow> 'w \<Rightarrow> 'w" where
  "println env s = oe_print env (s @ [newline])"

definition eprintln :: "('w, 'h, 'v) orch_env \<Rightarrow> string \<Rightarrow> 'w \<Rightarrow> 'w" where
  "eprintln env s = oe_eprint env (s @ [newline])"

definition usage_lines :: "string list" where
  "usage_lines = [''usage:'',
     ''  assayist run <def.yaml> [--repeat N] [--a-sut SHA] [--b-sut SHA] [--out DIR] [--duration N] [--allow-ungraded] [--apply-prep]'',
     ''      full A/B pipeline: capture N runs per group per cell, assemble, and gate.'',
     ''      --apply-prep writes host tuning to sysfs (needs root); default observes read-only.'',
     ''  assayist capture <def.yaml> [--duration N] [--out PATH] [--sut-sha SHA] [--work-dir DIR]'',
     concat [''      fire the def'', [CHR 0x27], ''s capture gadgets once and assemble one graded AssayRun.''],
     ''  assayist inspect <def.yaml>'',
     ''      parse, validate, expand a def and observe the host (read-only).'',
     ''  assayist export <run.json> [--signal both|traces|metrics] [--out PATH]'',
     ''      transform an assembled AssayRun into OTLP/JSON.'',
     ''  assayist import <otlp.json> [--out PATH]'',
     ''      transform an OTLP/JSON document into an AssayRun (grade: valid).'']"

definition usage :: "('w, 'h, 'v) orch_env \<Rightarrow> 'w \<Rightarrow> nat \<times> 'w" where
  "usage env w = (64, fold (eprintln env) usage_lines w)"

definition usage_after :: "('w, 'h, 'v) orch_env \<Rightarrow> string \<Rightarrow> 'w \<Rightarrow> nat \<times> 'w" where
  "usage_after env e w = usage env (eprintln env e w)"

definition ending :: "('w, 'h, 'v) orch_env \<Rightarrow> ('w, nat) io \<Rightarrow> 'w \<Rightarrow> nat \<times> 'w" where
  "ending env m w = (case m w of (Inr code, w') \<Rightarrow> (code, w') | (Inl e, w') \<Rightarrow> (1, eprintln env e w'))"

text \<open>The result of a command, to standard output for \<open>-\<close> and to a file otherwise.\<close>

definition emit_json :: "('w, 'h, 'v) orch_env \<Rightarrow> string \<Rightarrow> string \<Rightarrow> json \<Rightarrow> ('w, nat) io" where
  "emit_json env what out doc = io_then (io_context what (io_of (oe_pretty env doc))) (\<lambda>text.
     if out = ''-'' then (\<lambda>w. (Inr 0, println env text w))
     else io_map (\<lambda>_. 0) (io_context (''writing '' @ out) (oe_write env out text)))"

definition read_file :: "('w, 'h, 'v) orch_env \<Rightarrow> string \<Rightarrow> ('w, string) io" where
  "read_file env path = io_context (''reading '' @ path) (oe_read env path)"

section \<open>export and import\<close>

definition export_doc :: "('w, 'h, 'v) orch_env \<Rightarrow> string \<Rightarrow> assay_run \<Rightarrow> u64 \<Rightarrow> json option" where
  "export_doc env signal run now = (
     if signal = ''both'' then Some (export_at (oe_sha env) (oe_text env) run now)
     else if signal = ''traces'' then Some (export_traces (oe_sha env) (oe_text env) run)
     else if signal = ''metrics'' then Some (export_metrics_at run now)
     else None)"

definition export_cmd :: "('w, 'h, 'v) orch_env \<Rightarrow> string list \<Rightarrow> 'w \<Rightarrow> nat \<times> 'w" where
  "export_cmd env args w = (case parse_convert_args export_flag ''export needs a <run.json> path'' args of
     Inl e \<Rightarrow> usage_after env e w
   | Inr (xa, path) \<Rightarrow> (case io_then (read_file env path)
         (\<lambda>text. io_context (''parsing AssayRun from '' @ path) (io_of (oe_run_from env text))) w of
       (Inl e, w1) \<Rightarrow> (1, eprintln env e w1)
     | (Inr run, w1) \<Rightarrow> (case nv_now (oe_native env) w1 of (now, w2) \<Rightarrow>
         (case export_doc env (xg_signal xa) run now of
           None \<Rightarrow> usage_after env (''unknown --signal '' @ quoted (xg_signal xa) @ '' (want both, traces, or metrics)'') w2
         | Some doc \<Rightarrow> ending env (emit_json env ''serialising OTLP'' (xg_out xa) doc) w2))))"

definition import_cmd :: "('w, 'h, 'v) orch_env \<Rightarrow> string list \<Rightarrow> 'w \<Rightarrow> nat \<times> 'w" where
  "import_cmd env args w = (case parse_convert_args import_flag ''import needs an <otlp.json> path'' args of
     Inl e \<Rightarrow> usage_after env e w
   | Inr (xa, path) \<Rightarrow> ending env (io_then (read_file env path) (\<lambda>text.
       io_then (io_context (''parsing OTLP from '' @ path) (io_of (nv_from_str (oe_native env) text))) (\<lambda>doc.
       io_then (io_context ''importing OTLP'' (io_of (import_otlp doc))) (\<lambda>run.
       emit_json env ''serialising run'' (xg_out xa) (run_json run))))) w)"

section \<open>Loading a definition\<close>

definition rejection :: "string list \<Rightarrow> string" where
  "rejection errs = str_join [newline]
     ((''benchmark def rejected at load ('' @ show_nat (length errs) @ '' problem(s)):'') # map (\<lambda>e. ''  - '' @ e) errs)"

definition load_def :: "('w, 'h, 'v) orch_env \<Rightarrow> string \<Rightarrow> ('w, bench_def \<times> string) io" where
  "load_def env path = io_then (read_file env path) (\<lambda>text.
     io_then (io_of (parse_def (oe_from_yaml env) (oe_sha env) text)) (\<lambda>(d, sha).
     case validate_bench d of Inl errs \<Rightarrow> io_err (rejection errs) | Inr _ \<Rightarrow> io_ok (d, sha)))"

abbreviation cells_of :: "('w, 'h, 'v) orch_env \<Rightarrow> bench_def \<Rightarrow> cell list" where
  "cells_of env d \<equiv> expand_cells (oe_sha env) (oe_text env) d"

definition has_knobs :: "host_prep \<Rightarrow> bool" where
  "has_knobs prep \<longleftrightarrow> \<not> json_eq (knobs_value (hp_knobs prep)) (jobj [])"

section \<open>inspect\<close>

fun show_bool :: "bool \<Rightarrow> string" where
  "show_bool True = ''true''"
| "show_bool False = ''false''"

fun grade_debug :: "grade \<Rightarrow> string" where
  "grade_debug Reproducible = ''Reproducible''"
| "grade_debug Valid = ''Valid''"
| "grade_debug Invalid = ''Invalid''"

definition inspect_lines :: "('w, 'h, 'v) orch_env \<Rightarrow> bench_def \<Rightarrow> string \<Rightarrow> string list" where
  "inspect_lines env d sha = (let cells = cells_of env d in
     [''benchmark: '' @ bd_name d, ''benchmark_def_sha: '' @ sha,
      ''target: '' @ ad_name (bd_target d) @ '' '' @ ad_version (bd_target d),
      ''workload: '' @ ad_name (bd_workload d), ''gate mode: '' @ gs_mode (bd_gate d), ''tenancy: '' @ bd_tenancy d,
      ''parameterisation cells: '' @ show_nat (length cells)]
     @ map (\<lambda>c. ''  '' @ take 12 (cell_params_hash c) @ '' -> '' @ oe_text env (cell_params c)) cells
     @ [''capture gadgets: '' @ show_nat (length (bd_capture d))]
     @ map (\<lambda>c. ''  '' @ ce_probe c @ '' via '' @ or_else (ce_gadget c) ''(unspecified)''
         @ '' ['' @ cd_class (ce_cardinality c) @ '']'') (bd_capture d)
     @ [''''])"

definition host_lines :: "('w, 'h, 'v) orch_env \<Rightarrow> host_prep \<Rightarrow> fingerprint \<Rightarrow> string list" where
  "host_lines env prep fp = [''host (observed, not applied):'',
     ''  '' @ fp_hostname fp @ '' / '' @ fp_kernel_version fp @ '' / '' @ fp_os_release fp,
     ''  '' @ fp_cpu_model fp @ '' ('' @ show_u32 (fp_cpu_count_logical fp) @ '' logical, ''
       @ show_u32 (fp_cpu_count_physical fp) @ '' physical cores), smt='' @ show_bool (fp_smt_enabled fp),
     ''  governor='' @ fp_cpu_governor fp @ '' thp='' @ fp_thp_setting fp @ '' kvm='' @ show_bool (fp_kvm_present fp),
     ''  extended fields present: '' @ show_bool (has_extended fp)]
     @ (if has_knobs prep then [''  requested tuning: '' @ oe_text env (knobs_value (hp_knobs prep))
          @ '' | matches now: '' @ show_bool (tuning_consistent fp)] else [])
     @ [''  fingerprint would grade: '' @ grade_debug (if has_extended fp then Reproducible else Valid)
          @ '' (before host prep applies)'']"

definition inspect :: "('w, 'h, 'v) orch_env \<Rightarrow> string \<Rightarrow> 'w \<Rightarrow> nat \<times> 'w" where
  "inspect env path = ending env (io_then (load_def env path) (\<lambda>(d, sha) w. let
     prep = host_prep_of (bd_host_prep d); w1 = fold (println env) (inspect_lines env d sha) w in
     case observe (linux_host (oe_sys env)) prep (bd_tenancy d) w1 of
       (Inr fp, w2) \<Rightarrow> (Inr 0, fold (println env) (host_lines env prep fp) w2)
     | (Inl e, w2) \<Rightarrow> (Inr 0, eprintln env (''host observation skipped: '' @ e) w2)))"

end
