(* ===== verification/RunCmd.thy ===== *)
theory RunCmd
  imports Commands
begin

text \<open>
  \<open>crates/orchestrate/src/main.rs\<close>, the subcommands that measure: \<open>capture\<close>, one capture into
  one run, and \<open>run\<close>, the whole A/B pipeline: host preparation, the matrix of groups, cells
  and repeats, each run driven, assembled and written, and the gate on the two groups.
\<close>

section \<open>The world with the boxes of a run\<close>

text \<open>A run starts with new boxes and drops them at its end.\<close>

definition in_boxes :: "('w \<times> boxes, 'a) io \<Rightarrow> ('w, 'a) io" where
  "in_boxes m w = (case m (w, boxes_new) of (r, w', _) \<Rightarrow> (r, w'))"

definition boxed_runner :: "('w, 'h) runner \<Rightarrow> ('w \<times> boxes, 'h) runner" where
  "boxed_runner rn = \<lparr>rn_spawn = (\<lambda>g. on_inner (rn_spawn rn g)), rn_wait = (\<lambda>g h. on_inner (rn_wait rn g h)),
     rn_kill = (\<lambda>h (w, b). (rn_kill rn h w, b))\<rparr>"

definition boxed_residency :: "'w residency_ops \<Rightarrow> ('w \<times> boxes) residency_ops" where
  "boxed_residency rs = \<lparr>rs_len = (\<lambda>p (w, b). rs_len rs p w), rs_page = rs_page rs,
     rs_maps = (\<lambda>p (w, b). rs_maps rs p w), rs_mincore = (\<lambda>p n (w, b). rs_mincore rs p n w)\<rparr>"

definition run_env_of :: "('w, 'h, 'v) orch_env \<Rightarrow> ('w \<times> boxes) run_env" where
  "run_env_of env = \<lparr>re_shell = (\<lambda>cmd. on_inner (nv_shell (oe_native env) cmd)), re_channel = oe_channel env,
     re_new_id = (\<lambda>(w, b). case new_run_id (oe_ids env) w of (i, w') \<Rightarrow> (i, w', b)),
     re_residency = boxed_residency (oe_residency env)\<rparr>"

text \<open>The versions the tools report of themselves.\<close>

definition query_versions :: "'w target \<Rightarrow> 'w workload \<Rightarrow> 'w \<Rightarrow> adapter_versions \<times> 'w" where
  "query_versions tgt wl w = (case tg_version tgt w of (t, w1) \<Rightarrow> case wl_version wl w1 of (l, w2) \<Rightarrow>
     (\<lparr>av_target = t, av_workload = l\<rparr>, w2))"

section \<open>capture\<close>

definition first_params :: "('w, 'h, 'v) orch_env \<Rightarrow> bench_def \<Rightarrow> json \<times> string" where
  "first_params env d = (case cells_of env d of c # _ \<Rightarrow> (cell_params c, cell_params_hash c)
     | [] \<Rightarrow> (jobj [], params_hash (oe_sha env) (oe_text env) (jobj [])))"

text \<open>Assembling the captured fragments, with the versions of the adapters, and printing the run.\<close>

definition capture_assemble :: "('w, 'h, 'v) orch_env \<Rightarrow> capture_args \<Rightarrow> bench_def \<Rightarrow> string \<Rightarrow> (string, string) bmap
    \<Rightarrow> fingerprint \<Rightarrow> fragment list \<Rightarrow> ('w, nat) io" where
  "capture_assemble env ca d sha vs fp frs w = (let pin = hp_pin_threads (host_prep_of (bd_host_prep d));
     (params, hash) = first_params env d in
     case select_target (oe_adapters env) d 0 vs pin w of (tgt, w1) \<Rightarrow>
     case query_versions tgt (select_workload (oe_adapters env) d vs) (w1, boxes_new) of (versions, w2, _) \<Rightarrow>
     case new_run_id (oe_ids env) w2 of (rid, w3) \<Rightarrow>
       let assay = assemble_run rid (build_identity d params hash sha (cg_sut_sha ca) versions) fp
             (build_gate_context d '''') frs [] in
       emit_json env ''serialising run'' (cg_out ca) (run_json assay)
         (eprintln env (''run '' @ r_run_id assay @ '' graded: '' @ grade_debug (r_grade assay)) w3))"

definition capture_once :: "('w, 'h, 'v) orch_env \<Rightarrow> capture_args \<Rightarrow> ('w, nat) io" where
  "capture_once env ca = io_then (load_def env (cg_def_path ca)) (\<lambda>(d, sha). let
     prep = host_prep_of (bd_host_prep d);
     work_dir = or_else (cg_work_dir ca) (path_join (oe_temp_dir env) (''assayist-'' @ show_u32 (ae_pid (oe_adapters env)))) in
     io_then (io_context ''cannot build fingerprint'' (observe (linux_host (oe_sys env)) prep (bd_tenancy d))) (\<lambda>fp.
     io_then (io_context (''creating work dir '' @ work_dir) (oe_mkdir env work_dir)) (\<lambda>_ w. let
       vs0 = vars (oe_text env) (fst (first_params env d)) (cg_sut_sha ca);
       vs = (case oe_parent_of env (cg_def_path ca) w of Some p \<Rightarrow> bm_insert ''def_dir'' p vs0 | None \<Rightarrow> vs0) in
       io_then (io_of (plan_gadgets (bd_capture d) (cg_duration ca) work_dir vs)) (\<lambda>plan w1.
       io_then (io_context ''capture failed'' (capture plan (subprocess_runner (oe_process env))))
         (capture_assemble env ca d sha vs fp)
         (eprintln env (''firing '' @ show_nat (length plan) @ '' gadget(s) for '' @ show_u64 (cg_duration ca)
            @ ''s (fragments in '' @ work_dir @ '')'') w1)) w)))"

definition capture_cmd :: "('w, 'h, 'v) orch_env \<Rightarrow> string list \<Rightarrow> 'w \<Rightarrow> nat \<times> 'w" where
  "capture_cmd env args w = (case parse_capture_args args of Inl e \<Rightarrow> usage_after env e w
     | Inr ca \<Rightarrow> ending env (capture_once env ca) w)"

section \<open>Host preparation\<close>

text \<open>
  The host is prepared when asked and observed otherwise; the note tells of tuning that is
  recorded only. A prepared host that does not report what was asked refuses the run.
\<close>

definition prep_note :: "('w, 'h, 'v) orch_env \<Rightarrow> host_prep \<Rightarrow> string" where
  "prep_note env prep = ''note: --apply-prep not set, so host prep is observed not applied. requested tuning ''
     @ oe_text env (knobs_value (hp_knobs prep))
     @ '' is recorded but not enforced; runs grade `invalid` if the host does not already match.''"

definition ready_host :: "('w, 'h, 'v) orch_env \<Rightarrow> run_args \<Rightarrow> bench_def \<Rightarrow> ('w, fingerprint) io" where
  "ready_host env ra d w = (let prep = host_prep_of (bd_host_prep d); host = linux_host (oe_sys env);
     w0 = (if has_knobs prep \<and> \<not> rg_apply_prep ra then eprintln env (prep_note env prep) w else w) in
     io_then (io_context ''cannot build fingerprint''
       ((if rg_apply_prep ra then prepare else observe) host prep (bd_tenancy d))) (\<lambda>fp.
     if rg_apply_prep ra \<and> \<not> tuning_consistent fp
     then io_err (''host prep did not take: requested '' @ oe_text env (fp_tuning_requested fp) @ '' but host reports ''
       @ oe_text env (fp_tuning_readback fp) @ ''. refusing the run.'')
     else io_ok fp) w0)"

section \<open>The matrix of runs\<close>

definition has_value :: "string \<Rightarrow> json \<Rightarrow> cell \<Rightarrow> bool" where
  "has_value axis v c = (case jget (cell_params c) axis of Some u \<Rightarrow> json_eq u v | None \<Rightarrow> False)"

text \<open>
  The groups: label, SUT and cells. A compared dimension that is not in the matrix, or has fewer
  than two values, panics; loading a definition excludes both.
\<close>

definition groups_of :: "bench_def \<Rightarrow> run_args \<Rightarrow> cell list \<Rightarrow> (string \<times> string \<times> cell list) list option" where
  "groups_of d ra all = (case bd_compare d of
     None \<Rightarrow> Some [(''a'', rg_a_sut ra, all), (''b'', rg_b_sut ra, all)]
   | Some axis \<Rightarrow> (case bm_get (bd_parameterise d) axis of
       Some (va # vb # _) \<Rightarrow> Some [(''a'', rg_a_sut ra, filter (has_value axis va) all),
         (''b'', rg_b_sut ra, filter (has_value axis vb) all)]
     | _ \<Rightarrow> None))"

record job =
  jb_group :: string
  jb_sut :: string
  jb_ci :: nat
  jb_cell :: cell
  jb_i :: nat

definition cell_jobs :: "nat \<Rightarrow> string \<Rightarrow> string \<Rightarrow> nat \<times> cell \<Rightarrow> job list" where
  "cell_jobs repeats label sut = (\<lambda>(ci, c).
     map (\<lambda>i. \<lparr>jb_group = label, jb_sut = sut, jb_ci = ci, jb_cell = c, jb_i = i\<rparr>) [0..<repeats])"

definition group_jobs :: "nat \<Rightarrow> string \<times> string \<times> cell list \<Rightarrow> job list" where
  "group_jobs repeats = (\<lambda>(label, sut, cs). concat (map (cell_jobs repeats label sut) (enumerate 0 cs)))"

section \<open>One run\<close>

record run_context =
  rc_args :: run_args
  rc_def :: bench_def
  rc_sha :: string
  rc_prep :: host_prep
  rc_def_dir :: string

definition job_name :: "job \<Rightarrow> string" where
  "job_name j = jb_group j @ ''[cell '' @ show_nat (jb_ci j) @ '' #'' @ show_nat (jb_i j) @ '']''"

definition job_dir :: "run_args \<Rightarrow> job \<Rightarrow> string" where
  "job_dir ra j = path_join (path_join (rg_out_dir ra) ''frags'')
     (jb_group j @ ''-'' @ show_nat (jb_ci j) @ ''-'' @ show_nat (jb_i j))"

definition job_file :: "run_args \<Rightarrow> job \<Rightarrow> string" where
  "job_file ra j = path_join (rg_out_dir ra) (jb_group j @ ''_'' @ show_nat (jb_ci j) @ ''_'' @ show_nat (jb_i j) @ ''.json'')"

definition job_vars :: "('w, 'h, 'v) orch_env \<Rightarrow> run_context \<Rightarrow> job \<Rightarrow> (string, string) bmap" where
  "job_vars env rc j = (let vs = vars (oe_text env) (cell_params (jb_cell j)) (jb_sut j) in
     if rc_def_dir rc = '''' then vs else bm_insert ''def_dir'' (rc_def_dir rc) vs)"

definition note_report :: "('w, 'h, 'v) orch_env \<Rightarrow> job \<Rightarrow> json \<Rightarrow> 'w \<times> boxes \<Rightarrow> 'w \<times> boxes" where
  "note_report env j report = (\<lambda>(w, b). if report = JNull then (w, b)
     else (eprintln env (''  workload report '' @ jb_group j @ ''['' @ show_nat (jb_ci j) @ ''#'' @ show_nat (jb_i j)
       @ '']: '' @ oe_text env report) w, b))"

text \<open>The run of a job as it is written: its artifacts under a fingerprint and versions read anew.\<close>

definition assay_of :: "run_context \<Rightarrow> job \<Rightarrow> string \<Rightarrow> adapter_versions \<Rightarrow> fingerprint \<Rightarrow> json option \<Rightarrow> run_artifacts
    \<Rightarrow> assay_run" where
  "assay_of rc j rid versions fp pinning art = (let
     fp' = (case pinning of Some l \<Rightarrow> fp\<lparr>fp_pinning_layout := Some l\<rparr> | None \<Rightarrow> fp);
     ident = build_identity (rc_def rc) (cell_params (jb_cell j)) (cell_params_hash (jb_cell j)) (rc_sha rc) (jb_sut j) versions;
     assay = assemble_run rid ident fp' (build_gate_context (rc_def rc) '''') (ra_fragments art) (ra_spans art) in
     if ra_workload_report art = JNull then assay else assay\<lparr>r_workload_report := Some (ra_workload_report art)\<rparr>)"

definition save_run :: "('w, 'h, 'v) orch_env \<Rightarrow> string \<Rightarrow> assay_run \<Rightarrow> ('w, string) io" where
  "save_run env path assay = io_then (io_context ''serialising run'' (io_of (oe_pretty env (run_json assay)))) (\<lambda>text.
     io_map (\<lambda>_. path) (io_context (''writing '' @ path) (oe_write env path text)))"

definition finish_job :: "('w, 'h, 'v) orch_env \<Rightarrow> run_context \<Rightarrow> job \<Rightarrow> ('w \<times> boxes) target \<Rightarrow> ('w \<times> boxes) workload
    \<Rightarrow> run_artifacts \<Rightarrow> ('w \<times> boxes, string) io" where
  "finish_job env rc j tgt wl art s = (
     case query_versions tgt wl (note_report env j (ra_workload_report art) s) of (versions, s1) \<Rightarrow>
     io_then (on_inner (io_context (''re-reading fingerprint for '' @ job_name j)
       (observe (linux_host (oe_sys env)) (rc_prep rc) (bd_tenancy (rc_def rc))))) (\<lambda>fp s2.
     on_inner (\<lambda>w. case new_run_id (oe_ids env) w of (rid, w') \<Rightarrow>
       save_run env (job_file (rc_args rc) j) (assay_of rc j rid versions fp (tg_pinning_layout tgt s2) art) w') s2) s1)"

definition run_job :: "('w, 'h, 'v) orch_env \<Rightarrow> run_context \<Rightarrow> job \<Rightarrow> ('w, string) io" where
  "run_job env rc j w = (let ra = rc_args rc; d = rc_def rc; vs = job_vars env rc j;
     wl = select_workload (oe_adapters env) d vs in
     case build_target (oe_adapters env) d vs (hp_pin_threads (rc_prep rc)) w of (tgt, w0) \<Rightarrow>
     in_boxes (
       io_then (on_inner (io_context (''creating work dir '' @ job_dir ra j) (oe_mkdir env (job_dir ra j)))) (\<lambda>_.
       io_then (io_of (plan_gadgets (bd_capture d) (rg_duration ra) (job_dir ra j) vs)) (\<lambda>plan.
       io_then (io_context (''run '' @ job_name j @ '' failed'') (\<lambda>s.
         case execute_run (run_env_of env) (boxed_runner (subprocess_runner (oe_process env))) tgt wl plan None s of
           (r, _, s') \<Rightarrow> (r, s')))
         (finish_job env rc j tgt wl)))) w0)"

section \<open>The pipeline\<close>

fun run_jobs :: "('w, 'h, 'v) orch_env \<Rightarrow> run_context \<Rightarrow> job list \<Rightarrow> string list \<times> string list
    \<Rightarrow> ('w, string list \<times> string list) io" where
  "run_jobs env rc [] files w = (Inr files, w)"
| "run_jobs env rc (j # js) (a, b) w = (case run_job env rc j w of (Inl e, w') \<Rightarrow> (Inl e, w')
     | (Inr path, w') \<Rightarrow> run_jobs env rc js (if jb_group j = ''a'' then (a @ [path], b) else (a, b @ [path])) w')"

definition thresholds_of :: "run_args \<Rightarrow> bench_def \<Rightarrow> gate_thresholds" where
  "thresholds_of ra d = (let g = bd_gate d in
     \<lparr>th_p_threshold = or_else (gs_p_threshold g) (f_lit (1 / 100)),
      th_noise_threshold = or_else (gs_noise_threshold g) (f_lit (5 / 100)),
      th_resamples = or_else (gs_resamples g) 10000, th_ignore = gs_ignore g,
      th_allow_ungraded = rg_allow_ungraded ra\<rparr>)"

definition gate_bin_of :: "('w, 'h, 'v) orch_env \<Rightarrow> 'w \<Rightarrow> string" where
  "gate_bin_of env w = resolve_gate_bin (oe_gate_var env) (oe_exe_dir env) (\<lambda>p. oe_exists env p w)"

definition clamp_code :: "int \<Rightarrow> nat" where
  "clamp_code c = nat (max 0 (min 255 c))"

definition report_verdict :: "('w, 'h, 'v) orch_env \<Rightarrow> run_args \<Rightarrow> gate_output \<Rightarrow> ('w, nat) io" where
  "report_verdict env ra g w = (let w1 = (case write_outcome (oe_pretty env) (oe_write env) (rg_out_dir ra) (go_outcome g) w of
       (Inl e, w') \<Rightarrow> eprintln env (''warning: '' @ e) w' | (Inr _, w') \<Rightarrow> w') in
     (Inr (clamp_code (go_exit_code g)),
      eprintln env (''gate verdict: '' @ go_verdict g @ '' (exit '' @ show_int (go_exit_code g) @ '')'') w1))"

definition gate_runs :: "('w, 'h, 'v) orch_env \<Rightarrow> run_args \<Rightarrow> bench_def \<Rightarrow> string list \<times> string list \<Rightarrow> ('w, nat) io" where
  "gate_runs env ra d = (\<lambda>(a, b) w. let
     w0 = eprintln env (''assembled '' @ show_nat (length a) @ '' A runs and '' @ show_nat (length b) @ '' B runs in ''
       @ rg_out_dir ra) w in
     io_then (io_of (run_gate (oe_show_f64 env) (oe_launch env w0) (nv_from_str (oe_native env)) (gate_bin_of env w0)
       (gs_mode (bd_gate d)) a b (thresholds_of ra d))) (report_verdict env ra) w0)"

definition run_matrix :: "('w, 'h, 'v) orch_env \<Rightarrow> run_args \<Rightarrow> bench_def \<Rightarrow> string \<Rightarrow> (string \<times> string \<times> cell list) list
    \<Rightarrow> ('w, string list \<times> string list) io" where
  "run_matrix env ra d sha gs w = run_jobs env
     \<lparr>rc_args = ra, rc_def = d, rc_sha = sha, rc_prep = host_prep_of (bd_host_prep d),
      rc_def_dir = or_else (oe_parent_of env (rg_def_path ra) w) ''''\<rparr>
     (concat (map (group_jobs (unat (rg_repeat ra))) gs)) ([], []) w"

text \<open>101 is the code of a panic.\<close>

definition run_pipeline :: "('w, 'h, 'v) orch_env \<Rightarrow> run_args \<Rightarrow> ('w, nat) io" where
  "run_pipeline env ra = io_then (load_def env (rg_def_path ra)) (\<lambda>(d, sha).
     io_then (ready_host env ra d) (\<lambda>_.
     io_then (io_context (''creating out dir '' @ rg_out_dir ra) (oe_mkdir env (rg_out_dir ra))) (\<lambda>_.
     case groups_of d ra (cells_of env d) of None \<Rightarrow> io_ok 101
     | Some gs \<Rightarrow> io_then (run_matrix env ra d sha gs) (gate_runs env ra d))))"

definition run_cmd :: "('w, 'h, 'v) orch_env \<Rightarrow> string list \<Rightarrow> 'w \<Rightarrow> nat \<times> 'w" where
  "run_cmd env args w = (case parse_run_args args of Inl e \<Rightarrow> usage_after env e w
     | Inr ra \<Rightarrow> ending env (run_pipeline env ra) w)"

section \<open>The program\<close>

definition assayist :: "('w, 'h, 'v) orch_env \<Rightarrow> string list \<Rightarrow> 'w \<Rightarrow> nat \<times> 'w" where
  "assayist env args w = (case args of [] \<Rightarrow> usage env w
     | cmd # rest \<Rightarrow>
       if cmd = ''run'' then run_cmd env rest w
       else if cmd = ''capture'' then capture_cmd env rest w
       else if cmd = ''inspect'' then (case rest of path # _ \<Rightarrow> inspect env path w | [] \<Rightarrow> usage env w)
       else if cmd = ''export'' then export_cmd env rest w
       else if cmd = ''import'' then import_cmd env rest w
       else usage env w)"

end
