(* ===== verification/NativeRun.thy ===== *)
theory NativeRun
  imports NativeWorkload
begin

text \<open>
  What the native adapters guarantee: the tap name of an instance is its own and fits the
  kernel's limit; the shell commands of a bring-up are exactly those of a plan, in its order,
  up to the first that fails; the spans and rows a brought-up Firecracker has; the counts and
  the latency summary of the vsock driver, and that its retry loop returns.
\<close>

section \<open>Tap names\<close>

lemma digit36_inj: "a < 36 \<Longrightarrow> b < 36 \<Longrightarrow> digit36 a = digit36 b \<longleftrightarrow> a = b"
proof -
  have d: "distinct ''0123456789abcdefghijklmnopqrstuvwxyz''" by code_simp
  assume "a < 36" "b < 36"
  then show ?thesis unfolding digit36_def using nth_eq_iff_index_eq [OF d, of a b] by simp
qed

lemma digit36_not_dash: "d < 36 \<Longrightarrow> digit36 d \<noteq> CHR ''-''"
proof -
  assume "d < 36"
  then have "digit36 d \<in> set ''0123456789abcdefghijklmnopqrstuvwxyz''" unfolding digit36_def by (intro nth_mem) simp
  then show ?thesis by auto
qed

lemma digits36_inj: "digits36 n = digits36 m \<Longrightarrow> n = m"
proof (induction n arbitrary: m rule: digits36.induct)
  case (1 n)
  show ?case
  proof (cases "n = 0")
    case True
    then show ?thesis using 1(2) digits36.simps [of n] digits36.simps [of m] by (auto split: if_splits)
  next
    case False
    then have eq: "digit36 (n mod 36) # digits36 (n div 36) = digits36 m"
      using 1(2) digits36.simps [of n] by simp
    then have m: "m \<noteq> 0" using digits36.simps [of m] by (auto split: if_splits)
    then have "digit36 (n mod 36) = digit36 (m mod 36)" "digits36 (n div 36) = digits36 (m div 36)"
      using eq digits36.simps [of m] by simp_all
    then have "n mod 36 = m mod 36" "n div 36 = m div 36"
      using 1(1) [OF False] by (simp_all add: digit36_inj)
    then show ?thesis by (metis div_mult_mod_eq)
  qed
qed

lemma digits36_no_dash: "CHR ''-'' \<notin> set (digits36 n)"
proof (induction n rule: digits36.induct)
  case (1 n)
  have "n mod 36 < 36" by simp
  then have "digit36 (n mod 36) \<noteq> CHR ''-''" by (rule digit36_not_dash)
  then show ?case using 1 by (subst digits36.simps) auto
qed

lemma digits36_length: "n < 36 ^ k \<Longrightarrow> length (digits36 n) \<le> k"
proof (induction k arbitrary: n)
  case 0
  then show ?case by (simp add: digits36.simps)
next
  case (Suc k)
  then have "n div 36 < 36 ^ k" by (simp add: div_less_iff_less_mult mult.commute)
  from Suc.IH [OF this] show ?case by (subst digits36.simps) auto
qed

lemma base36_props:
  "base36 a = base36 b \<longleftrightarrow> a = b" "CHR ''-'' \<notin> set (base36 a)"
  "unat a < 36 ^ k \<Longrightarrow> 0 < k \<Longrightarrow> length (base36 a) \<le> k"
proof -
  have z: "rev (digits36 (unat w)) \<noteq> ''0''" if "w \<noteq> 0" for w :: u64
  proof
    assume "rev (digits36 (unat w)) = ''0''"
    then have "digits36 (unat w) = ''0''" by (metis rev_singleton_conv)
    then have "digit36 (unat w mod 36) = digit36 0" "digits36 (unat w div 36) = digits36 0"
      using that digits36.simps [of "unat w"] digits36.simps [of 0] by (simp_all add: digit36_def unat_eq_zero)
    then have "unat w mod 36 = 0" "unat w div 36 = 0"
      using digits36_inj by (simp_all add: digit36_inj)
    then have "unat w = 0" by (metis add.right_neutral div_mult_mod_eq mult_zero_left)
    then show False using that by (simp add: unat_eq_zero)
  qed
  show "base36 a = base36 b \<longleftrightarrow> a = b"
    using z [of a] z [of b] digits36_inj [of "unat a" "unat b"] by (auto simp: base36_def word_unat_eq_iff)
  show "CHR ''-'' \<notin> set (base36 a)" by (simp add: base36_def digits36_no_dash)
  show "length (base36 a) \<le> k" if "unat a < 36 ^ k" "0 < k"
    using that digits36_length [of "unat a" k] by (simp add: base36_def)
qed

lemma split_at_first: "c \<notin> set a \<Longrightarrow> c \<notin> set a' \<Longrightarrow> a @ c # b = a' @ c # b' \<longleftrightarrow> a = a' \<and> b = b'"
proof (induction a arbitrary: a')
  case Nil
  then show ?case by (cases a') auto
next
  case (Cons x a)
  then show ?case by (cases a') auto
qed

lemma show_dec_length: "0 \<le> n \<Longrightarrow> n < 10 ^ k \<Longrightarrow> 0 < k \<Longrightarrow> length (show_dec n) \<le> k"
proof (induction k arbitrary: n)
  case (Suc k)
  show ?case
  proof (cases "n < 10")
    case True
    then show ?thesis using Suc.prems by (simp add: show_dec.simps)
  next
    case False
    then have "n div 10 < 10 ^ k" "0 \<le> n div 10" using Suc.prems by simp_all
    moreover have "0 < k" using False Suc.prems by (cases k) auto
    ultimately show ?thesis using Suc.IH [of "n div 10"] False by (simp add: show_dec.simps [of n])
  qed
qed simp

lemma tap_name_eq: "tap_name pid inst = tap_name pid' inst' \<longleftrightarrow> pid = pid' \<and> inst = inst'"
proof -
  have up: "uint (ucast p :: u64) = uint p" for p :: u32 by (rule uint_up_ucast) (simp add: is_up)
  have "(ucast pid :: u64) = ucast pid' \<longleftrightarrow> pid = pid'"
    using up [of pid] up [of pid'] by (auto simp: word_uint_eq_iff)
  then show ?thesis
    by (auto simp: tap_name_def split_at_first base36_props dest: u64_codec.enc_inj)
qed

text \<open>Two instances never share a tap: the name determines the whole process id and the
  instance's index. And it fits the kernel's 15 characters for every process id and every index
  below 10000.\<close>

theorem tap_name_own:
  "(tap_name pid inst = tap_name pid' inst') = (pid = pid' \<and> inst = inst')
   \<and> (uint inst < 10000 \<longrightarrow> length (tap_name pid inst) \<le> 15)"
proof
  have up: "uint (ucast p :: u64) = uint p" for p :: u32 by (rule uint_up_ucast) (simp add: is_up)
  show "(tap_name pid inst = tap_name pid' inst') = (pid = pid' \<and> inst = inst')" by (rule tap_name_eq)
  show "uint inst < 10000 \<longrightarrow> length (tap_name pid inst) \<le> 15"
  proof
    assume i: "uint inst < 10000"
    have "unat (ucast pid :: u64) = unat pid" unfolding unat_eq_nat_uint up ..
    moreover have "unat pid < 2 ^ 32" using unsigned_less [of pid] by simp
    ultimately have "unat (ucast pid :: u64) < 36 ^ 7" by simp
    then have "length (base36 (ucast pid)) \<le> 7" by (intro base36_props(3)) simp_all
    moreover have "length (show_u64 inst) \<le> 4" using i by (simp add: show_u64_def show_dec_length)
    ultimately show "length (tap_name pid inst) \<le> 15" by (simp add: tap_name_def)
  qed
qed

theorem tap_name_own_witness: "length (tap_name 4294967295 9999) \<le> 15"
  using tap_name_own [of 4294967295 9999 0 0] by simp

section \<open>The commands of a bring-up\<close>

text \<open>The shell with a log of the command lines it was given.\<close>

definition logged_shell :: "'w shell \<Rightarrow> ('w \<times> string list) shell" where
  "logged_shell sh cmd = (\<lambda>(w, log). case sh cmd w of (r, w') \<Rightarrow> (r, w', log @ [cmd]))"

definition logged_env :: "'w native_env \<Rightarrow> ('w \<times> string list) native_env" where
  "logged_env nv = \<lparr>nv_shell = logged_shell (nv_shell nv),
     nv_now = (\<lambda>(w, log). case nv_now nv w of (t, w') \<Rightarrow> (t, w', log)),
     nv_to_text = nv_to_text nv, nv_from_str = nv_from_str nv\<rparr>"

text \<open>
  An effect issues the commands of a list, in order: a prefix of it when it fails, all of it when
  it succeeds, and then its value is as \<open>P\<close> says.
\<close>

definition issues :: "(('w \<times> string list) \<times> 's, 'a) io \<Rightarrow> string list \<Rightarrow> ('a \<Rightarrow> bool) \<Rightarrow> bool" where
  "issues m cmds P \<longleftrightarrow> (\<forall>w log st r w' log' st'. m ((w, log), st) = (r, (w', log'), st') \<longrightarrow>
     (\<exists>k \<le> length cmds. log' = log @ take k cmds \<and> (\<forall>x. r = Inr x \<longrightarrow> k = length cmds \<and> P x)))"

named_theorems issue_rules

lemma issuesI:
  assumes "\<And>w log st r w' log' st'. m ((w, log), st) = (r, (w', log'), st') \<Longrightarrow>
     \<exists>k \<le> length cmds. log' = log @ take k cmds \<and> (\<forall>x. r = Inr x \<longrightarrow> k = length cmds \<and> P x)"
  shows "issues m cmds P"
  unfolding issues_def using assms by blast

lemma issuesD:
  assumes "issues m cmds P" and "m ((w, l), st) = (r, (w', l'), st')"
  shows "\<exists>k \<le> length cmds. l' = l @ take k cmds \<and> (\<forall>x. r = Inr x \<longrightarrow> k = length cmds \<and> P x)"
  using assms unfolding issues_def by (elim allE impE) assumption+

lemma issues_ok [issue_rules]: "P x \<Longrightarrow> issues (io_ok x) [] P"
  by (auto simp: issues_def io_ok_def)

lemma issues_err [issue_rules]: "issues (io_err e) cmds P"
  by (rule issuesI, rule exI [of _ 0]) (auto simp: io_err_def)

lemma issues_of [issue_rules]: "(\<And>x. r = Inr x \<Longrightarrow> P x) \<Longrightarrow> issues (io_of r) [] P"
  by (auto simp: issues_def io_of_def)

lemma issues_cells [issue_rules]: "P () \<Longrightarrow> issues (on_cells f) [] P"
  by (auto simp: issues_def on_cells_def)

lemma issues_then:
  assumes m: "issues m a P" and f: "\<And>x. P x \<Longrightarrow> issues (f x) b Q"
  shows "issues (io_then m f) (a @ b) Q"
proof (rule issuesI)
  fix w log st r w' log' st' assume run: "io_then m f ((w, log), st) = (r, (w', log'), st')"
  obtain r1 w1 log1 st1 where m1: "m ((w, log), st) = (r1, (w1, log1), st1)"
    by (cases "m ((w, log), st)") auto
  obtain k where k: "k \<le> length a" "log1 = log @ take k a" "\<forall>x. r1 = Inr x \<longrightarrow> k = length a \<and> P x"
    using issuesD [OF m m1] by blast
  note k3 = k(3) [rule_format]
  show "\<exists>k \<le> length (a @ b). log' = log @ take k (a @ b) \<and> (\<forall>x. r = Inr x \<longrightarrow> k = length (a @ b) \<and> Q x)"
  proof (cases r1)
    case (Inl e)
    then show ?thesis using run m1 k(1,2) by (intro exI [of _ k]) (auto simp: io_then_def)
  next
    case (Inr x)
    have fx: "f x ((w1, log1), st1) = (r, (w', log'), st')" using run m1 Inr by (simp add: io_then_def)
    obtain j where "j \<le> length b" "log' = log1 @ take j b" "\<forall>y. r = Inr y \<longrightarrow> j = length b \<and> Q y"
      using issuesD [OF f [OF conjunct2 [OF k3 [OF Inr]]] fx] by blast
    then show ?thesis using k(2) k3 [OF Inr] by (intro exI [of _ "length a + j"]) simp
  qed
qed

lemma issues_inner [issue_rules]: "(\<And>x. P x) \<Longrightarrow> issues (on_inner (logged_shell sh cmd)) [cmd] P"
  by (rule issuesI, rule exI [of _ 1]) (auto simp: on_inner_def logged_shell_def split: prod.splits)

lemma issues_run [issue_rules]: "P () \<Longrightarrow> issues (sh_run (logged_shell sh) cmd) [cmd] P"
  by (rule issuesI, rule exI [of _ 1])
    (auto simp: sh_run_def on_inner_def io_map_def logged_shell_def split: prod.splits)

definition given :: "string option \<Rightarrow> string list" where
  "given c = (case c of Some c \<Rightarrow> if trim c \<noteq> '''' then [c] else [] | None \<Rightarrow> [])"

lemma issues_given [issue_rules]: "P () \<Longrightarrow> issues (run_given (logged_shell sh) c) (given c) P"
  by (auto simp: run_given_def given_def intro: issue_rules split: option.split)

lemma issues_timed:
  assumes "issues f cmds (\<lambda>_. True)" and "P ()"
  shows "issues (timed_step (nv_now (logged_env nv)) push name parent f) cmds P"
proof (rule issuesI)
  fix w log st r w' log' st'
  assume run: "timed_step (nv_now (logged_env nv)) push name parent f ((w, log), st) = (r, (w', log'), st')"
  obtain t w1 where t: "nv_now nv w = (t, w1)" by (cases "nv_now nv w")
  obtain r2 w2 log2 st2 where f2: "f ((w1, log), st) = (r2, (w2, log2), st2)"
    by (cases "f ((w1, log), st)") auto
  obtain t3 w3 where t3: "nv_now nv w2 = (t3, w3)" by (cases "nv_now nv w2")
  obtain k where "k \<le> length cmds" "log2 = log @ take k cmds" "\<forall>x. r2 = Inr x \<longrightarrow> k = length cmds"
    using issuesD [OF assms(1) f2] by blast
  then show "\<exists>k \<le> length cmds. log' = log @ take k cmds \<and> (\<forall>x. r = Inr x \<longrightarrow> k = length cmds \<and> P x)"
    using run assms(2)
    by (cases r2) (auto simp: timed_step_def logged_env_def t f2 t3 intro!: exI [of _ k])
qed

text \<open>The plan of a bring-up, from the adapter's settings.\<close>

definition fc_restore_plan :: "'w native_env \<Rightarrow> firecracker \<Rightarrow> string \<Rightarrow> string \<Rightarrow> string list" where
  "fc_restore_plan nv fc snap mem =
     (case fc_stream_source fc of Some src \<Rightarrow> [fc_launch_stream_cmd fc src mem] | None \<Rightarrow> [])
     @ given (fc_pre_restore fc)
     @ (case fc_stream_source fc of Some src \<Rightarrow> if fc_stream_prefetch fc then [fc_stream_prefetch_cmd fc src] else [] | None \<Rightarrow> [])
     @ (if fc_mem_backend fc = ''Uffd'' then [fc_launch_uffd_cmd (or_else (fc_uffd_handler fc) '''') (fc_uffd_uds fc) mem] else [])
     @ [fc_api_cmd fc ''PUT'' ''/snapshot/load'' (nv_to_text nv (load_body snap
         (if fc_mem_backend fc = ''Uffd'' then backend_json ''Uffd'' (fc_uffd_uds fc)
          else backend_json ''File'' (if fc_stream_source fc = None then mem else fc_stream_dir fc @ ''/mem''))))]"

definition fc_boot_plan :: "'w native_env \<Rightarrow> firecracker \<Rightarrow> string list" where
  "fc_boot_plan nv fc =
     [fc_api_cmd fc ''PUT'' ''/machine-config'' (nv_to_text nv (machine_body fc)),
      fc_api_cmd fc ''PUT'' ''/boot-source'' (nv_to_text nv (boot_body fc)),
      fc_api_cmd fc ''PUT'' ''/drives/rootfs'' (nv_to_text nv (drive_body fc))]
     @ (case fc_tap fc of Some tap \<Rightarrow> [fc_tap_cmd tap, fc_ifindex_cmd tap,
          fc_api_cmd fc ''PUT'' ''/network-interfaces/eth0'' (nv_to_text nv (iface_body fc tap))] | None \<Rightarrow> [])
     @ [fc_api_cmd fc ''PUT'' ''/actions'' start_body]"

definition fc_steady_plan :: "'w native_env \<Rightarrow> firecracker \<Rightarrow> string list" where
  "fc_steady_plan nv fc = given (fc_readiness fc)
     @ (if fc_pin_threads fc then [fc_pin_cmd fc] else [])
     @ (case fc_snapshot_out fc of Some (snap, mem) \<Rightarrow> [fc_api_cmd fc ''PATCH'' ''/vm'' (state_body ''Paused''),
          fc_api_cmd fc ''PUT'' ''/snapshot/create'' (nv_to_text nv (create_body snap mem)),
          fc_api_cmd fc ''PATCH'' ''/vm'' (state_body ''Resumed'')] | None \<Rightarrow> [])"

definition fc_plan :: "'w native_env \<Rightarrow> firecracker \<Rightarrow> string list" where
  "fc_plan nv fc = [fc_launch_cmd fc]
     @ (case fc_from_snapshot fc of Some (snap, mem) \<Rightarrow> fc_restore_plan nv fc snap mem | None \<Rightarrow> fc_boot_plan nv fc)
     @ fc_steady_plan nv fc"

lemma logged_env_simps [simp]:
  "nv_shell (logged_env nv) = logged_shell (nv_shell nv)"
  "nv_to_text (logged_env nv) = nv_to_text nv" "nv_from_str (logged_env nv) = nv_from_str nv"
  by (simp_all add: logged_env_def)

lemma issues_weaken: "issues m cmds P \<Longrightarrow> (\<And>x. P x \<Longrightarrow> Q x) \<Longrightarrow> issues m cmds Q"
  unfolding issues_def by meson

abbreviation unit_ok :: "unit \<Rightarrow> bool" where
  "unit_ok \<equiv> \<lambda>_. True"

lemma issues_api [issue_rules]: "issues (fc_api (logged_env nv) fc verb path body) [fc_api_cmd fc verb path body] unit_ok"
  by (simp add: fc_api_def issues_run)

lemma issues_fc_timed: "issues f cmds unit_ok \<Longrightarrow> issues (fc_timed (logged_env nv) name parent f) cmds unit_ok"
  unfolding fc_timed_def by (rule issues_timed) simp_all

lemma issues_mem_path: "issues (fc_mem_path (logged_env nv) fc mem)
    (case fc_stream_source fc of Some src \<Rightarrow> [fc_launch_stream_cmd fc src mem] | None \<Rightarrow> [])
    (\<lambda>p. p = (if fc_stream_source fc = None then mem else fc_stream_dir fc @ ''/mem''))"
proof (cases "fc_stream_source fc")
  case (Some src)
  have "issues (io_then (sh_run (logged_shell (nv_shell nv)) (fc_launch_stream_cmd fc src mem))
      (\<lambda>_. io_ok (fc_stream_dir fc @ ''/mem''))) ([fc_launch_stream_cmd fc src mem] @ [])
      (\<lambda>p. p = fc_stream_dir fc @ ''/mem'')"
    by (rule issues_then [where P = unit_ok]) (auto intro: issue_rules)
  then show ?thesis by (simp add: fc_mem_path_def Some)
qed (simp add: fc_mem_path_def issues_ok)

lemma issues_prewarm: "issues (fc_prewarm (logged_env nv) fc)
    (case fc_stream_source fc of Some src \<Rightarrow> if fc_stream_prefetch fc then [fc_stream_prefetch_cmd fc src] else [] | None \<Rightarrow> [])
    unit_ok"
  by (auto simp: fc_prewarm_def intro: issue_rules split: option.split)

lemma issues_backend: "issues (fc_backend (logged_env nv) fc mem mem_path)
    (if fc_mem_backend fc = ''Uffd'' then [fc_launch_uffd_cmd (or_else (fc_uffd_handler fc) '''') (fc_uffd_uds fc) mem] else [])
    (\<lambda>b. b = (if fc_mem_backend fc = ''Uffd'' then backend_json ''Uffd'' (fc_uffd_uds fc) else backend_json ''File'' mem_path))"
proof (cases "fc_mem_backend fc = ''Uffd'' \<and> trim (or_else (fc_uffd_handler fc) '''') \<noteq> ''''")
  case True
  then obtain h where h: "fc_uffd_handler fc = Some h" "trim h \<noteq> ''''"
    by (cases "fc_uffd_handler fc") (auto simp: trim_def)
  have "issues (io_then (sh_run (logged_shell (nv_shell nv)) (fc_launch_uffd_cmd h (fc_uffd_uds fc) mem))
      (\<lambda>_. io_ok (backend_json ''Uffd'' (fc_uffd_uds fc)))) ([fc_launch_uffd_cmd h (fc_uffd_uds fc) mem] @ [])
      (\<lambda>b. b = backend_json ''Uffd'' (fc_uffd_uds fc))"
    by (rule issues_then [where P = unit_ok]) (auto intro: issue_rules)
  then show ?thesis using True h by (simp add: fc_backend_def)
next
  case False
  then show ?thesis by (auto simp: fc_backend_def intro: issue_rules split: option.split)
qed

lemma issues_restore: "issues (fc_restore (logged_env nv) fc snap mem) (fc_restore_plan nv fc snap mem) unit_ok"
  unfolding fc_restore_def fc_restore_plan_def logged_env_simps
  by (intro issues_then [OF issues_mem_path] issues_then [OF issues_given [where P = unit_ok]]
      issues_then [OF issues_prewarm] issues_then [OF issues_backend] issues_fc_timed)
    (auto intro: issues_api)

lemma issues_network: "issues (fc_network (logged_env nv) fc)
    (case fc_tap fc of Some tap \<Rightarrow> [fc_tap_cmd tap, fc_ifindex_cmd tap,
       fc_api_cmd fc ''PUT'' ''/network-interfaces/eth0'' (nv_to_text nv (iface_body fc tap))] | None \<Rightarrow> []) unit_ok"
proof (cases "fc_tap fc")
  case (Some tap)
  have "issues (fc_network (logged_env nv) fc) ([fc_tap_cmd tap] @ [fc_ifindex_cmd tap] @ [] @ []
     @ [fc_api_cmd fc ''PUT'' ''/network-interfaces/eth0'' (nv_to_text nv (iface_body fc tap))]) unit_ok"
    unfolding fc_network_def Some option.case logged_env_simps
    by (intro issues_then [OF issues_run [where P = unit_ok]] issues_then [OF issues_inner [where P = "\<lambda>_. True"]]
        issues_then [OF issues_of [where P = "\<lambda>_. True"]] issues_then [OF issues_cells [where P = unit_ok]] issues_api) simp_all
  then show ?thesis using Some by simp
qed (simp add: fc_network_def issues_ok)

lemma issues_steady: "issues (fc_reach_steady (logged_env nv) fc) (fc_steady_plan nv fc) unit_ok"
proof -
  have pin: "issues (fc_pin (logged_env nv) fc) (if fc_pin_threads fc then [fc_pin_cmd fc] else []) unit_ok"
  proof (cases "fc_pin_threads fc")
    case True
    have "issues (fc_pin (logged_env nv) fc) ([fc_pin_cmd fc] @ [] @ []) unit_ok"
      unfolding fc_pin_def logged_env_simps using True
      by (simp only: not_True_eq_False if_False)
        (intro issues_then [OF issues_inner [where P = "\<lambda>_. True"]] issues_then [OF issues_of [where P = "\<lambda>_. True"]] issues_cells; simp)
    then show ?thesis using True by simp
  qed (simp add: fc_pin_def issues_ok)
  have snap: "issues (fc_snapshot (logged_env nv) fc)
      (case fc_snapshot_out fc of Some (snap, mem) \<Rightarrow> [fc_api_cmd fc ''PATCH'' ''/vm'' (state_body ''Paused''),
          fc_api_cmd fc ''PUT'' ''/snapshot/create'' (nv_to_text nv (create_body snap mem)),
          fc_api_cmd fc ''PATCH'' ''/vm'' (state_body ''Resumed'')] | None \<Rightarrow> []) unit_ok"
  proof (cases "fc_snapshot_out fc")
    case (Some sm)
    obtain s m where sm: "sm = (s, m)" by (cases sm)
    have "issues (fc_snapshot (logged_env nv) fc) ([fc_api_cmd fc ''PATCH'' ''/vm'' (state_body ''Paused'')]
        @ [fc_api_cmd fc ''PUT'' ''/snapshot/create'' (nv_to_text nv (create_body s m))]
        @ [fc_api_cmd fc ''PATCH'' ''/vm'' (state_body ''Resumed'')]) unit_ok"
      unfolding fc_snapshot_def Some sm option.case prod.case logged_env_simps
      by (intro issues_then [OF issues_api] issues_then [OF issues_fc_timed [OF issues_api]] issues_api)
    then show ?thesis using Some sm by simp
  qed (simp add: fc_snapshot_def issues_ok)
  show ?thesis unfolding fc_reach_steady_def fc_steady_plan_def logged_env_simps
    by (rule issues_then [OF issues_given [where P = unit_ok]], simp, rule issues_then [OF pin snap])
qed

lemma issues_bring_up: "issues (io_then (fc_provision (logged_env nv) fc) (\<lambda>_. io_then (fc_start (logged_env nv) fc)
    (\<lambda>_. fc_reach_steady (logged_env nv) fc))) (fc_plan nv fc) unit_ok"
proof -
  have boot: "issues (fc_cold_boot (logged_env nv) fc) (butlast (fc_boot_plan nv fc)) unit_ok"
  proof -
    have "issues (fc_cold_boot (logged_env nv) fc)
      ([fc_api_cmd fc ''PUT'' ''/machine-config'' (nv_to_text nv (machine_body fc))]
       @ [fc_api_cmd fc ''PUT'' ''/boot-source'' (nv_to_text nv (boot_body fc))]
       @ [fc_api_cmd fc ''PUT'' ''/drives/rootfs'' (nv_to_text nv (drive_body fc))]
       @ (case fc_tap fc of Some tap \<Rightarrow> [fc_tap_cmd tap, fc_ifindex_cmd tap,
          fc_api_cmd fc ''PUT'' ''/network-interfaces/eth0'' (nv_to_text nv (iface_body fc tap))] | None \<Rightarrow> [])) unit_ok"
      unfolding fc_cold_boot_def logged_env_simps by (intro issues_then [OF issues_api] issues_network)
    then show ?thesis by (simp add: fc_boot_plan_def butlast_append)
  qed
  have last: "fc_boot_plan nv fc = butlast (fc_boot_plan nv fc) @ [fc_api_cmd fc ''PUT'' ''/actions'' start_body]"
    by (simp add: fc_boot_plan_def butlast_append)
  show ?thesis
  proof (cases "fc_from_snapshot fc")
    case None
    have prov: "issues (fc_provision (logged_env nv) fc) ([fc_launch_cmd fc] @ butlast (fc_boot_plan nv fc)) unit_ok"
      unfolding fc_provision_def None option.case logged_env_simps by (rule issues_then [OF issues_run [where P = unit_ok]]) (auto intro: boot)
    have start: "issues (fc_start (logged_env nv) fc) [fc_api_cmd fc ''PUT'' ''/actions'' start_body] unit_ok"
      unfolding fc_start_def None by (simp add: issues_fc_timed issues_api)
    have "fc_plan nv fc = ([fc_launch_cmd fc] @ butlast (fc_boot_plan nv fc))
        @ [fc_api_cmd fc ''PUT'' ''/actions'' start_body] @ fc_steady_plan nv fc"
      using last by (simp add: fc_plan_def None)
    then show ?thesis using issues_then [OF prov issues_then [OF start issues_steady]] by simp
  next
    case (Some sm)
    obtain s m where sm: "sm = (s, m)" by (cases sm)
    have prov: "issues (fc_provision (logged_env nv) fc) ([fc_launch_cmd fc] @ fc_restore_plan nv fc s m) unit_ok"
      unfolding fc_provision_def Some sm option.case prod.case logged_env_simps
      by (rule issues_then [OF issues_run [where P = unit_ok]]) (auto intro: issues_restore)
    have start: "issues (fc_start (logged_env nv) fc) [] unit_ok"
      unfolding fc_start_def Some by (simp add: issues_ok)
    have "fc_plan nv fc = ([fc_launch_cmd fc] @ fc_restore_plan nv fc s m) @ [] @ fc_steady_plan nv fc"
      by (simp add: fc_plan_def Some sm)
    then show ?thesis using issues_then [OF prov issues_then [OF start issues_steady]] by simp
  qed
qed

text \<open>C12: The commands a Firecracker bring-up (provision, start, steady) gives the shell are those
  of its plan, in its order: the API server first, then for a restore the mount, the page-cache
  step, the prewarm and the fault handler before the snapshot is loaded, or for a cold boot the
  configuration and the tap before the start, then readiness, pinning, and pause, snapshot,
  resume. A failure stops it at the command that failed; a success has run the whole plan.\<close>

theorem bring_up_follows_plan:
  assumes "io_then (tg_provision (fc_target (logged_env nv) fc)) (\<lambda>_. io_then (tg_start (fc_target (logged_env nv) fc))
      (\<lambda>_. tg_reach_steady (fc_target (logged_env nv) fc))) ((w, []), st) = (r, (w', issued), st')"
  shows "\<exists>rest. fc_plan nv fc = issued @ rest \<and> (r = Inr () \<longrightarrow> rest = [])"
proof -
  have "io_then (fc_provision (logged_env nv) fc) (\<lambda>_. io_then (fc_start (logged_env nv) fc)
      (\<lambda>_. fc_reach_steady (logged_env nv) fc)) ((w, []), st) = (r, (w', issued), st')"
    using assms by (simp add: fc_target_def)
  from issuesD [OF issues_bring_up this]
  obtain k where "issued = take k (fc_plan nv fc)" "r = Inr () \<longrightarrow> k = length (fc_plan nv fc)" by auto
  then show ?thesis by (intro exI [of _ "drop k (fc_plan nv fc)"]) simp
qed

definition calm_env :: "nat native_env" where
  "calm_env = \<lparr>nv_shell = (\<lambda>cmd n. (Inr ''7'', n + 1)), nv_now = (\<lambda>n. (of_nat n, n)),
     nv_to_text = (\<lambda>_. ''json''), nv_from_str = (\<lambda>_. Inr (JObject [(''vcpu0'', JNumber (PosInt 0))]))\<rparr>"

definition sample_fc :: firecracker where
  "sample_fc = firecracker_target (\<lambda>_. '''') 4242 0 [(''mem_file'', JString ''m''), (''from_snapshot'', JString ''s''),
     (''mem_backend'', JString ''uffd''), (''uffd_handler'', JString ''h {mem_file}'')] [] False"

theorem bring_up_follows_plan_witness:
  "\<exists>w' issued st'. io_then (tg_provision (fc_target (logged_env calm_env) sample_fc))
      (\<lambda>_. io_then (tg_start (fc_target (logged_env calm_env) sample_fc))
      (\<lambda>_. tg_reach_steady (fc_target (logged_env calm_env) sample_fc))) ((0, []), fc_cells_new) = (Inr (), (w', issued), st')
    \<and> issued = fc_plan calm_env sample_fc"
proof -
  let ?m = "io_then (tg_provision (fc_target (logged_env calm_env) sample_fc))
      (\<lambda>_. io_then (tg_start (fc_target (logged_env calm_env) sample_fc))
      (\<lambda>_. tg_reach_steady (fc_target (logged_env calm_env) sample_fc)))"
  have f: "fc_from_snapshot sample_fc = Some (''s'', ''m'') \<and> fc_stream_source sample_fc = None
    \<and> fc_pre_restore sample_fc = None \<and> fc_mem_backend sample_fc = ''Uffd''
    \<and> fc_uffd_handler sample_fc = Some ''h {mem_file}'' \<and> fc_readiness sample_fc = None
    \<and> \<not> fc_pin_threads sample_fc \<and> fc_snapshot_out sample_fc = None"
    by code_simp
  have "trim ''h {mem_file}'' \<noteq> ''''" by code_simp
  then obtain w' issued st' where run: "?m ((0, []), fc_cells_new) = (Inr (), (w', issued), st')"
    by (simp add: fc_target_def fc_provision_def fc_restore_def fc_mem_path_def fc_prewarm_def fc_backend_def
        fc_start_def fc_reach_steady_def fc_pin_def fc_snapshot_def f io_then_def run_given_def io_ok_def sh_run_def
        on_inner_def io_map_def logged_env_def logged_shell_def calm_env_def fc_timed_def timed_step_def fc_api_def)
  from bring_up_follows_plan [OF run] show ?thesis using run by auto
qed

section \<open>The state after a bring-up\<close>

text \<open>What a successful effect does to the cells.\<close>

definition moves :: "('w \<times> 's, 'a) io \<Rightarrow> ('s \<Rightarrow> 's \<Rightarrow> bool) \<Rightarrow> bool" where
  "moves m R \<longleftrightarrow> (\<forall>w st x w' st'. m (w, st) = (Inr x, w', st') \<longrightarrow> R st st')"

lemma moves_then: "moves m R \<Longrightarrow> (\<And>x. moves (f x) S) \<Longrightarrow> moves (io_then m f) (R OO S)"
  unfolding moves_def by (fastforce simp: io_then_Inr relcompp_apply)

lemma moves_keep:
  "moves (io_ok x) (=)" "moves (io_err e) (=)" "moves (io_of s) (=)"
  "moves (sh_run sh cmd) (=)" "moves (on_inner m) (=)" "moves (run_given sh c) (=)"
  by (auto simp: moves_def io_simps sh_run_def on_inner_def io_ok_def run_given_def split: prod.splits option.splits if_splits)

lemma moves_keep_then: "moves m (=) \<Longrightarrow> (\<And>x. moves (f x) S) \<Longrightarrow> moves (io_then m f) S"
  using moves_then [of m "(=)" f S] by (simp add: eq_OO)

lemma moves_cells: "moves (on_cells f) (\<lambda>st st'. st' = f st)"
  by (simp add: moves_def on_cells_def)

lemma moves_timed:
  assumes "moves f (=)"
  shows "moves (timed_step now push name parent f) (\<lambda>st st'. \<exists>a b. st' = push (span_value name parent a b) st)"
proof -
  have "\<exists>a b. st' = push (span_value name parent a b) st"
    if run: "timed_step now push name parent f (w, st) = (Inr x, w', st')" for w st x w' st'
  proof -
    obtain t w1 where t: "now w = (t, w1)" by (cases "now w")
    obtain r w2 st2 where f: "f (w1, st) = (r, w2, st2)" by (cases "f (w1, st)") auto
    obtain u w3 where u: "now w2 = (u, w3)" by (cases "now w2")
    obtain y where y: "r = Inr y" using run by (cases r) (auto simp: timed_step_def t f)
    have "st = st2" using assms f y unfolding moves_def by blast
    moreover have "st' = push (span_value name parent t u) st2" using run by (simp add: timed_step_def t f u y)
    ultimately show ?thesis by blast
  qed
  then show ?thesis by (simp add: moves_def)
qed

lemma moves_api: "moves (fc_api nv fc verb path body) (=)"
  by (simp add: fc_api_def moves_keep)

lemma moves_fc_timed: "moves (fc_timed nv name parent (fc_api nv fc verb path body))
    (\<lambda>st st'. \<exists>a b. st' = fc_push (span_value name parent a b) st)"
  unfolding fc_timed_def by (rule moves_timed [OF moves_api])

lemma moves_restore: "moves (fc_restore nv fc snap mem) (\<lambda>st st'. \<exists>a b. st' = fc_push (span_value ''restore.resume_to_steady'' None a b) st)"
proof -
  have "moves (fc_mem_path nv fc mem) (=)" "moves (fc_prewarm nv fc) (=)" "moves (fc_backend nv fc mem p) (=)" for p
    by (auto simp: fc_mem_path_def fc_prewarm_def fc_backend_def intro!: moves_keep moves_keep_then split: option.split)
  then show ?thesis unfolding fc_restore_def
    by (intro moves_keep_then moves_fc_timed moves_keep)
qed

lemma moves_network: "moves (fc_network nv fc)
    (\<lambda>st st'. \<exists>i. st' = (if fc_tap fc = None then st else st\<lparr>fl_tap_ifindex := Some i\<rparr>))"
proof (cases "fc_tap fc")
  case (Some tap)
  have "moves (fc_network nv fc) (\<lambda>st st'. \<exists>i. st' = st\<lparr>fl_tap_ifindex := Some i\<rparr>)"
  proof -
    have "moves (io_then (on_cells (\<lambda>st. st\<lparr>fl_tap_ifindex := Some i\<rparr>))
       (\<lambda>_. fc_api nv fc ''PUT'' ''/network-interfaces/eth0'' (nv_to_text nv (iface_body fc tap))))
       (\<lambda>st st'. \<exists>i. st' = st\<lparr>fl_tap_ifindex := Some i\<rparr>)" for i
      using moves_then [OF moves_cells moves_api] unfolding moves_def by (fastforce simp: relcompp_apply)
    then show ?thesis unfolding fc_network_def Some option.case
      by (intro moves_keep_then [OF moves_keep(4)] moves_keep_then [OF moves_keep(5)] moves_keep_then [OF moves_keep(3)])
  qed
  then show ?thesis using Some by simp
qed (auto simp: fc_network_def moves_def io_ok_def)

lemma moves_mono: "moves m R \<Longrightarrow> (\<And>a b. R a b \<Longrightarrow> S a b) \<Longrightarrow> moves m S"
  unfolding moves_def by meson

lemma movesD: "moves m R \<Longrightarrow> m (w, st) = (Inr x, w', st') \<Longrightarrow> R st st'"
  unfolding moves_def by (elim allE impE)

definition first_span :: "firecracker \<Rightarrow> string" where
  "first_span fc = (if fc_from_snapshot fc = None then ''boot.vmm_ready'' else ''restore.resume_to_steady'')"

definition has_tap :: "firecracker \<Rightarrow> bool" where
  "has_tap fc \<longleftrightarrow> fc_from_snapshot fc = None \<and> fc_tap fc \<noteq> None"

lemma moves_up: "moves (io_then (fc_provision nv fc) (\<lambda>_. fc_start nv fc))
    (\<lambda>st st'. \<exists>a b i. st' = fc_push (span_value (first_span fc) None a b)
       (if has_tap fc then st\<lparr>fl_tap_ifindex := Some i\<rparr> else st))"
proof (cases "fc_from_snapshot fc")
  case None
  have "moves (fc_provision nv fc) (\<lambda>st st'. \<exists>i. st' = (if fc_tap fc = None then st else st\<lparr>fl_tap_ifindex := Some i\<rparr>))"
    unfolding fc_provision_def None option.case fc_cold_boot_def
    by (intro moves_keep_then [OF moves_keep(4)] moves_keep_then [OF moves_api] moves_network)
  from moves_then [OF this, of "\<lambda>_. fc_start nv fc" "\<lambda>st st'. \<exists>a b. st' = fc_push (span_value ''boot.vmm_ready'' None a b) st"]
  have "moves (io_then (fc_provision nv fc) (\<lambda>_. fc_start nv fc))
    ((\<lambda>st st'. \<exists>i. st' = (if fc_tap fc = None then st else st\<lparr>fl_tap_ifindex := Some i\<rparr>)) OO
     (\<lambda>st st'. \<exists>a b. st' = fc_push (span_value ''boot.vmm_ready'' None a b) st))"
    using None by (simp add: fc_start_def moves_fc_timed)
  then show ?thesis
    by (rule moves_mono) (cases "fc_tap fc"; fastforce simp: None relcompp_apply first_span_def has_tap_def)
next
  case (Some sm)
  obtain s m where sm: "sm = (s, m)" by (cases sm)
  have "moves (fc_provision nv fc) (\<lambda>st st'. \<exists>a b. st' = fc_push (span_value ''restore.resume_to_steady'' None a b) st)"
    unfolding fc_provision_def Some sm option.case prod.case by (intro moves_keep_then [OF moves_keep(4)] moves_restore)
  from moves_then [OF this moves_keep(1) [where x = "()"]]
  have "moves (io_then (fc_provision nv fc) (\<lambda>_. fc_start nv fc))
    ((\<lambda>st st'. \<exists>a b. st' = fc_push (span_value ''restore.resume_to_steady'' None a b) st) OO (=))"
    by (simp add: fc_start_def Some)
  then show ?thesis by (rule moves_mono) (auto simp: Some relcompp_apply first_span_def has_tap_def)
qed

lemma moves_steady: "moves (fc_reach_steady nv fc)
    (\<lambda>st st'. \<exists>a b l. st' = (if fc_snapshot_out fc = None then id else fc_push (span_value ''snapshot.create'' None a b))
       (if fc_pin_threads fc then st\<lparr>fl_pinning := Some l\<rparr> else st))"
proof -
  have pin: "moves (fc_pin nv fc) (\<lambda>st st'. \<exists>l. st' = (if fc_pin_threads fc then st\<lparr>fl_pinning := Some l\<rparr> else st))"
  proof (cases "fc_pin_threads fc")
    case True
    have "moves (on_cells (\<lambda>st. st\<lparr>fl_pinning := Some l\<rparr>)) (\<lambda>st st'. \<exists>l. st' = st\<lparr>fl_pinning := Some l\<rparr>)"
      for l by (auto simp: moves_def on_cells_def)
    then have "moves (fc_pin nv fc) (\<lambda>st st'. \<exists>l. st' = st\<lparr>fl_pinning := Some l\<rparr>)"
      unfolding fc_pin_def using True
      by (simp only: not_True_eq_False if_False) (intro moves_keep_then [OF moves_keep(5)] moves_keep_then [OF moves_keep(3)])
    then show ?thesis using True by simp
  qed (auto simp: fc_pin_def moves_def io_ok_def)
  have snap: "moves (fc_snapshot nv fc)
      (\<lambda>st st'. \<exists>a b. st' = (if fc_snapshot_out fc = None then id else fc_push (span_value ''snapshot.create'' None a b)) st)"
  proof (cases "fc_snapshot_out fc")
    case (Some sm)
    obtain s m where sm: "sm = (s, m)" by (cases sm)
    have "moves (fc_snapshot nv fc) ((\<lambda>st st'. \<exists>a b. st' = fc_push (span_value ''snapshot.create'' None a b) st) OO (=))"
      unfolding fc_snapshot_def Some sm option.case prod.case
      by (intro moves_keep_then [OF moves_api] moves_then [OF moves_fc_timed] moves_api)
    then show ?thesis by (rule moves_mono) (auto simp: Some relcompp_apply)
  qed (auto simp: fc_snapshot_def moves_def io_ok_def)
  have "moves (fc_reach_steady nv fc) ((\<lambda>st st'. \<exists>l. st' = (if fc_pin_threads fc then st\<lparr>fl_pinning := Some l\<rparr> else st)) OO
      (\<lambda>st st'. \<exists>a b. st' = (if fc_snapshot_out fc = None then id else fc_push (span_value ''snapshot.create'' None a b)) st))"
    unfolding fc_reach_steady_def by (intro moves_keep_then [OF moves_keep(6)] moves_then [OF pin snap])
  then show ?thesis
    by (rule moves_mono) (cases "fc_snapshot_out fc"; cases "fc_pin_threads fc"; fastforce simp: relcompp_apply)
qed

lemma span_value_name [simp]: "get_str (span_value name p a b) ''name'' = Some name"
  by (auto simp: span_value_def get_str_def jget_jobj split: option.split)

text \<open>C13: A Firecracker that has come up has the spans of its mode and no other: the boot or the
  restore, then the snapshot if one was asked for. It has a pinning layout exactly when pinning
  was asked for, and an attribution row exactly when it booted cold with a tap: its own tap and
  MAC, and never one for a restored VM.\<close>

theorem bring_up_records:
  assumes "tg_provision (fc_target nv fc) (w, fc_cells_new) = (Inr (), s1)"
    and "tg_start (fc_target nv fc) s1 = (Inr (), s2)"
    and "tg_reach_steady (fc_target nv fc) s2 = (Inr (), (w3, st))"
  shows "map (\<lambda>s. get_str s ''name'') (fl_spans st) =
      map Some ([first_span fc] @ (if fc_snapshot_out fc = None then [] else [''snapshot.create'']))
    \<and> (fl_pinning st \<noteq> None) = fc_pin_threads fc
    \<and> map (\<lambda>r. (na_tap r, na_guest_mac r)) (fc_net_attribution fc st) =
      (if has_tap fc then [(the (fc_tap fc), fc_guest_mac fc)] else [])"
proof -
  obtain w2 st2 where s2: "s2 = (w2, st2)" by (cases s2)
  have up: "io_then (fc_provision nv fc) (\<lambda>_. fc_start nv fc) (w, fc_cells_new) = (Inr (), (w2, st2))"
    using assms(1,2) s2 by (simp add: fc_target_def io_then_def)
  obtain a b i where st2: "st2 = fc_push (span_value (first_span fc) None a b)
       (if has_tap fc then fc_cells_new\<lparr>fl_tap_ifindex := Some i\<rparr> else fc_cells_new)"
    using movesD [OF moves_up up] by blast
  have steady: "fc_reach_steady nv fc (w2, st2) = (Inr (), (w3, st))" using assms(3) s2 by (simp add: fc_target_def)
  obtain c d l where st: "st = (if fc_snapshot_out fc = None then id else fc_push (span_value ''snapshot.create'' None c d))
       (if fc_pin_threads fc then st2\<lparr>fl_pinning := Some l\<rparr> else st2)"
    using movesD [OF moves_steady steady] by blast
  show ?thesis unfolding st st2
    by (auto simp: fc_cells_new_def fc_net_attribution_def has_tap_def split: option.split)
qed

definition sample_cold :: firecracker where
  "sample_cold = firecracker_target (\<lambda>_. '''') 4242 0 [(''network'', JString ''tap''), (''snapshot_mem'', JString ''m''),
     (''snapshot_out'', JString ''s'')] [(''instance'', ''3'')] True"

theorem bring_up_records_witness:
  "\<exists>w3 st. map (\<lambda>s. get_str s ''name'') (fl_spans st) = [Some ''boot.vmm_ready'', Some ''snapshot.create'']
     \<and> fl_pinning st \<noteq> None
     \<and> map (\<lambda>r. (na_tap r, na_guest_mac r)) (fc_net_attribution sample_cold st) = [(''asy39u-3'', ''02:00:00:00:00:03'')]
     \<and> tg_teardown (fc_target calm_env sample_cold) (w3, st) = (Inr (), (w3 + 2, st))"
proof -
  have f1: "fc_from_snapshot sample_cold = None" by code_simp
  have f2: "fc_tap sample_cold = Some ''asy39u-3''" by code_simp
  have f3: "fc_guest_mac sample_cold = ''02:00:00:00:00:03''" by code_simp
  have f4: "fc_readiness sample_cold = None" by code_simp
  have f5: "fc_pin_threads sample_cold" by code_simp
  have f6: "fc_snapshot_out sample_cold = Some (''s'', ''m'')" by code_simp
  note f = f1 f2 f3 f4 f5 f6
  have i: "parse_ifindex tap ''7'' = Inr 7" for tap
  proof -
    have "parse_u32 (trim ''7'') = Some 7" by code_simp
    then show ?thesis by (simp add: parse_ifindex_def)
  qed
  have l: "pin_layout calm_env out = Inr (JObject [(''vcpu0'', JNumber (PosInt 0))])" for out
    by (simp add: pin_layout_def calm_env_def)
  note op_defs = io_then_def run_given_def io_ok_def io_of_def sh_run_def on_inner_def on_cells_def io_map_def calm_env_def
    fc_timed_def timed_step_def fc_api_def
  obtain s1 where 1: "tg_provision (fc_target calm_env sample_cold) (0, fc_cells_new) = (Inr (), s1)"
    by (simp add: fc_target_def fc_provision_def fc_cold_boot_def fc_network_def f op_defs i)
  obtain s2 where 2: "tg_start (fc_target calm_env sample_cold) s1 = (Inr (), s2)"
    by (cases s1) (simp add: fc_target_def fc_start_def f op_defs)
  obtain w3 st where 3: "tg_reach_steady (fc_target calm_env sample_cold) s2 = (Inr (), (w3, st))"
    using l by (cases s2) (simp add: fc_target_def fc_reach_steady_def fc_pin_def fc_snapshot_def f op_defs)
  have "tg_teardown (fc_target calm_env sample_cold) (w3, st) = (Inr (), (w3 + 2, st))"
    by (simp add: fc_target_def fc_teardown_def f op_defs io_ignore_def)
  then show ?thesis using bring_up_records [OF 1 2 3] f
    by (intro exI [of _ w3] exI [of _ st]) (simp add: first_span_def has_tap_def)
qed

end
