(* ===== verification/RunMatrix.thy ===== *)
theory RunMatrix
  imports RunCmd NativeRun
begin

text \<open>
  What the \<open>run\<close> command guarantees of its A/B comparison: matched groups, one file per job,
  no gate before the whole matrix is complete, a host that took its tuning, and concurrent
  instances that do not share a resource.
\<close>

section \<open>Lemmas: the groups\<close>

lemma filter_product_lists:
  "p < length vss \<Longrightarrow> filter (\<lambda>c. R (c ! p)) (product_lists vss) = product_lists (vss[p := filter R (vss ! p)])"
proof (induction vss arbitrary: p)
  case (Cons xs vss)
  show ?case
  proof (cases p)
    case 0
    have "filter (\<lambda>c. R (c ! 0)) (concat (map (\<lambda>x. map (Cons x) cs) ys))
        = concat (map (\<lambda>x. map (Cons x) cs) (filter R ys))" for ys and cs :: "'a list list"
      by (induction ys) (auto simp: filter_map comp_def)
    then show ?thesis using 0 by simp
  next
    case (Suc q)
    then have "filter (\<lambda>c. R (c ! q)) (product_lists vss) = product_lists (vss[q := filter R (vss ! q)])"
      using Cons by simp
    then have "filter (\<lambda>c. R (c ! Suc q)) (map (Cons x) (product_lists vss))
        = map (Cons x) (product_lists (vss[q := filter R (vss ! q)]))" for x
      by (simp add: filter_map comp_def)
    then show ?thesis using Suc by (simp add: filter_concat comp_def)
  qed
qed simp

lemma product_lists_swap:
  "p < length vss \<Longrightarrow> product_lists (vss[p := [y]]) = map (\<lambda>c. c[p := y]) (product_lists (vss[p := [x]]))"
proof (induction vss arbitrary: p)
  case (Cons xs vss)
  then show ?case by (cases p) (auto simp: map_concat comp_def)
qed simp

lemma product_lists_nth:
  assumes "c \<in> set (product_lists vss)" and "p < length vss" and "vss ! p = [x]"
  shows "c ! p = x"
proof -
  have "list_all2 (\<lambda>y ys. y \<in> set ys) c vss" using assms(1) by (simp add: product_lists_set)
  then have "c ! p \<in> set (vss ! p)" using assms(2) by (simp add: list_all2_conv_all_nth)
  then show ?thesis using assms(3) by simp
qed

lemma cell_of_get:
  assumes "bm_inv axes" and "length combo = length axes"
  shows "jget (cell_params (cell_of sha tt axes combo)) k = map_of (zip (map fst axes) combo) k"
  using cell_get [OF bm.keys_distinct [OF assms(1)] assms(2)] by (simp add: cell_of_def Let_def)

lemma cell_of_axis:
  assumes "bm_inv axes" and "length combo = length axes" and "p < length axes"
  shows "jget (cell_params (cell_of sha tt axes combo)) (fst (axes ! p)) = Some (combo ! p)"
proof -
  have "map_of (zip (map fst axes) combo) (map fst axes ! p) = Some (combo ! p)"
    using bm.keys_distinct [OF assms(1)] assms(2,3) by (intro map_of_zip_nth) auto
  then show ?thesis using cell_of_get [OF assms(1,2)] assms(3) by simp
qed

lemma map_of_zip_update:
  assumes "p < length ks" and "ks ! p \<noteq> k" and "length c = length ks"
  shows "map_of (zip ks (c[p := v])) k = map_of (zip ks c) k"
  using assms
proof (induction ks arbitrary: c p)
  case (Cons x ks)
  obtain y ys where c: "c = y # ys" using Cons.prems(3) by (cases c) auto
  show ?case
  proof (cases p)
    case 0
    then show ?thesis using Cons.prems(2) c by simp
  next
    case (Suc q)
    then show ?thesis using Cons.IH [of q ys] Cons.prems c by simp
  qed
qed simp

text \<open>The cells that have a value of an axis are the expansion with the axis cut down to it.\<close>

lemma cells_with_value:
  assumes "bm_inv (bd_parameterise d)" and "p < length (bd_parameterise d)"
    and "bd_parameterise d ! p = (axis, vs)"
  shows "filter (has_value axis v) (expand_cells sha tt d) = map (cell_of sha tt (bd_parameterise d))
    (product_lists ((map snd (bd_parameterise d))[p := filter (\<lambda>u. json_eq u v) vs]))"
proof -
  let ?ax = "bd_parameterise d" and ?R = "\<lambda>u. json_eq u v"
  have has: "has_value axis v (cell_of sha tt ?ax c) = ?R (c ! p)" if "c \<in> set (product_lists (map snd ?ax))" for c
  proof -
    have "length c = length ?ax" using in_set_product_lists_length [OF that] by simp
    then show ?thesis using cell_of_axis [OF assms(1) _ assms(2), of c sha tt] assms(3) by (simp add: has_value_def)
  qed
  have "filter (has_value axis v) (expand_cells sha tt d)
      = map (cell_of sha tt ?ax) (filter (\<lambda>c. has_value axis v (cell_of sha tt ?ax c)) (product_lists (map snd ?ax)))"
    by (simp add: expand_cells_def combos_product filter_map comp_def)
  also have "filter (\<lambda>c. has_value axis v (cell_of sha tt ?ax c)) (product_lists (map snd ?ax))
      = filter (\<lambda>c. ?R (c ! p)) (product_lists (map snd ?ax))"
    by (rule filter_cong) (simp_all add: has)
  also have "\<dots> = product_lists ((map snd ?ax)[p := filter ?R vs])"
    using filter_product_lists [of p "map snd ?ax" ?R] assms(2,3) by simp
  finally show ?thesis .
qed

text \<open>A validated comparison has its axis in the matrix, with two values.\<close>

lemma compare_axis:
  assumes "validate_bench d = Inr ()" and "bd_compare d = Some axis"
  obtains p va vb where "p < length (bd_parameterise d)" and "bd_parameterise d ! p = (axis, [va, vb])"
    and "bm_get (bd_parameterise d) axis = Some [va, vb]"
proof -
  have "compare_problems d = []" using validate_bench_problems [of d] assms(1) by simp
  then obtain vs where get: "bm_get (bd_parameterise d) axis = Some vs" and "length vs = 2"
    using assms(2) by (auto simp: compare_problems_def split: option.splits if_splits)
  then obtain va vb where vs: "vs = [va, vb]" by (auto simp: length_Suc_conv numeral_2_eq_2)
  from bm_get_Some_mem [OF get] obtain p where "p < length (bd_parameterise d)" "bd_parameterise d ! p = (axis, vs)"
    by (metis in_set_conv_nth)
  then show ?thesis using that get vs by simp
qed

section \<open>Properties: matched groups\<close>

text \<open>A cell of the matrix has the one value of the compared axis or the other.\<close>

lemma has_either_value:
  assumes "bm_inv (bd_parameterise d)" and p: "p < length (bd_parameterise d)" "bd_parameterise d ! p = (axis, [va, vb])"
    and "json_eq va va" and "json_eq vb vb" and "\<not> json_eq va vb" and "\<not> json_eq vb va"
    and "x \<in> set (expand_cells sha tt d)"
  shows "has_value axis vb x \<longleftrightarrow> \<not> has_value axis va x"
proof -
  let ?ax = "bd_parameterise d"
  obtain c where c: "c \<in> set (product_lists (map snd ?ax))" "x = cell_of sha tt ?ax c"
    using assms(8) by (auto simp: expand_cells_def combos_product)
  have l: "length c = length ?ax" using in_set_product_lists_length [OF c(1)] by simp
  have all: "list_all2 (\<lambda>y ys. y \<in> set ys) c (map snd ?ax)" using c(1) by (simp add: product_lists_set)
  have "c ! p \<in> set (map snd ?ax ! p)" using list_all2_nthD [OF all] l p(1) by simp
  then have "c ! p = va \<or> c ! p = vb" using p by simp
  then show ?thesis using cell_of_axis [OF assms(1) l p(1), of sha tt] p(2) c(2) assms(4-7)
    by (auto simp: has_value_def)
qed

text \<open>Two cells that differ in the compared axis alone.\<close>

lemma cell_pair:
  assumes "bm_inv ax" and p: "p < length ax" "ax ! p = (axis, vs)" and c: "length c = length ax" "c ! p = va"
  shows "jget (cell_params (cell_of sha tt ax c)) axis = Some va
    \<and> jget (cell_params (cell_of sha tt ax (c[p := vb]))) axis = Some vb
    \<and> (\<forall>k. k \<noteq> axis \<longrightarrow> jget (cell_params (cell_of sha tt ax c)) k = jget (cell_params (cell_of sha tt ax (c[p := vb]))) k)"
proof (intro conjI allI impI)
  show "jget (cell_params (cell_of sha tt ax c)) axis = Some va"
    using cell_of_axis [OF assms(1) c(1) p(1), of sha tt] p(2) c(2) by simp
  show "jget (cell_params (cell_of sha tt ax (c[p := vb]))) axis = Some vb"
    using cell_of_axis [OF assms(1) _ p(1), of "c[p := vb]" sha tt] p c(1) by simp
  fix k assume "k \<noteq> axis"
  then show "jget (cell_params (cell_of sha tt ax c)) k = jget (cell_params (cell_of sha tt ax (c[p := vb]))) k"
    using map_of_zip_update [of p "map fst ax" k c vb] cell_of_get [OF assms(1), of c sha tt k]
      cell_of_get [OF assms(1), of "c[p := vb]" sha tt k] c(1) p by simp
qed



section \<open>Lemmas: the files of the matrix\<close>

lemma on_inner_Inr [io_simps]: "on_inner m s = (Inr x, s') \<longleftrightarrow> (\<exists>w'. m (fst s) = (Inr x, w') \<and> s' = (w', snd s))"
  by (cases s) (auto simp: on_inner_def split: prod.splits)

lemma in_boxes_Inr [io_simps]: "in_boxes m w = (Inr x, w') \<longleftrightarrow> (\<exists>b. m (w, boxes_new) = (Inr x, (w', b)))"
  by (auto simp: in_boxes_def split: prod.splits)

lemma save_run_path: "save_run env path assay w = (Inr p, w') \<Longrightarrow> p = path"
  by (auto simp: save_run_def io_simps)

lemma finish_job_path: "finish_job env rc j tgt wl art s = (Inr p, s') \<Longrightarrow> p = job_file (rc_args rc) j"
  by (auto simp: finish_job_def io_simps prod.case_eq_if dest: save_run_path)

lemma run_job_path: "run_job env rc j w = (Inr path, w') \<Longrightarrow> path = job_file (rc_args rc) j"
  by (auto simp: run_job_def Let_def io_simps prod.case_eq_if dest: finish_job_path)

lemma run_jobs_files:
  "run_jobs env rc js (a, b) w = (Inr (a', b'), w') \<Longrightarrow>
     a' = a @ map (job_file (rc_args rc)) (filter (\<lambda>j. jb_group j = ''a'') js)
     \<and> b' = b @ map (job_file (rc_args rc)) (filter (\<lambda>j. jb_group j \<noteq> ''a'') js)"
proof (induction js arbitrary: a b w)
  case (Cons j js)
  obtain r w1 where r: "run_job env rc j w = (r, w1)" by (cases "run_job env rc j w")
  obtain path where path: "r = Inr path" using Cons.prems r by (cases r) auto
  have "path = job_file (rc_args rc) j" using run_job_path r path by metis
  then show ?case
    using Cons.prems Cons.IH [of "a @ [path]" b w1] Cons.IH [of a "b @ [path]" w1] r path
    by (cases "jb_group j = ''a''") auto
qed simp

text \<open>The jobs of a group, as pairs of cell and repeat.\<close>

lemma group_jobs_nth:
  "length (group_jobs n (g, sut, cs)) = n * length cs"
  "j \<in> set (group_jobs n (g, sut, cs)) \<Longrightarrow> jb_group j = g"
proof -
  have "length (concat (map (cell_jobs n g sut) (enumerate k cs))) = n * length cs" for k
    by (induction cs arbitrary: k) (simp_all add: cell_jobs_def)
  then show "length (group_jobs n (g, sut, cs)) = n * length cs" by (simp add: group_jobs_def)
  show "j \<in> set (group_jobs n (g, sut, cs)) \<Longrightarrow> jb_group j = g"
    by (auto simp: group_jobs_def cell_jobs_def)
qed

lemma group_jobs_distinct: "distinct (map (\<lambda>j. (jb_ci j, jb_i j)) (group_jobs n (g, sut, cs)))"
proof -
  have "distinct (map (\<lambda>j. (jb_ci j, jb_i j)) (concat (map (cell_jobs n g sut) (enumerate k cs))))" for k
  proof (induction cs arbitrary: k)
    case (Cons c cs)
    let ?f = "\<lambda>j. (jb_ci j, jb_i j)"
    let ?rest = "concat (map (cell_jobs n g sut) (enumerate (Suc k) cs))"
    have head: "map ?f (cell_jobs n g sut (k, c)) = map (Pair k) [0..<n]" by (simp add: cell_jobs_def comp_def)
    have "distinct (map (Pair k) [0..<n])" by (simp add: distinct_map inj_on_def)
    moreover have "\<forall>j \<in> set ?rest. jb_ci j \<noteq> k" by (auto simp: cell_jobs_def in_set_enumerate_eq)
    then have "set (map (Pair k) [0..<n]) \<inter> set (map ?f ?rest) = {}" by auto
    ultimately show ?case using Cons.IH [of "Suc k"] head by simp
  qed simp
  then show ?thesis by (simp add: group_jobs_def)
qed

lemma no_underscore: "CHR ''_'' \<notin> set (show_nat n)"
  using show_dec_digits [of "int n"] by (auto simp: show_nat_def list_all_iff is_ascii_digit_def)

lemma no_dot: "CHR ''.'' \<notin> set (show_nat n)"
  using show_dec_digits [of "int n"] by (auto simp: show_nat_def list_all_iff is_ascii_digit_def)

lemma show_nat_eq: "show_nat m = show_nat n \<longleftrightarrow> m = n"
  by (simp add: show_nat_def show_dec_inj)

lemma path_join_eq: "path_join d x = path_join d y \<longleftrightarrow> x = y"
  by (simp add: path_join_def)

lemma job_file_eq:
  assumes "jb_group j \<in> {''a'', ''b''}" and "jb_group k \<in> {''a'', ''b''}"
  shows "job_file ra j = job_file ra k \<longleftrightarrow> jb_group j = jb_group k \<and> jb_ci j = jb_ci k \<and> jb_i j = jb_i k"
  using assms by (auto simp: job_file_def path_join_eq split_at_first no_underscore no_dot show_nat_eq)

lemma job_dir_eq:
  assumes "jb_group j \<in> {''a'', ''b''}" and "jb_group k \<in> {''a'', ''b''}"
  shows "job_dir ra j = job_dir ra k \<longleftrightarrow> jb_group j = jb_group k \<and> jb_ci j = jb_ci k \<and> jb_i j = jb_i k"
proof -
  have "CHR ''-'' \<notin> set (show_nat n)" for n
    using show_dec_digits [of "int n"] by (auto simp: show_nat_def list_all_iff is_ascii_digit_def)
  then show ?thesis
    using assms by (auto simp: job_dir_def path_join_eq split_at_first show_nat_eq)
qed

lemma groups_labels:
  assumes "groups_of d ra all = Some gs"
  obtains ca cb where "gs = [(''a'', rg_a_sut ra, ca), (''b'', rg_b_sut ra, cb)]"
  using assms by (auto simp: groups_of_def split: option.splits list.splits)

lemma matrix_files:
  assumes "run_matrix env ra d sha [(''a'', sa, ca), (''b'', sb, cb)] w = (Inr (a, b), w')"
  shows "a = map (job_file ra) (group_jobs (unat (rg_repeat ra)) (''a'', sa, ca))
    \<and> b = map (job_file ra) (group_jobs (unat (rg_repeat ra)) (''b'', sb, cb))"
proof -
  let ?ja = "group_jobs (unat (rg_repeat ra)) (''a'', sa, ca)" and ?jb = "group_jobs (unat (rg_repeat ra)) (''b'', sb, cb)"
  have la: "filter (\<lambda>j. jb_group j = ''a'') ?ja = ?ja" "filter (\<lambda>j. jb_group j \<noteq> ''a'') ?ja = []"
    and lb: "filter (\<lambda>j. jb_group j = ''a'') ?jb = []" "filter (\<lambda>j. jb_group j \<noteq> ''a'') ?jb = ?jb"
    using group_jobs_nth(2) by (fastforce intro: filter_True filter_False)+
  show ?thesis using run_jobs_files [OF assms [unfolded run_matrix_def]] la lb by simp
qed

section \<open>Properties: the matrix of runs\<close>

text \<open>C7: A matrix that completes hands the gate one file per job, in order: each group has as
  many runs as it has cells times the repeats, no two of them share a file or a directory of
  fragments, and each file names its group, cell and repeat.\<close>

theorem matrix_complete:
  assumes "groups_of d ra all = Some gs" and "run_matrix env ra d sha gs w = (Inr (a, b), w')"
  shows "\<exists>ja jb. a = map (job_file ra) ja \<and> b = map (job_file ra) jb
    \<and> ja @ jb = concat (map (group_jobs (unat (rg_repeat ra))) gs)
    \<and> [length ja, length jb] = map (\<lambda>(label, sut, cs). unat (rg_repeat ra) * length cs) gs
    \<and> distinct (a @ b) \<and> distinct (map (job_dir ra) (ja @ jb))"
proof -
  obtain ca cb where gs: "gs = [(''a'', rg_a_sut ra, ca), (''b'', rg_b_sut ra, cb)]"
    using groups_labels [OF assms(1)] by metis
  define ja where "ja = group_jobs (unat (rg_repeat ra)) (''a'', rg_a_sut ra, ca)"
  define jb where "jb = group_jobs (unat (rg_repeat ra)) (''b'', rg_b_sut ra, cb)"
  have files: "a = map (job_file ra) ja" "b = map (job_file ra) jb"
    using matrix_files [OF assms(2) [unfolded gs]] by (simp_all add: ja_def jb_def)
  have lab: "\<forall>j \<in> set ja. jb_group j = ''a''" "\<forall>j \<in> set jb. jb_group j = ''b''"
    using group_jobs_nth(2) by (fastforce simp: ja_def jb_def)+
  have dis: "distinct (map (\<lambda>j. (jb_group j, jb_ci j, jb_i j)) (ja @ jb))"
  proof -
    have "distinct (map (\<lambda>j. (jb_ci j, jb_i j)) ja)" "distinct (map (\<lambda>j. (jb_ci j, jb_i j)) jb)"
      unfolding ja_def jb_def by (rule group_jobs_distinct)+
    then show ?thesis using lab by (auto simp: distinct_map inj_on_def)
  qed
  have transfer: "distinct (map f (ja @ jb))"
    if "\<And>j k. jb_group j \<in> {''a'', ''b''} \<Longrightarrow> jb_group k \<in> {''a'', ''b''} \<Longrightarrow>
      f j = f k \<longleftrightarrow> jb_group j = jb_group k \<and> jb_ci j = jb_ci k \<and> jb_i j = jb_i k" for f :: "job \<Rightarrow> string"
  proof -
    have "inj_on f (set (ja @ jb))"
    proof (rule inj_onI)
      fix j k assume jk: "j \<in> set (ja @ jb)" "k \<in> set (ja @ jb)" "f j = f k"
      then have "jb_group j \<in> {''a'', ''b''}" "jb_group k \<in> {''a'', ''b''}" using lab by auto
      then have "(jb_group j, jb_ci j, jb_i j) = (jb_group k, jb_ci k, jb_i k)" using that jk(3) by simp
      then show "j = k" using dis jk(1,2) unfolding distinct_map inj_on_def by blast
    qed
    then show ?thesis using dis unfolding distinct_map by blast
  qed
  have "distinct (map (job_file ra) (ja @ jb))" "distinct (map (job_dir ra) (ja @ jb))"
    by (rule transfer; simp add: job_file_eq job_dir_eq)+
  then show ?thesis
    by (intro exI [of _ ja] exI [of _ jb]) (simp add: files gs ja_def jb_def group_jobs_nth(1))
qed

section \<open>Lemmas: the pipeline\<close>

lemma with_gate_code:
  "report_verdict env ra g w = (r, w') \<Longrightarrow> r = Inr (clamp_code (go_exit_code g))"
  by (simp add: report_verdict_def Let_def split: prod.splits)

lemma clamp_zero: "clamp_code c = 0 \<longleftrightarrow> c \<le> 0"
  by (auto simp: clamp_code_def)

text \<open>What a run prints before it calls the gate, as a state.\<close>

definition before_gate :: "('w, 'h, 'v) orch_env \<Rightarrow> run_args \<Rightarrow> string list \<Rightarrow> string list \<Rightarrow> 'w \<Rightarrow> 'w" where
  "before_gate env ra a b w = eprintln env (''assembled '' @ show_nat (length a) @ '' A runs and '' @ show_nat (length b)
     @ '' B runs in '' @ rg_out_dir ra) w"

definition gate_call :: "('w, 'h, 'v) orch_env \<Rightarrow> run_args \<Rightarrow> bench_def \<Rightarrow> string list \<Rightarrow> string list \<Rightarrow> 'w
    \<Rightarrow> string + gate_output" where
  "gate_call env ra d a b w = (let w0 = before_gate env ra a b w in
     run_gate (oe_show_f64 env) (oe_launch env w0) (nv_from_str (oe_native env)) (gate_bin_of env w0)
       (gs_mode (bd_gate d)) a b (thresholds_of ra d))"

lemma gate_runs_call:
  "gate_runs env ra d (a, b) w = (case gate_call env ra d a b w of
     Inl e \<Rightarrow> (Inl e, before_gate env ra a b w) | Inr g \<Rightarrow> report_verdict env ra g (before_gate env ra a b w))"
  by (simp add: gate_runs_def gate_call_def before_gate_def Let_def io_then_def io_of_def split: sum.splits)

lemma checked_Inr: "(case v of Inl e \<Rightarrow> io_err (f e) | Inr (_ :: unit) \<Rightarrow> io_ok x) w = (Inr y, w')
    \<longleftrightarrow> v = Inr () \<and> y = x \<and> w' = w"
  by (cases v) (auto simp: io_simps)

lemma load_def_valid: "load_def env path w = (Inr (d, sha), w') \<Longrightarrow> validate_bench d = Inr ()"
  by (auto simp: load_def_def io_simps checked_Inr)

lemma groups_total:
  assumes "validate_bench d = Inr ()"
  shows "groups_of d ra all \<noteq> None"
proof (cases "bd_compare d")
  case (Some axis)
  from compare_axis [OF assms Some] obtain va vb where "bm_get (bd_parameterise d) axis = Some [va, vb]" by metis
  then show ?thesis using Some by (simp add: groups_of_def)
qed (simp add: groups_of_def)

section \<open>Properties: the verdict of a run\<close>


text \<open>C39: A gate that dies by a signal, so that it has no exit code, passes the run: the
  missing code is read as -1, no verdict is found, and -1 is clamped to the exit code 0.\<close>

theorem killed_gate_passes:
  assumes "oe_launch env (before_gate env ra a b w) (gate_bin_of env (before_gate env ra a b w))
      (gate_argv (oe_show_f64 env) (gs_mode (bd_gate d)) a b (thresholds_of ra d)) = Inr (None, out, err)"
    and "nv_from_str (oe_native env) (trim out) = Inl e"
  shows "fst (gate_runs env ra d (a, b) w) = Inr 0
    \<and> gate_call env ra d a b w = Inr \<lparr>go_outcome = JNull, go_verdict = ''unknown'', go_exit_code = -1\<rparr>"
proof
  show call: "gate_call env ra d a b w = Inr \<lparr>go_outcome = JNull, go_verdict = ''unknown'', go_exit_code = -1\<rparr>"
    using assms by (simp add: gate_call_def run_gate_def Let_def)
  show "fst (gate_runs env ra d (a, b) w) = Inr 0"
    using call with_gate_code by (cases "report_verdict env ra
      \<lparr>go_outcome = JNull, go_verdict = ''unknown'', go_exit_code = -1\<rparr> (before_gate env ra a b w)")
      (fastforce simp: gate_runs_call clamp_zero)
qed

text \<open>C20: With \<open>--apply-prep\<close> a host that does not report the tuning asked of it refuses the run:
  the command prints what it found and ends with 1, and does nothing after the preparation, so
  no directory is made, no target is started and no gate is called.\<close>

theorem untuned_host_refused:
  assumes "parse_run_args args = Inr ra" and "rg_apply_prep ra"
    and "load_def env (rg_def_path ra) w = (Inr (d, sha), w1)"
    and "prepare (linux_host (oe_sys env)) (host_prep_of (bd_host_prep d)) (bd_tenancy d) w1 = (Inr fp, w2)"
    and "\<not> reads_back (oe_sys env) w2 (hp_knobs (host_prep_of (bd_host_prep d)))"
  shows "run_cmd env args w = (1, eprintln env (''host prep did not take: requested ''
    @ oe_text env (fp_tuning_requested fp) @ '' but host reports '' @ oe_text env (fp_tuning_readback fp)
    @ ''. refusing the run.'') w2)"
proof -
  let ?prep = "host_prep_of (bd_host_prep d)"
  have "fp_tuning_requested fp = knobs_value (hp_knobs ?prep)"
    "fp_tuning_readback fp = knobs_value (linux_read_tuning (oe_sys env) (hp_knobs ?prep) w2)"
    using linux_readback(1,2) [of "oe_sys env" ?prep "bd_tenancy d" w1 fp w2] assms(4) by simp_all
  then have "\<not> tuning_consistent fp"
    using assms(5) by (simp add: tuning_consistent_def knobs_value_eq read_tuning_eq)
  then have "run_pipeline env ra w = (Inl (''host prep did not take: requested ''
      @ oe_text env (fp_tuning_requested fp) @ '' but host reports '' @ oe_text env (fp_tuning_readback fp)
      @ ''. refusing the run.''), w2)"
    using assms(2-4) by (simp add: run_pipeline_def ready_host_def Let_def io_then_def io_context_def io_map_err_def io_err_def)
  then show ?thesis using assms(1) by (simp add: run_cmd_def ending_def)
qed

section \<open>Properties: concurrent instances\<close>

lemma parse_u64_show_u32: "parse_u64 (show_u32 x) = Some (ucast x)"
proof -
  have "uint x < 2 ^ 32" using uint_lt2p [of x] by simp
  then have "parse_uint (2 ^ 64 - 1) (show_dec (uint x)) = Some (uint x)"
    by (intro parse_uint_show) simp_all
  then show ?thesis by (simp add: parse_u64_def show_u32_def)
qed

lemma instance_vars_get:
  "bm_get (instance_vars vcpu pin vs i) ''instance'' = Some (show_u32 (of_nat i))"
  "pin \<Longrightarrow> bm_get (instance_vars vcpu pin vs i) ''cpu_base'' = Some (show_u32 (of_nat i * vcpu))"
  by (simp_all add: instance_vars_def Let_def)

lemma show_u32_nat_eq: "i < 2 ^ 32 \<Longrightarrow> j < 2 ^ 32 \<Longrightarrow> show_u32 (of_nat i) = show_u32 (of_nat j) \<longleftrightarrow> i = j"
proof -
  assume ij: "i < 2 ^ 32" "j < 2 ^ 32"
  have "unat (of_nat i :: u32) = i" "unat (of_nat j :: u32) = j" using ij by (simp_all add: unat_of_nat take_bit_eq_mod)
  then show ?thesis using u32_codec.enc_inj [of "of_nat i" "of_nat j"] by metis
qed



section \<open>A run on a quiet host\<close>

text \<open>
  A host whose world is the list of paths made and written, whose files all hold the same text, and
  whose gate ends as told; a definition of the command adapter with nothing to do, and one cell.
\<close>

definition quiet_env :: "int option \<Rightarrow> (string list, nat, nat) orch_env" where
  "quiet_env code = \<lparr>
     oe_adapters = \<lparr>ae_native = \<lparr>nv_shell = (\<lambda>c w. (Inr '''', w)), nv_now = (\<lambda>w. (0, w)), nv_to_text = (\<lambda>v. ''x''),
         nv_from_str = (\<lambda>s. Inl ''eof'')\<rparr>, ae_pid = 7,
       ae_vsock = \<lparr>vo_connect = (\<lambda>p w. (Inl ''none'', w)), vo_read_timeout = (\<lambda>h n w. (Inr (), w)),
         vo_write_timeout = (\<lambda>h n w. (Inr (), w)), vo_write = (\<lambda>h s w. (Inr (), w)), vo_clone = (\<lambda>h w. (Inr h, w)),
         vo_read_line = (\<lambda>h w. (Inr '''', w)), vo_read_to_end = (\<lambda>h w. (Inr (), w)), vo_instant = (\<lambda>w. (0, w)),
         vo_sleep = (\<lambda>n w. w)\<rparr>, ae_from_list = (\<lambda>s. Inr [])\<rparr>,
     oe_process = \<lparr>po_spawn = (\<lambda>g a w. (Inr 0, w)), po_wait = (\<lambda>h w. (Inr (True, ''''), w)), po_kill = (\<lambda>h w. (Inr (), w)),
       po_read = (\<lambda>p w. (Inr '''', w)), po_fragment = (\<lambda>s. Inl ''eof'')\<rparr>,
     oe_channel = \<lparr>ch_write = (\<lambda>s w. (Inr (), w)), ch_flush = (\<lambda>w. (Inr (), w)), ch_read = (\<lambda>w. (Inl ''eof'', w))\<rparr>,
     oe_residency = \<lparr>rs_len = (\<lambda>p w. None), rs_page = 4096, rs_maps = (\<lambda>p w. False), rs_mincore = (\<lambda>p n w. None)\<rparr>,
     oe_sys = \<lparr>sy_read = (\<lambda>p w. Some ''MemTotal: 1''), sy_list = (\<lambda>p w. Inr [''cpu0'']), sy_exists = (\<lambda>p w. True),
       sy_write = (\<lambda>p v w. (Inr (), w))\<rparr>,
     oe_ids = \<lparr>ie_sha = (\<lambda>s. [0]), ie_pid = 7, ie_since_epoch = (\<lambda>w. (Some 0, w)), ie_fetch_add = (\<lambda>w. (0, w))\<rparr>,
     oe_read = (\<lambda>p w. (Inr ''def'', w)), oe_write = (\<lambda>p t w. (Inr (), w @ [p])), oe_mkdir = (\<lambda>p w. (Inr (), w @ [p])),
     oe_parent_of = (\<lambda>p w. None), oe_print = (\<lambda>s w. w), oe_eprint = (\<lambda>s w. w),
     oe_from_yaml = (\<lambda>s. Inr (sample_def\<lparr>bd_target := \<lparr>ad_name = ''command'', ad_version = '''', ad_commands = bm_empty, ad_config = bm_empty\<rparr>,
       bd_workload := \<lparr>ad_name = ''command'', ad_version = '''', ad_commands = bm_empty, ad_config = bm_empty\<rparr>,
       bd_parameterise := bm_empty, bd_compare := None, bd_capture := [],
       bd_host_prep := jobj [(''cpu_governor'', JString ''performance'')]\<rparr>)),
     oe_run_from = (\<lambda>s. Inl ''eof''), oe_pretty = (\<lambda>v. Inr ''''), oe_show_f64 = (\<lambda>x. ''0.5''),
     oe_launch = (\<lambda>w bin argv. Inr (code, '''', '''')), oe_gate_var = Some ''gate'', oe_exe_dir = None,
     oe_exists = (\<lambda>p w. False), oe_temp_dir = ''/tmp''\<rparr>"

definition quiet_def :: bench_def where
  "quiet_def = (case oe_from_yaml (quiet_env None) '''' of Inr d \<Rightarrow> d | Inl _ \<Rightarrow> sample_def)"

abbreviation quiet_args :: run_args where
  "quiet_args \<equiv> default_run_args\<lparr>rg_def_path := ''d.yaml'', rg_repeat := 2\<rparr>"

abbreviation quiet_groups :: "(string \<times> string \<times> cell list) list" where
  "quiet_groups \<equiv> [(''a'', ''unknown-a'', cells_of (quiet_env None) quiet_def), (''b'', ''unknown-b'', cells_of (quiet_env None) quiet_def)]"

lemma quiet_parse:
  "parse_run_args [''d.yaml'', ''--repeat'', ''2''] = Inr quiet_args"
  "parse_run_args [''d.yaml'', ''--apply-prep''] = Inr (default_run_args\<lparr>rg_def_path := ''d.yaml'', rg_apply_prep := True\<rparr>)"
  by code_simp+

lemma quiet_load: "load_def (quiet_env (Some 0)) ''d.yaml'' [] = (Inr (quiet_def, ''00''), [])"
  by code_simp

lemma quiet_cells: "cells_of (quiet_env c) d = cells_of (quiet_env None) d"
  by (simp add: quiet_env_def)

lemma quiet_groups: "groups_of quiet_def quiet_args (cells_of (quiet_env c) quiet_def) = Some quiet_groups"
proof -
  have "bd_compare quiet_def = None" "rg_a_sut quiet_args = ''unknown-a''" "rg_b_sut quiet_args = ''unknown-b''"
    by code_simp+
  then show ?thesis by (simp add: groups_of_def quiet_cells [of c])
qed

definition quiet_files :: "string \<Rightarrow> string list" where
  "quiet_files g = map (\<lambda>i. ''assayist-out/'' @ g @ ''_0_'' @ i @ ''.json'') [''0'', ''1'']"

lemma quiet_ready: "is_ok (fst (ready_host (quiet_env (Some 0)) quiet_args quiet_def []))"
  "snd (ready_host (quiet_env (Some 0)) quiet_args quiet_def []) = []"
  by code_simp+

lemma quiet_matrix: "fst (run_matrix (quiet_env (Some 0)) quiet_args quiet_def ''00'' quiet_groups [''assayist-out''])
    = Inr (quiet_files ''a'', quiet_files ''b'')"
  by code_simp

theorem matrix_complete_witness:
  "distinct (quiet_files ''a'' @ quiet_files ''b'')"
proof -
  obtain w where "run_matrix (quiet_env (Some 0)) quiet_args quiet_def ''00'' quiet_groups [''assayist-out'']
      = (Inr (quiet_files ''a'', quiet_files ''b''), w)"
    using quiet_matrix by (metis prod.collapse)
  from matrix_complete [OF quiet_groups this] show ?thesis by blast
qed


theorem killed_gate_passes_witness: "fst (gate_runs (quiet_env None) quiet_args quiet_def ([''a.json''], [''b.json'']) []) = Inr 0"
  using killed_gate_passes [of "quiet_env None" quiet_args "[''a.json'']" "[''b.json'']" "[]" quiet_def "''''" "''''" "''eof''"]
  by (simp add: quiet_env_def)

theorem untuned_host_refused_witness: "fst (run_cmd (quiet_env (Some 0)) [''d.yaml'', ''--apply-prep''] []) = 1"
proof -
  let ?env = "quiet_env (Some 0)" and ?prep = "host_prep_of (bd_host_prep quiet_def)"
  have ok: "is_ok (fst (prepare (linux_host (oe_sys ?env)) ?prep (bd_tenancy quiet_def) []))"
    "snd (prepare (linux_host (oe_sys ?env)) ?prep (bd_tenancy quiet_def) []) = []"
    "\<not> reads_back (oe_sys ?env) [] (hp_knobs ?prep)" by code_simp+
  then obtain fp where fp: "prepare (linux_host (oe_sys ?env)) ?prep (bd_tenancy quiet_def) [] = (Inr fp, [])"
    by (metis is_ok_iff prod.collapse)
  show ?thesis using untuned_host_refused [OF quiet_parse(2) _ _ fp ok(3)] quiet_load by simp
qed

end
