(* ===== verification/Gadget.thy ===== *)
theory Gadget
  imports Contract Effects Bytes
begin

text \<open>
  What the capture gadgets of \<open>src/capture\<close> share: the calls on the kernel (\<open>libbpf\<close> and libc),
  the run-time accounting of their eBPF programs, the reading of map values, and the writing of
  the fragment. The kernel side is the record \<open>bpf_ops\<close>; the eBPF programs are not modelled.
\<close>

section \<open>The kernel\<close>

text \<open>
  A map as its keys with what each lookup gives: a failure, no value any more, or the bytes. The
  clock is in nanoseconds.
\<close>

type_synonym map_entry = "u8 list \<times> (string + u8 list option)"

record 'w bpf_ops =
  bo_read :: "string \<Rightarrow> 'w \<Rightarrow> string option"
  bo_enable_stats :: "'w \<Rightarrow> int \<times> 'w"
  bo_open :: "('w, unit) io"
  bo_load :: "bool \<Rightarrow> ('w, unit) io"
  bo_attach :: "('w, unit) io"
  bo_allow :: "u8 list \<Rightarrow> u8 list \<Rightarrow> ('w, unit) io"
  bo_sleep :: "u64 \<Rightarrow> 'w \<Rightarrow> 'w"
  bo_instant :: "'w \<Rightarrow> nat \<times> 'w"
  bo_entries :: "string \<Rightarrow> 'w \<Rightarrow> map_entry list"
  bo_max_entries :: "string \<Rightarrow> ('w, u32) io"
  bo_prog_info :: "string \<Rightarrow> 'w \<Rightarrow> (int \<times> u64 \<times> u64) \<times> 'w"
  bo_pretty :: "json \<Rightarrow> string + string"
  bo_print :: "string \<Rightarrow> 'w \<Rightarrow> 'w"
  bo_eprint :: "string \<Rightarrow> 'w \<Rightarrow> 'w"
  bo_write :: "string \<Rightarrow> string \<Rightarrow> ('w, unit) io"

text \<open>\<open>with_context\<close>: the context in front of the cause.\<close>

definition in_context :: "string \<Rightarrow> ('w, 'a) io \<Rightarrow> ('w, 'a) io" where
  "in_context what m = io_map_err (\<lambda>e. what @ '': '' @ e) m"

definition enable_run_time_stats :: "('w, 'x) bpf_ops_scheme \<Rightarrow> string \<Rightarrow> ('w, unit) io" where
  "enable_run_time_stats bo need w = (case bo_enable_stats bo w of (fd, w') \<Rightarrow>
     if fd < 0 then (Inl (''bpf_enable_stats(RUN_TIME) failed (need CAP_BPF/CAP_SYS_ADMIN'' @ need @ '')''), w')
     else (Inr (), w'))"

section \<open>The cost of a probe\<close>

definition prog_run_stats :: "('w, 'x) bpf_ops_scheme \<Rightarrow> string \<Rightarrow> ('w, u64 \<times> u64) io" where
  "prog_run_stats bo prog w = (case bo_prog_info bo prog w of ((ret, time, cnt), w') \<Rightarrow>
     if ret \<noteq> 0 then (Inl (''bpf_obj_get_info_by_fd failed: '' @ show_int ret), w') else (Inr (time, cnt), w'))"

definition per :: "u64 \<Rightarrow> u64 \<Rightarrow> f64" where
  "per a b = (if 0 < b then f_of_u64 a / f_of_u64 b else f_lit 0)"

text \<open>The fraction of a core a program took over the window is held against the budget.\<close>

definition cost_json :: "string \<Rightarrow> string \<Rightarrow> bool \<Rightarrow> f64 \<Rightarrow> u64 \<Rightarrow> u64 \<times> u64 \<Rightarrow> json" where
  "cost_json attach probe hot budget wall = (\<lambda>(time, cnt). jobj [
     (''probe_id'', JString probe), (''attach_kind'', JString attach),
     (''run_time_ns'', JNumber (PosInt time)), (''run_cnt'', JNumber (PosInt cnt)),
     (''mean_ns'', json_f64 (per time cnt)), (''steady_cpu_fraction'', json_f64 (per time wall)),
     (''over_budget'', JBool (budget < per time wall)), (''hot_path'', JBool hot)])"

definition probe_cost :: "('w, 'x) bpf_ops_scheme \<Rightarrow> string \<Rightarrow> string \<Rightarrow> string \<Rightarrow> u64 \<Rightarrow> f64 \<Rightarrow> bool \<Rightarrow> ('w, json) io" where
  "probe_cost bo attach probe prog wall budget hot =
     io_map (cost_json attach probe hot budget wall) (prog_run_stats bo prog)"

section \<open>Map values\<close>

text \<open>A slice past the end of a value panics.\<close>

definition slice_at :: "nat \<Rightarrow> nat \<Rightarrow> u8 list \<Rightarrow> string + u8 list" where
  "slice_at off n bs = (if off + n \<le> length bs then Inr (take n (drop off bs))
     else Inl ''panicked: range end index out of range'')"

definition u32_at :: "nat \<Rightarrow> u8 list \<Rightarrow> string + u32" where
  "u32_at off bs = map_ok (\<lambda>s. word_of_int (bytes_int s)) (slice_at off 4 bs)"

definition u64_at :: "nat \<Rightarrow> u8 list \<Rightarrow> string + u64" where
  "u64_at off bs = map_ok (\<lambda>s. word_of_int (bytes_int s)) (slice_at off 8 bs)"

definition u32s_at :: "nat \<Rightarrow> nat \<Rightarrow> u8 list \<Rightarrow> string + u32 list" where
  "u32s_at off n bs = map_res (\<lambda>i. u32_at (off + i * 4) bs) [0..<n]"

definition slot_count :: "u32 list \<Rightarrow> u64" where
  "slot_count slots = sum_list (map ucast slots)"

definition u32s_json :: "u32 list \<Rightarrow> json" where
  "u32s_json ws = JArray (map (\<lambda>w. JNumber (PosInt (ucast w))) ws)"

text \<open>The loop over the keys of a map: a failed lookup ends it, a vanished entry is skipped.\<close>

fun each_entry :: "(u8 list \<Rightarrow> u8 list \<Rightarrow> string + json list) \<Rightarrow> map_entry list \<Rightarrow> string + json list" where
  "each_entry f [] = Inr []"
| "each_entry f ((key, r) # es) = (case r of Inl e \<Rightarrow> Inl e
     | Inr None \<Rightarrow> each_entry f es
     | Inr (Some v) \<Rightarrow> and_then (f key v) (\<lambda>ss. map_ok (\<lambda>rest. ss @ rest) (each_entry f es)))"

definition live_keys :: "map_entry list \<Rightarrow> nat" where
  "live_keys es = length (filter (\<lambda>(key, r). case r of Inr (Some v) \<Rightarrow> True | _ \<Rightarrow> False) es)"

section \<open>The window and the fragment\<close>

text \<open>The capture window: the time slept, measured.\<close>

definition window :: "('w, 'x) bpf_ops_scheme \<Rightarrow> u64 \<Rightarrow> 'w \<Rightarrow> u64 \<times> 'w" where
  "window bo duration w = (case bo_instant bo w of (t0, w1) \<Rightarrow>
     case bo_instant bo (bo_sleep bo duration w1) of (t1, w2) \<Rightarrow> (of_nat (t1 - t0), w2))"

definition fragment_json :: "json list \<Rightarrow> json list \<Rightarrow> (string \<times> json) list \<Rightarrow> json" where
  "fragment_json series costs meta = jobj [(''series'', JArray series), (''self_metrics'', JArray costs),
     (''capture_meta'', jobj meta)]"

definition emit_fragment :: "('w, 'x) bpf_ops_scheme \<Rightarrow> string \<Rightarrow> json \<Rightarrow> ('w, unit) io" where
  "emit_fragment bo out frag = io_then (io_of (bo_pretty bo frag)) (\<lambda>text.
     if out = ''-'' then (\<lambda>w. (Inr (), bo_print bo (text @ [newline]) w))
     else in_context (''writing '' @ out) (bo_write bo out text))"

definition bounded_card :: "string \<Rightarrow> u64 \<Rightarrow> json" where
  "bounded_card source n = jobj [(''class'', JString ''bounded''), (''key_source'', JString source),
     (''max_keys'', JNumber (PosInt n))]"

definition counter_data :: "u64 \<Rightarrow> json" where
  "counter_data v = jobj [(''value'', JNumber (PosInt v)), (''start_unix_nano'', JNumber (PosInt 0))]"

definition log2_data :: "u32 list \<Rightarrow> u64 \<Rightarrow> json" where
  "log2_data buckets n = jobj [(''layout'', JString ''log2''), (''buckets'', u32s_json buckets),
     (''count'', JNumber (PosInt n))]"

end
