(* ===== verification/Gadgets.thy ===== *)
theory Gadgets
  imports Gadget
begin

text \<open>
  The userspace of the capture gadgets: \<open>capture/kvm\<close> (exit-handling latency), \<open>capture/block\<close>
  (block IO), \<open>capture/net\<close> (taps), \<open>capture/ctrlplane\<close> (scheduling of cgroups) and
  \<open>capture/resident\<close> (page-cache residency). Each \<open>main\<close> is an effect that ends with the fragment
  written. What clap parses is the record of arguments.
\<close>

section \<open>kvm\<close>

record kvm_args =
  ka_duration :: u64
  ka_per_guest :: bool
  ka_max_keys :: u64
  ka_budget :: f64
  ka_out :: string

definition cpu_vendor :: "('w, 'x) bpf_ops_scheme \<Rightarrow> 'w \<Rightarrow> string" where
  "cpu_vendor bo w = (case bo_read bo ''/proc/cpuinfo'' w of
     Some s \<Rightarrow> if str_contains s ''AuthenticAMD'' then ''amd'' else if str_contains s ''GenuineIntel'' then ''intel''
       else ''unknown''
   | None \<Rightarrow> ''unknown'')"

definition vmx_reason :: "u32 \<Rightarrow> string option" where
  "vmx_reason = map_of [(0, ''EXCEPTION_NMI''), (1, ''EXTERNAL_INTERRUPT''), (2, ''TRIPLE_FAULT''), (7, ''INTERRUPT_WINDOW''),
     (12, ''HLT''), (18, ''VMCALL''), (28, ''CR_ACCESS''), (30, ''IO_INSTRUCTION''), (31, ''MSR_READ''), (32, ''MSR_WRITE''),
     (44, ''APIC_ACCESS''), (48, ''EPT_VIOLATION''), (49, ''EPT_MISCONFIG''), (52, ''PREEMPTION_TIMER'')]"

definition svm_reason :: "u32 \<Rightarrow> string option" where
  "svm_reason = map_of [(0x060, ''INTR''), (0x061, ''NMI''), (0x078, ''HLT''), (0x07b, ''IOIO''), (0x07c, ''MSR''),
     (0x081, ''VMMCALL''), (0x400, ''NPF'')]"

definition reason_name :: "string \<Rightarrow> u32 \<Rightarrow> string" where
  "reason_name vendor r = or_else
     (if vendor = ''amd'' then svm_reason r else if vendor = ''intel'' then vmx_reason r else None)
     (''reason_'' @ show_u32 r)"

definition parse_hist_key :: "u8 list \<Rightarrow> string + u64 \<times> u32" where
  "parse_hist_key bs = and_then (u64_at 0 bs) (\<lambda>cgroup. map_ok (\<lambda>reason. (cgroup, reason)) (u32_at 8 bs))"

definition kvm_parse_hist :: "u8 list \<Rightarrow> string + u32 list \<times> u64" where
  "kvm_parse_hist bs = map_ok (\<lambda>slots. (slots, slot_count slots)) (u32s_at 0 40 bs)"

definition kvm_card :: "kvm_args \<Rightarrow> json" where
  "kvm_card a = (if ka_per_guest a then bounded_card ''cgroup_id'' (ka_max_keys a)
     else jobj [(''class'', JString ''singleton'')])"

definition kvm_series :: "kvm_args \<Rightarrow> string \<Rightarrow> u64 \<Rightarrow> u32 \<Rightarrow> u32 list \<Rightarrow> u64 \<Rightarrow> json" where
  "kvm_series a vendor cgroup reason slots n = jobj ([
     (''name'', JString (''kvm.exit_handling_latency:'' @ reason_name vendor reason)),
     (''unit'', JString ''ns''), (''kind'', JString ''histogram''), (''source'', JString ''kvm_exit''),
     (''cardinality'', kvm_card a), (''data'', log2_data slots n)]
     @ (if ka_per_guest a then [(''key'', JString (show_u64 cgroup))] else []))"

definition kvm_entry :: "kvm_args \<Rightarrow> string \<Rightarrow> u8 list \<Rightarrow> u8 list \<Rightarrow> string + json list" where
  "kvm_entry a vendor key v = and_then (parse_hist_key key) (\<lambda>(cgroup, reason).
     map_ok (\<lambda>(slots, n). if n = 0 then [] else [kvm_series a vendor cgroup reason slots n]) (kvm_parse_hist v))"

definition kvm_fragment :: "kvm_args \<Rightarrow> string \<Rightarrow> u64 \<Rightarrow> bool \<Rightarrow> json list \<Rightarrow> json list \<Rightarrow> json" where
  "kvm_fragment a vendor wall overflow series costs = fragment_json series costs [
     (''gadget'', JString ''assayist-capture-kvm''), (''window_ns'', JNumber (PosInt wall)),
     (''cpu_vendor'', JString vendor), (''per_guest'', JBool (ka_per_guest a)),
     (''cardinality_overflow'', JBool overflow)]"

definition kvm_main :: "('w, 'x) bpf_ops_scheme \<Rightarrow> kvm_args \<Rightarrow> ('w, unit) io" where
  "kvm_main bo a w0 = (let vendor = cpu_vendor bo w0 in
     io_then (in_context ''enabling BPF run-time stats'' (enable_run_time_stats bo '' and kernel >= 5.8'')) (\<lambda>_.
     io_then (bo_open bo) (\<lambda>_.
     io_then (in_context ''loading eBPF object'' (bo_load bo (ka_per_guest a))) (\<lambda>_.
     io_then (in_context ''attaching to kvm tracepoints'' (bo_attach bo)) (\<lambda>_ w.
     case window bo (ka_duration a) w of (wall, w1) \<Rightarrow>
     io_then (bo_max_entries bo ''hists'') (\<lambda>most w2. let entries = bo_entries bo ''hists'' w2 in
       io_then (io_of (each_entry (kvm_entry a vendor) entries)) (\<lambda>series.
       io_then (probe_cost bo ''tracepoint'' ''kvm_exit'' ''handle_kvm_exit'' wall (ka_budget a) True) (\<lambda>exit_cost.
       io_then (probe_cost bo ''tracepoint'' ''kvm_entry'' ''handle_kvm_entry'' wall (ka_budget a) True) (\<lambda>entry_cost.
       emit_fragment bo (ka_out a)
         (kvm_fragment a vendor wall (unat most \<le> live_keys entries) series [exit_cost, entry_cost])))) w2) w1)))) w0)"

section \<open>block\<close>

record block_args =
  ba_duration :: u64
  ba_max_keys :: u64
  ba_budget :: f64
  ba_hires :: bool
  ba_out :: string

abbreviation SUBSLOTS :: nat where "SUBSLOTS \<equiv> 4"

abbreviation MAX_OCTAVES :: nat where "MAX_OCTAVES \<equiv> 40"

abbreviation MAX_SLOTS :: nat where "MAX_SLOTS \<equiv> 160"

text \<open>\<open>octaves[i / SUBSLOTS] += c\<close>, slot by slot; the addition wraps.\<close>

definition collapse_to_log2 :: "u32 list \<Rightarrow> u32 list" where
  "collapse_to_log2 slots = foldl (\<lambda>octaves (i, c). octaves[i div SUBSLOTS := octaves ! (i div SUBSLOTS) + c])
     (replicate MAX_OCTAVES 0) (enumerate 0 slots)"

definition log_linear_bound :: "nat \<Rightarrow> f64" where
  "log_linear_bound s = f_of_u64 (push_bit (s div SUBSLOTS) 1)
     * (f_lit 1 + (f_of_nat (s mod SUBSLOTS) + f_lit 1) / f_of_nat SUBSLOTS)"

definition log_linear_bounds :: "f64 list" where
  "log_linear_bounds = map log_linear_bound [0..<MAX_SLOTS - 1]"

definition dev_str :: "u32 \<Rightarrow> string" where
  "dev_str dev = show_u32 (drop_bit 20 dev) @ '':'' @ show_u32 (and dev 0xFFFFF)"

definition parse_blk_key :: "u8 list \<Rightarrow> string + u32 \<times> bool" where
  "parse_blk_key bs = and_then (u32_at 0 bs) (\<lambda>dev.
     if 4 < length bs then Inr (dev, bs ! 4 \<noteq> 0) else Inl ''panicked: index out of bounds'')"

definition parse_blk_stat :: "u8 list \<Rightarrow> string + u32 list \<times> u64 \<times> u64" where
  "parse_blk_stat bs = and_then (u32s_at 0 MAX_SLOTS bs) (\<lambda>slots.
     map_ok (\<lambda>bytes. (slots, slot_count slots, bytes)) (u64_at (MAX_SLOTS * 4) bs))"

definition hist_data :: "bool \<Rightarrow> u32 list \<Rightarrow> u64 \<Rightarrow> json" where
  "hist_data hires slots n = (if hires
     then jobj [(''layout'', JString ''explicit''), (''buckets'', u32s_json slots),
       (''explicit_bounds'', JArray (map json_f64 log_linear_bounds)), (''count'', JNumber (PosInt n))]
     else log2_data (collapse_to_log2 slots) n)"

definition block_series :: "string \<Rightarrow> string \<Rightarrow> string \<Rightarrow> string \<Rightarrow> json \<Rightarrow> json \<Rightarrow> json" where
  "block_series name u kind key limits d = jobj [(''name'', JString name), (''unit'', JString u), (''kind'', JString kind),
     (''source'', JString ''block_rq_complete''), (''key'', JString key), (''cardinality'', limits), (''data'', d)]"

definition block_entry :: "block_args \<Rightarrow> u8 list \<Rightarrow> u8 list \<Rightarrow> string + json list" where
  "block_entry a key v = and_then (parse_blk_key key) (\<lambda>(dev, is_write).
     map_ok (\<lambda>(slots, n, bytes). if n = 0 then [] else let
         rw = (if is_write then ''write'' else ''read''); limits = bounded_card ''device'' (ba_max_keys a) in
       [block_series (''block.io_latency:'' @ rw) ''ns'' ''histogram'' (dev_str dev) limits (hist_data (ba_hires a) slots n),
        block_series (''block.io_bytes:'' @ rw) ''By'' ''counter'' (dev_str dev) limits (counter_data bytes)])
     (parse_blk_stat v))"

text \<open>The gadget has its own copies of the run-time accounting.\<close>

definition block_enable_stats :: "('w, 'x) bpf_ops_scheme \<Rightarrow> ('w, unit) io" where
  "block_enable_stats bo = enable_run_time_stats bo '', kernel >= 5.8''"

definition block_cost :: "('w, 'x) bpf_ops_scheme \<Rightarrow> string \<Rightarrow> string \<Rightarrow> u64 \<Rightarrow> f64 \<Rightarrow> ('w, json) io" where
  "block_cost bo probe prog wall budget = probe_cost bo ''tracepoint'' probe prog wall budget True"

definition block_main :: "('w, 'x) bpf_ops_scheme \<Rightarrow> block_args \<Rightarrow> ('w, unit) io" where
  "block_main bo a =
     io_then (in_context ''enabling BPF run-time stats'' (block_enable_stats bo)) (\<lambda>_.
     io_then (bo_open bo) (\<lambda>_.
     io_then (in_context ''loading eBPF object'' (bo_load bo False)) (\<lambda>_.
     io_then (in_context ''attaching to block tracepoints'' (bo_attach bo)) (\<lambda>_ w.
     case window bo (ba_duration a) w of (wall, w1) \<Rightarrow>
     io_then (io_of (each_entry (block_entry a) (bo_entries bo ''stats'' w1))) (\<lambda>series.
     io_then (block_cost bo ''block_rq_issue'' ''handle_issue'' wall (ba_budget a)) (\<lambda>issue.
     io_then (block_cost bo ''block_rq_complete'' ''handle_complete'' wall (ba_budget a)) (\<lambda>complete.
     emit_fragment bo (ba_out a) (fragment_json series [issue, complete]
       [(''gadget'', JString ''assayist-capture-block''), (''window_ns'', JNumber (PosInt wall))])))) w1))))"

section \<open>net\<close>

record net_args =
  ta_duration :: u64
  ta_iface_prefix :: string
  ta_iface :: "string list"
  ta_tx :: bool
  ta_max_keys :: u64
  ta_budget :: f64
  ta_out :: string

text \<open>The calls on interfaces: the index of a name (0 for none), the name of an index, the listing
  of \<open>/sys/class/net\<close>, and the attachments.\<close>

record 'w net_ops = "'w bpf_ops" +
  no_nametoindex :: "string \<Rightarrow> 'w \<Rightarrow> u32"
  no_indextoname :: "u32 \<Rightarrow> 'w \<Rightarrow> string option"
  no_list :: "'w \<Rightarrow> string + (string + string) list"
  no_attach_xdp :: "u32 \<Rightarrow> ('w, unit) io"
  no_tc_create :: "u32 \<Rightarrow> ('w, unit) io"
  no_tc_attach :: "u32 \<Rightarrow> ('w, unit) io"

definition size_bounds :: "u32 list" where
  "size_bounds = [64, 128, 256, 512, 1024, 1500, 9000]"

definition if_nametoindex :: "'w net_ops \<Rightarrow> 'w \<Rightarrow> string \<Rightarrow> u32 option" where
  "if_nametoindex no w name = (if CHR 0x00 \<in> set name then None
     else let idx = no_nametoindex no name w in if idx = 0 then None else Some idx)"

definition if_indextoname :: "'w net_ops \<Rightarrow> 'w \<Rightarrow> u32 \<Rightarrow> string" where
  "if_indextoname no w idx = (case no_indextoname no idx w of None \<Rightarrow> ''if'' @ show_u32 idx
     | Some buf \<Rightarrow> takeWhile (\<lambda>c. c \<noteq> CHR 0x00) buf)"

definition matching_ifaces :: "'w net_ops \<Rightarrow> 'w \<Rightarrow> string list \<Rightarrow> string list \<Rightarrow> u32 list" where
  "matching_ifaces no w prefixes names = List.map_filter (\<lambda>name.
     if list_ex (\<lambda>p. p \<noteq> '''' \<and> starts_with p name) prefixes then if_nametoindex no w name else None) names"

definition target_ifaces :: "'w net_ops \<Rightarrow> net_args \<Rightarrow> 'w \<Rightarrow> string + u32 list" where
  "target_ifaces no a w = (if ta_iface a \<noteq> []
     then map_res (\<lambda>name. case if_nametoindex no w name of Some i \<Rightarrow> Inr i | None \<Rightarrow> Inl (''interface not found: '' @ name))
       (ta_iface a)
     else and_then (map_err (\<lambda>e. ''listing /sys/class/net: '' @ e) (no_list no w)) (\<lambda>entries.
       and_then (map_res id entries) (\<lambda>names. let
         v = matching_ifaces no w (map trim (split_on (\<lambda>c. c = CHR '','') (ta_iface_prefix a))) names in
         if v = [] then Inl (''no interfaces matched prefix '' @ [CHR 0x27] @ ta_iface_prefix a @ [CHR 0x27]) else Inr v)))"

record if_stat =
  is_rx_packets :: u64
  is_rx_bytes :: u64
  is_tx_packets :: u64
  is_tx_bytes :: u64
  is_rx_size :: "u32 list"
  is_tx_size :: "u32 list"

definition parse_if_stat :: "u8 list \<Rightarrow> string + if_stat" where
  "parse_if_stat bs = and_then (u64_at 0 bs) (\<lambda>rxp. and_then (u64_at 8 bs) (\<lambda>rxb. and_then (u64_at 16 bs) (\<lambda>txp.
     and_then (u64_at 24 bs) (\<lambda>txb. and_then (u32s_at 32 8 bs) (\<lambda>rxs. map_ok (\<lambda>txs.
       \<lparr>is_rx_packets = rxp, is_rx_bytes = rxb, is_tx_packets = txp, is_tx_bytes = txb, is_rx_size = rxs, is_tx_size = txs\<rparr>)
       (u32s_at 64 8 bs))))))"

definition net_series :: "string \<Rightarrow> string \<Rightarrow> string \<Rightarrow> string \<Rightarrow> string \<Rightarrow> json \<Rightarrow> json \<Rightarrow> json" where
  "net_series dir what u kind key limits d = jobj [(''name'', JString (''net.tap_'' @ dir @ what)), (''unit'', JString u),
     (''kind'', JString kind), (''source'', JString (if dir = ''rx'' then ''tap_rx'' else ''tap_tx'')),
     (''key'', JString key), (''cardinality'', limits), (''data'', d)]"

definition push_dir :: "json \<Rightarrow> string \<Rightarrow> string \<Rightarrow> u64 \<Rightarrow> u64 \<Rightarrow> u32 list \<Rightarrow> json list" where
  "push_dir limits key dir pkts byts sizes = (if pkts = 0 then [] else
     [net_series dir ''_packets'' ''1'' ''counter'' key limits (counter_data pkts),
      net_series dir ''_bytes'' ''By'' ''counter'' key limits (counter_data byts),
      net_series dir ''_packet_size'' ''By'' ''histogram'' key limits (jobj [(''layout'', JString ''explicit''),
        (''explicit_bounds'', u32s_json size_bounds), (''buckets'', u32s_json sizes),
        (''count'', JNumber (PosInt (slot_count sizes)))])])"

definition net_entry :: "'w net_ops \<Rightarrow> 'w \<Rightarrow> net_args \<Rightarrow> u8 list \<Rightarrow> u8 list \<Rightarrow> string + json list" where
  "net_entry no w a key v = and_then (u32_at 0 key) (\<lambda>ifindex.
     map_ok (\<lambda>st. let name = if_indextoname no w ifindex; limits = bounded_card ''netdev'' (ta_max_keys a) in
         push_dir limits name ''rx'' (is_rx_packets st) (is_rx_bytes st) (is_rx_size st)
         @ (if ta_tx a then push_dir limits name ''tx'' (is_tx_packets st) (is_tx_bytes st) (is_tx_size st) else []))
       (parse_if_stat v))"

definition attach_taps :: "'w net_ops \<Rightarrow> net_args \<Rightarrow> u32 list \<Rightarrow> ('w, unit) io" where
  "attach_taps no a ifaces =
     io_then (io_each (\<lambda>i. in_context (''attach_xdp on ifindex '' @ show_u32 i) (no_attach_xdp no i)) ifaces) (\<lambda>_.
     if ta_tx a then io_each (\<lambda>i w. in_context (''tc egress attach on ifindex '' @ show_u32 i) (no_tc_attach no i)
       (io_ignore (no_tc_create no i) w)) ifaces else io_ok ())"

text \<open>The gadget has its own copies of the run-time accounting.\<close>

definition net_enable_stats :: "('w, 'x) bpf_ops_scheme \<Rightarrow> ('w, unit) io" where
  "net_enable_stats bo = enable_run_time_stats bo '', kernel >= 5.8''"

definition net_cost :: "('w, 'x) bpf_ops_scheme \<Rightarrow> string \<Rightarrow> string \<Rightarrow> string \<Rightarrow> u64 \<Rightarrow> f64 \<Rightarrow> ('w, json) io" where
  "net_cost bo attach probe prog wall budget = probe_cost bo attach probe prog wall budget True"

definition net_main :: "'w net_ops \<Rightarrow> net_args \<Rightarrow> ('w, unit) io" where
  "net_main no a =
     io_then (\<lambda>w. (target_ifaces no a w, w)) (\<lambda>ifaces.
     io_then (in_context ''enabling BPF run-time stats'' (net_enable_stats no)) (\<lambda>_.
     io_then (bo_open no) (\<lambda>_.
     io_then (in_context ''loading eBPF object'' (bo_load no False)) (\<lambda>_.
     io_then (attach_taps no a ifaces) (\<lambda>_ w.
     case window no (ta_duration a) w of (wall, w1) \<Rightarrow>
     io_then (io_of (each_entry (net_entry no w1 a) (bo_entries no ''stats'' w1))) (\<lambda>series.
     io_then (net_cost no ''xdp'' ''tap_rx'' ''tap_rx'' wall (ta_budget a)) (\<lambda>rx.
     io_then (if ta_tx a then io_map (\<lambda>c. [c]) (net_cost no ''tc'' ''tap_tx'' ''tap_tx'' wall (ta_budget a))
       else io_ok []) (\<lambda>tx w2.
     emit_fragment no (ta_out a) (fragment_json series (rx # tx)
       [(''gadget'', JString ''assayist-capture-net''), (''window_ns'', JNumber (PosInt wall)),
        (''interfaces'', JArray (map (\<lambda>i. JString (if_indextoname no w2 i)) ifaces)), (''tx_enabled'', JBool (ta_tx a))])
       w2))) w1)))))"

section \<open>ctrlplane\<close>

record ctrl_args =
  ca_duration :: u64
  ca_cgroup :: "string list"
  ca_cgroup_id :: "string list"
  ca_max_keys :: u64
  ca_budget :: f64
  ca_out :: string

text \<open>\<open>name_to_handle_at\<close>: its result and the bytes of the handle; and the order a \<open>HashMap\<close> is walked in.\<close>

record 'w ctrl_ops = "'w bpf_ops" +
  co_handle_at :: "string \<Rightarrow> 'w \<Rightarrow> int \<times> u8 list"
  co_order :: "(u64, string) bmap \<Rightarrow> (u64, string) bmap"

definition cgroup_id_for_path :: "'w ctrl_ops \<Rightarrow> 'w \<Rightarrow> string \<Rightarrow> string + u64" where
  "cgroup_id_for_path co w path = (if CHR 0x00 \<in> set path then Inl ''nul byte found in provided data''
     else case co_handle_at co path w of (ret, handle) \<Rightarrow>
       if ret \<noteq> 0 then Inl (''name_to_handle_at('' @ path @ '') failed; is it a cgroup2 dir? try --cgroup-id'')
       else u64_at 0 handle)"

definition parse_named :: "string list \<Rightarrow> string + (string \<times> string) list" where
  "parse_named items = map_res (\<lambda>it. case split_once (CHR ''='') it of Some nv \<Rightarrow> Inr nv
     | None \<Rightarrow> Inl (''expected name=value, got '' @ [CHR 0x27] @ it @ [CHR 0x27])) items"

definition add_names :: "(string \<Rightarrow> string \<Rightarrow> string + u64) \<Rightarrow> (u64, string) bmap \<Rightarrow> (string \<times> string) list
    \<Rightarrow> string + (u64, string) bmap" where
  "add_names id_of names pairs = foldl_res (\<lambda>m (name, v). map_ok (\<lambda>i. bm_insert i name m) (id_of name v)) names pairs"

definition ctrl_names :: "'w ctrl_ops \<Rightarrow> ctrl_args \<Rightarrow> 'w \<Rightarrow> string + (u64, string) bmap" where
  "ctrl_names co a w = and_then (parse_named (ca_cgroup a)) (\<lambda>paths.
     and_then (add_names (\<lambda>name p. map_err (\<lambda>e. ''resolving '' @ name @ '': '' @ e) (cgroup_id_for_path co w p)) bm_empty paths)
       (\<lambda>names. and_then (parse_named (ca_cgroup_id a)) (\<lambda>ids.
     add_names (\<lambda>name s. case parse_u64 s of Some i \<Rightarrow> Inr i
       | None \<Rightarrow> Inl (''parsing id for '' @ name @ '': '' @ parse_uint_error (2 ^ 64 - 1) s)) names ids)))"

definition ctrl_parse_hist :: "u8 list \<Rightarrow> string + u32 list \<times> u64" where
  "ctrl_parse_hist bs = map_ok (\<lambda>slots. (slots, slot_count slots)) (u32s_at 0 40 bs)"

definition name_for :: "(u64, string) bmap \<Rightarrow> u64 \<Rightarrow> string" where
  "name_for names i = or_else (bm_get names i) (show_u64 i)"

definition sched_series :: "string \<Rightarrow> string \<Rightarrow> string \<Rightarrow> json \<Rightarrow> json \<Rightarrow> json" where
  "sched_series name kind key limits d = jobj [(''name'', JString name), (''unit'', JString ''ns''), (''kind'', JString kind),
     (''source'', JString ''sched_switch''), (''key'', JString key), (''cardinality'', limits), (''data'', d)]"

definition runq_entry :: "(u64, string) bmap \<Rightarrow> json \<Rightarrow> u8 list \<Rightarrow> u8 list \<Rightarrow> string + json list" where
  "runq_entry names limits key v = and_then (u64_at 0 key) (\<lambda>cgid.
     map_ok (\<lambda>(slots, n). if n = 0 then []
       else [sched_series ''sched.runqueue_latency'' ''histogram'' (name_for names cgid) limits (log2_data slots n)])
     (ctrl_parse_hist v))"

definition oncpu_entry :: "(u64, string) bmap \<Rightarrow> json \<Rightarrow> u8 list \<Rightarrow> u8 list \<Rightarrow> string + json list" where
  "oncpu_entry names limits key v = and_then (u64_at 0 key) (\<lambda>cgid. map_ok (\<lambda>ns.
     [sched_series ''sched.on_cpu_ns'' ''counter'' (name_for names cgid) limits (counter_data ns)]) (u64_at 0 v))"

definition allow_cgroups :: "'w ctrl_ops \<Rightarrow> (u64, string) bmap \<Rightarrow> ('w, unit) io" where
  "allow_cgroups co names = (if names = [] then io_ok ()
     else io_each (\<lambda>(i, _). bo_allow co (u64_bytes i) [1]) (co_order co names))"

definition ctrl_warn :: "'w ctrl_ops \<Rightarrow> (u64, string) bmap \<Rightarrow> 'w \<Rightarrow> 'w" where
  "ctrl_warn co names w = (if names = [] then bo_eprint co
     (''warning: no --cgroup given; capturing all cgroups (high cardinality and cost)'' @ [newline]) w else w)"

text \<open>The gadget has its own copies of the run-time accounting.\<close>

definition ctrl_enable_stats :: "('w, 'x) bpf_ops_scheme \<Rightarrow> ('w, unit) io" where
  "ctrl_enable_stats bo = enable_run_time_stats bo '', kernel >= 5.8''"

definition ctrl_cost :: "('w, 'x) bpf_ops_scheme \<Rightarrow> string \<Rightarrow> string \<Rightarrow> u64 \<Rightarrow> f64 \<Rightarrow> ('w, json) io" where
  "ctrl_cost bo probe prog wall budget = probe_cost bo ''tp_btf'' probe prog wall budget True"

definition ctrl_main :: "'w ctrl_ops \<Rightarrow> ctrl_args \<Rightarrow> ('w, unit) io" where
  "ctrl_main co a = io_then (\<lambda>w. (ctrl_names co a w, w)) (\<lambda>names w.
     io_then (in_context ''enabling BPF run-time stats'' (ctrl_enable_stats co)) (\<lambda>_.
     io_then (bo_open co) (\<lambda>_.
     io_then (in_context ''loading eBPF object'' (bo_load co (names \<noteq> []))) (\<lambda>_.
     io_then (allow_cgroups co names) (\<lambda>_.
     io_then (in_context ''attaching to sched tracepoints'' (bo_attach co)) (\<lambda>_ w0.
     case window co (ca_duration a) w0 of (wall, w1) \<Rightarrow> let limits = bounded_card ''cgroup_id'' (ca_max_keys a) in
     io_then (io_of (each_entry (runq_entry names limits) (bo_entries co ''runq'' w1))) (\<lambda>runq.
     io_then (io_of (each_entry (oncpu_entry names limits) (bo_entries co ''oncpu_ns'' w1))) (\<lambda>oncpu.
     io_then (ctrl_cost co ''sched_wakeup'' ''on_wakeup'' wall (ca_budget a)) (\<lambda>wakeup.
     io_then (ctrl_cost co ''sched_wakeup_new'' ''on_wakeup_new'' wall (ca_budget a)) (\<lambda>wakeup_new.
     io_then (ctrl_cost co ''sched_switch'' ''on_switch'' wall (ca_budget a)) (\<lambda>switch_cost.
     emit_fragment co (ca_out a) (fragment_json (runq @ oncpu) [wakeup, wakeup_new, switch_cost]
       [(''gadget'', JString ''assayist-capture-ctrlplane''), (''window_ns'', JNumber (PosInt wall)),
        (''filter_enabled'', JBool (names \<noteq> [])),
        (''components'', JArray (map (\<lambda>(_, n). JString n) (co_order co names)))])))))) w1))))) (ctrl_warn co names w))"

section \<open>resident\<close>

record resident_args =
  ma_duration :: u64
  ma_mem :: string
  ma_out :: string

text \<open>The file's length, the page size, the mapping and \<open>mincore\<close>, each with its error.\<close>

record 'w mincore_ops =
  mo_open :: "string \<Rightarrow> 'w \<Rightarrow> string + unit"
  mo_len :: "string \<Rightarrow> 'w \<Rightarrow> string + nat"
  mo_page :: int
  mo_map :: "string \<Rightarrow> 'w \<Rightarrow> string + unit"
  mo_mincore :: "string \<Rightarrow> nat \<Rightarrow> 'w \<Rightarrow> string + u8 list"
  mo_sleep :: "u64 \<Rightarrow> 'w \<Rightarrow> 'w"
  mo_pretty :: "json \<Rightarrow> string + string"
  mo_print :: "string \<Rightarrow> 'w \<Rightarrow> 'w"
  mo_write :: "string \<Rightarrow> string \<Rightarrow> ('w, unit) io"

definition pages_of :: "nat \<Rightarrow> nat \<Rightarrow> nat" where
  "pages_of len page = (if len mod page = 0 then len div page else len div page + 1)"

definition residency :: "'w mincore_ops \<Rightarrow> 'w \<Rightarrow> string \<Rightarrow> string + u64 \<times> u64 \<times> int" where
  "residency mo w path = and_then (map_err (\<lambda>e. ''open '' @ path @ '': '' @ e) (mo_open mo path w)) (\<lambda>_.
     and_then (map_err (\<lambda>e. ''stat '' @ path @ '': '' @ e) (mo_len mo path w)) (\<lambda>len.
     if mo_page mo \<le> 0 then Inl ''bad page size''
     else if len = 0 then Inr (0, 0, mo_page mo)
     else let pages = pages_of len (nat (mo_page mo)) in
       and_then (map_err (\<lambda>e. ''mmap '' @ path @ '': '' @ e) (mo_map mo path w)) (\<lambda>_.
       map_ok (\<lambda>v. (of_nat (length (filter (\<lambda>b. and b 1 = 1) v)), of_nat pages, mo_page mo))
         (map_err (\<lambda>e. ''mincore '' @ path @ '': '' @ e) (mo_mincore mo path pages w)))))"

definition resident_gauge_json :: "string \<Rightarrow> json \<Rightarrow> json" where
  "resident_gauge_json name v = jobj [(''name'', JString name), (''unit'', JString ''1''), (''kind'', JString ''gauge''),
     (''source'', JString ''resident''), (''cardinality'', jobj [(''class'', JString ''singleton'')]),
     (''data'', jobj [(''value'', v), (''time_unix_nano'', JNumber (PosInt 0))])]"

definition sat_mul :: "u64 \<Rightarrow> u64 \<Rightarrow> u64" where
  "sat_mul a b = (if 2 ^ 64 \<le> unat a * unat b then - 1 else a * b)"

definition residency_fragment :: "resident_args \<Rightarrow> u64 \<times> u64 \<times> int \<Rightarrow> json" where
  "residency_fragment a = (\<lambda>(resident, pages, page). fragment_json
     [resident_gauge_json ''resident.snapshot_resident_pages'' (JNumber (PosInt resident)),
      resident_gauge_json ''resident.snapshot_total_pages'' (JNumber (PosInt pages)),
      resident_gauge_json ''resident.snapshot_fraction'' (json_f64 (per resident pages))] []
     [(''gadget'', JString ''assayist-capture-resident''), (''mem'', JString (ma_mem a)),
      (''page_size'', json_i64 (word_of_int page)), (''window_ns'', JNumber (PosInt (sat_mul (ma_duration a) 1000000000)))])"

definition resident_main :: "'w mincore_ops \<Rightarrow> resident_args \<Rightarrow> ('w, unit) io" where
  "resident_main mo a w = (let w1 = mo_sleep mo (ma_duration a) w in
     io_then (io_of (residency mo w1 (ma_mem a))) (\<lambda>r.
     io_then (io_of (mo_pretty mo (residency_fragment a r))) (\<lambda>text.
     if ma_out a = ''-'' then (\<lambda>w. (Inr (), mo_print mo (text @ [newline]) w))
     else io_map_err (\<lambda>e. ''writing '' @ ma_out a @ '': '' @ e) (mo_write mo (ma_out a) text))) w1)"

end
