(* ===== verification/GadgetSeries.thy ===== *)
theory GadgetSeries
  imports Gadgets
begin

text \<open>
  The histograms of the block gadget: the bounds of the explicit layout are the exact edges of the
  log-linear buckets, and the default layout collapses them octave by octave.
\<close>

section \<open>Lemmas: the log-linear edges\<close>

text \<open>The edge of a bucket as a rational: \<open>2^octave * (1 + (sub + 1) / 4)\<close>.\<close>

definition edge :: "nat \<Rightarrow> rat" where
  "edge s = 2 ^ (s div 4) * (1 + (of_nat (s mod 4) + 1) / 4)"

lemma sub_factor:
  assumes "sub < 4"
  shows "f_lit 1 + (f_of_nat sub + f_lit 1) / f_of_nat 4 = Fin (1 + (of_nat sub + 1) / 4)"
proof -
  have "f_lit 1 + (f_of_nat 0 + f_lit 1) / f_of_nat 4 = Fin (5 / 4)" "f_lit 1 + (f_of_nat 1 + f_lit 1) / f_of_nat 4 = Fin (6 / 4)"
    "f_lit 1 + (f_of_nat 2 + f_lit 1) / f_of_nat 4 = Fin (7 / 4)" "f_lit 1 + (f_of_nat 3 + f_lit 1) / f_of_nat 4 = Fin (8 / 4)"
    by code_simp+
  moreover have "sub = 0 \<or> sub = 1 \<or> sub = 2 \<or> sub = 3" using assms by linarith
  ultimately show ?thesis by auto
qed

lemma log_linear_bound_exact:
  assumes "s < 160"
  shows "log_linear_bound s = Fin (edge s)"
proof -
  define oct sub where "oct = s div 4" and "sub = s mod 4"
  have oct: "oct < 40" and sub: "sub < 4" using assms by (auto simp: oct_def sub_def)
  have small: "(2 :: nat) ^ oct \<le> 2 ^ 39" using oct by (intro power_increasing) auto
  have "uint (push_bit oct 1 :: u64) = 2 ^ oct"
  proof -
    have "(2 :: int) ^ oct < 2 ^ 64" using oct by (intro power_strict_increasing) auto
    then have "take_bit 64 ((2 :: int) ^ oct) = 2 ^ oct" using oct by (simp add: take_bit_int_eq_self)
    then have "uint (word_of_int (2 ^ oct) :: u64) = 2 ^ oct" unfolding unsigned_of_int by simp
    moreover have "(push_bit oct 1 :: u64) = word_of_int (2 ^ oct)" by (simp add: push_bit_eq_mult)
    ultimately show ?thesis by (simp only:)
  qed
  moreover have "rnd (of_int (2 ^ oct)) = Fin (of_int (2 ^ oct))"
  proof (rule rnd_of_int)
    have "(2 :: int) ^ oct \<le> 2 ^ 39" using oct by (intro power_increasing) auto
    then show "\<bar>(2 :: int) ^ oct\<bar> \<le> 2 ^ 53" by simp
  qed
  ultimately have base: "f_of_u64 (push_bit oct 1) = Fin (2 ^ oct)" by (simp add: f_of_u64_def)
  have "dyadic53 (2 ^ oct * (1 + (of_nat sub + 1) / 4))"
    unfolding dyadic53_def
  proof (intro exI conjI)
    show "2 ^ oct * (1 + (of_nat sub + 1) / 4) = (of_int (int sub + 5) :: rat) * pow2 (int oct - 2)"
      by (simp add: pow2_diff) (simp add: pow2_def field_simps)
    show "- 1074 \<le> int oct - 2" "\<bar>int sub + 5\<bar> < 2 ^ 53" using sub by simp_all
  qed
  moreover have "\<bar>2 ^ oct * (1 + (of_nat sub + 1) / 4)\<bar> < pow2 1024"
  proof -
    have "(2 :: rat) ^ oct \<le> 2 ^ 39" using oct by (intro power_increasing) auto
    moreover have "1 + (of_nat sub + 1) / 4 \<le> (2 :: rat)" using sub by simp
    ultimately have "2 ^ oct * (1 + (of_nat sub + 1) / 4) \<le> 2 ^ 39 * (2 :: rat)" by (intro mult_mono) simp_all
    moreover have "(2 :: rat) ^ 39 * 2 < pow2 1024" by (simp add: pow2_def)
    ultimately show ?thesis by simp
  qed
  ultimately have "rnd (2 ^ oct * (1 + (of_nat sub + 1) / 4)) = Fin (2 ^ oct * (1 + (of_nat sub + 1) / 4))"
    by (rule rnd_exact)
  then have "Fin (2 ^ oct) * Fin (1 + (of_nat sub + 1) / 4) = Fin (2 ^ oct * (1 + (of_nat sub + 1) / 4))"
    by (simp add: f64_defs f_mul_def add_nonneg_eq_0_iff)
  then show ?thesis using base sub_factor [OF sub]
    by (simp add: log_linear_bound_def edge_def oct_def [symmetric] sub_def [symmetric])
qed

lemma edge_step: "edge s < edge (Suc s)"
proof (cases "s mod 4 = 3")
  case True
  then have "Suc s div 4 = Suc (s div 4)" "Suc s mod 4 = 0" by presburger+
  then show ?thesis using True by (simp add: edge_def)
next
  case False
  then have "Suc s div 4 = s div 4" "Suc s mod 4 = Suc (s mod 4)" by presburger+
  then show ?thesis by (simp add: edge_def)
qed

lemma edge_less: "s < t \<Longrightarrow> edge s < edge t"
  by (rule lift_Suc_mono_less [of edge, OF edge_step])

section \<open>Properties: block latency buckets\<close>

text \<open>C40: The explicit layout of a block histogram has one bound less than buckets; each bound is
  exactly the upper edge of its log-linear bucket, no rounding moves it, and the edges grow
  strictly, the last of an octave being the first power of two above it.\<close>

theorem log_linear_edges:
  "length log_linear_bounds + 1 = MAX_SLOTS
   \<and> (\<forall>s < length log_linear_bounds. log_linear_bounds ! s = Fin (edge s))
   \<and> sorted_wrt (<) (map val log_linear_bounds)
   \<and> (\<forall>oct < MAX_OCTAVES - 1. log_linear_bounds ! (4 * oct + 3) = Fin (2 ^ (oct + 1)))"
proof (intro conjI allI impI)
  have len: "length log_linear_bounds = 159" by (simp add: log_linear_bounds_def)
  show "length log_linear_bounds + 1 = MAX_SLOTS" by (simp add: len)
  show nth: "log_linear_bounds ! s = Fin (edge s)" if "s < length log_linear_bounds" for s
    using that by (simp add: log_linear_bounds_def log_linear_bound_exact)
  show "sorted_wrt (<) (map val log_linear_bounds)"
    by (simp add: sorted_wrt_iff_nth_less len nth edge_less)
  show "log_linear_bounds ! (4 * oct + 3) = Fin (2 ^ (oct + 1))" if "oct < MAX_OCTAVES - 1" for oct
    using that nth [of "4 * oct + 3"] by (simp add: len edge_def)
qed

theorem log_linear_edges_witness: "log_linear_bounds ! 15 = Fin 16"
  using log_linear_edges by (auto dest: spec [of _ 3])

section \<open>Lemmas: collapsing\<close>

lemma collapse_step:
  assumes "length octaves = MAX_OCTAVES" and "k + length slots \<le> MAX_SLOTS" and "oct < MAX_OCTAVES"
  shows "foldl (\<lambda>octaves (i, c). octaves[i div 4 := octaves ! (i div 4) + c]) octaves (enumerate k slots) ! oct
    = octaves ! oct + sum_list (map (\<lambda>(i, c). if i div 4 = oct then c else 0) (enumerate k slots))"
  using assms
proof (induction slots arbitrary: octaves k)
  case (Cons c slots)
  have "k div 4 < MAX_OCTAVES" using Cons.prems(2) by (simp add: div_less_iff_less_mult)
  then show ?case using Cons by (simp add: nth_list_update algebra_simps)
qed simp

lemma enumerate_sum:
  "sum_list (map (\<lambda>(i, c). if P i then c else 0) (enumerate k xs))
     = (\<Sum>i \<leftarrow> [0..<length xs]. if P (k + i) then xs ! i else (0 :: u32))"
proof (induction xs arbitrary: k)
  case (Cons x xs)
  have "[0..<Suc (length xs)] = 0 # map Suc [0..<length xs]" by (simp add: upt_conv_Cons map_Suc_upt del: upt_Suc)
  moreover have "(if P (Suc (k + i)) then xs ! i else 0) = (if P (k + Suc i) then (x # xs) ! Suc i else 0)" for i by simp
  ultimately show ?case using Cons.IH [of "Suc k"] by (simp add: comp_def del: upt_Suc)
qed simp

text \<open>The sum over the slots of one octave.\<close>

lemma octave_sum:
  assumes "length slots = MAX_SLOTS" and "oct < MAX_OCTAVES"
  shows "(\<Sum>i \<leftarrow> [0..<MAX_SLOTS]. if i div 4 = oct then slots ! i else (0 :: u32))
    = slots ! (4 * oct) + slots ! (4 * oct + 1) + slots ! (4 * oct + 2) + slots ! (4 * oct + 3)"
proof -
  let ?f = "\<lambda>i. if i div 4 = oct then slots ! i else 0"
  have "(\<Sum>i \<leftarrow> [0..<MAX_SLOTS]. ?f i) = (\<Sum>i \<in> {0..<MAX_SLOTS}. ?f i)" by (simp add: interv_sum_list_conv_sum_set_nat)
  also have "\<dots> = (\<Sum>i \<in> {i \<in> {0..<MAX_SLOTS}. i div 4 = oct}. slots ! i)" by (rule sum.inter_filter [symmetric]) simp
  also have "{i \<in> {0..<MAX_SLOTS}. i div 4 = oct} = {4 * oct, 4 * oct + 1, 4 * oct + 2, 4 * oct + 3}"
    using assms(2) by auto
  finally show ?thesis by (simp add: add.assoc)
qed

text \<open>Collapsing the log-linear histogram gives octave by octave the sum of its four
  sub-buckets, the counts a plain log2 histogram would hold; the sums are of 32 bits.\<close>

theorem collapse_octaves:
  assumes "length slots = MAX_SLOTS"
  shows "collapse_to_log2 slots = map (\<lambda>oct. slots ! (4 * oct) + slots ! (4 * oct + 1) + slots ! (4 * oct + 2)
    + slots ! (4 * oct + 3)) [0..<MAX_OCTAVES]"
proof (rule nth_equalityI)
  have len: "length (foldl (\<lambda>octaves (i, c). octaves[i div 4 := octaves ! (i div 4) + c]) octaves xs) = length octaves"
    for octaves :: "u32 list" and xs by (induction xs arbitrary: octaves) auto
  show l: "length (collapse_to_log2 slots) = length (map (\<lambda>oct. slots ! (4 * oct) + slots ! (4 * oct + 1)
      + slots ! (4 * oct + 2) + slots ! (4 * oct + 3)) [0..<MAX_OCTAVES])"
    by (simp add: collapse_to_log2_def len)
  fix oct assume "oct < length (collapse_to_log2 slots)"
  then have oct: "oct < MAX_OCTAVES" using l by simp
  have "collapse_to_log2 slots ! oct = sum_list (map (\<lambda>(i, c). if i div 4 = oct then c else 0) (enumerate 0 slots))"
    using collapse_step [of "replicate MAX_OCTAVES 0" 0 slots oct] assms oct by (simp add: collapse_to_log2_def)
  also have "\<dots> = slots ! (4 * oct) + slots ! (4 * oct + 1) + slots ! (4 * oct + 2) + slots ! (4 * oct + 3)"
    using octave_sum [OF assms oct] assms by (simp add: enumerate_sum)
  finally show "collapse_to_log2 slots ! oct = map (\<lambda>oct. slots ! (4 * oct) + slots ! (4 * oct + 1) + slots ! (4 * oct + 2)
      + slots ! (4 * oct + 3)) [0..<MAX_OCTAVES] ! oct" using oct by simp
qed

theorem collapse_octaves_witness: "collapse_to_log2 (replicate 160 1) ! 7 = 4"
  using collapse_octaves [of "replicate 160 1"] by simp

end
