(* ===== verification/Schema.thy ===== *)
theory Schema
  imports Gate
begin

text \<open>
  The contract \<open>contract/assay-run.schema.json\<close> as checks on a JSON value: the record with its
  identity, fingerprint, spans, series, probe costs, gate context and outcome. An object schema is
  the list of its properties, each with whether it is required and the check of its value;
  \<open>additionalProperties\<close> is false in all of them.
\<close>

section \<open>Checks of a value\<close>

definition shape :: "(string \<times> bool \<times> (json \<Rightarrow> bool)) list \<Rightarrow> json \<Rightarrow> bool" where
  "shape ps v = (case as_object v of None \<Rightarrow> False
     | Some m \<Rightarrow> list_all (\<lambda>k. k \<in> set (map fst ps)) (bm_keys m)
         \<and> list_all (\<lambda>(k, required, p). case bm_get m k of None \<Rightarrow> \<not> required | Some x \<Rightarrow> p x) ps)"

definition is_str :: "json \<Rightarrow> bool" where
  "is_str v = (as_str v \<noteq> None)"

definition is_boolean :: "json \<Rightarrow> bool" where
  "is_boolean v = (as_bool v \<noteq> None)"

definition is_one_of :: "string list \<Rightarrow> json \<Rightarrow> bool" where
  "is_one_of names v = (case as_str v of None \<Rightarrow> False | Some s \<Rightarrow> s \<in> set names)"

definition is_number :: "json \<Rightarrow> bool" where
  "is_number v = (as_f64 v \<noteq> None)"

text \<open>A number whose binary64 is in a range; one of at least 0.\<close>

definition is_number_in :: "(f64 \<Rightarrow> bool) \<Rightarrow> json \<Rightarrow> bool" where
  "is_number_in p v = (case as_f64 v of None \<Rightarrow> False | Some x \<Rightarrow> p x)"

definition is_nonneg :: "json \<Rightarrow> bool" where
  "is_nonneg = is_number_in (\<lambda>x. 0 \<le> x)"

text \<open>An integer of at least \<open>least\<close>, as the writers give it: an unsigned 64-bit one.\<close>

definition is_uint :: "nat \<Rightarrow> json \<Rightarrow> bool" where
  "is_uint least v = (case as_u64 v of None \<Rightarrow> False | Some w \<Rightarrow> least \<le> unat w)"

definition is_list_of :: "(json \<Rightarrow> bool) \<Rightarrow> json \<Rightarrow> bool" where
  "is_list_of p v = (case as_array v of None \<Rightarrow> False | Some xs \<Rightarrow> list_all p xs)"

definition is_text :: "(string \<Rightarrow> bool) \<Rightarrow> json \<Rightarrow> bool" where
  "is_text p v = (case as_str v of None \<Rightarrow> False | Some s \<Rightarrow> p s)"

definition is_object_of :: "(json \<Rightarrow> bool) \<Rightarrow> json \<Rightarrow> bool" where
  "is_object_of p v = (case as_object v of None \<Rightarrow> False | Some m \<Rightarrow> list_all p (bm_values m))"

fun is_scalar :: "json \<Rightarrow> bool" where
  "is_scalar (JString s) = True"
| "is_scalar (JNumber n) = True"
| "is_scalar (JBool b) = True"
| "is_scalar JNull = False"
| "is_scalar (JArray xs) = False"
| "is_scalar (JObject m) = False"

definition is_scalar_map :: "json \<Rightarrow> bool" where
  "is_scalar_map = is_object_of is_scalar"

section \<open>The definitions of the contract\<close>

definition cardinality_ok :: "json \<Rightarrow> bool" where
  "cardinality_ok v = (shape [(''class'', True, is_one_of [''singleton'', ''bounded'']),
      (''key_source'', False, is_one_of [''vcpu_pid_map'', ''cgroup_id'', ''guest_index'', ''device'', ''netdev'', ''vm_id'']),
      (''max_keys'', False, is_uint 1)] v
    \<and> (get_str v ''class'' = Some ''bounded'' \<longrightarrow> jget v ''key_source'' \<noteq> None \<and> jget v ''max_keys'' \<noteq> None))"

definition histogram_ok :: "json \<Rightarrow> bool" where
  "histogram_ok v = (shape [(''layout'', True, is_one_of [''log2'', ''explicit'']),
      (''buckets'', True, is_list_of (is_uint 0)), (''explicit_bounds'', False, is_list_of is_number),
      (''sum'', False, is_number), (''count'', True, is_uint 0)] v
    \<and> (get_str v ''layout'' = Some ''explicit'' \<longrightarrow> jget v ''explicit_bounds'' \<noteq> None))"

definition counter_ok :: "json \<Rightarrow> bool" where
  "counter_ok = shape [(''value'', True, is_uint 0), (''start_unix_nano'', True, is_uint 0)]"

definition gauge_ok :: "json \<Rightarrow> bool" where
  "gauge_ok = shape [(''value'', True, is_number), (''time_unix_nano'', True, is_uint 0)]"

text \<open>
  The data is of exactly one of the three forms (their required and allowed fields exclude each
  other), the one of the series' kind.
\<close>

definition data_ok :: "string \<Rightarrow> json \<Rightarrow> bool" where
  "data_ok kind d = (if kind = ''histogram'' then histogram_ok d else if kind = ''counter'' then counter_ok d
     else gauge_ok d)"

definition series_ok :: "json \<Rightarrow> bool" where
  "series_ok v = (shape [(''name'', True, is_str), (''unit'', True, is_str),
      (''kind'', True, is_one_of [''histogram'', ''counter'', ''gauge'']), (''source'', True, is_str),
      (''key'', False, is_str), (''labels'', False, is_scalar_map), (''cardinality_overflow'', False, is_boolean),
      (''cardinality'', True, cardinality_ok), (''data'', True, data_ok (or_else (get_str v ''kind'') ''''))] v)"

definition cost_ok :: "json \<Rightarrow> bool" where
  "cost_ok = shape [(''probe_id'', True, is_str),
      (''attach_kind'', True, is_one_of [''tp_btf'', ''tracepoint'', ''fentry'', ''fexit'', ''kprobe'', ''kretprobe'',
         ''uprobe'', ''xdp'', ''tc'']),
      (''run_time_ns'', True, is_uint 0), (''run_cnt'', True, is_uint 0), (''mean_ns'', True, is_nonneg),
      (''steady_cpu_fraction'', True, is_nonneg), (''over_budget'', True, is_boolean), (''hot_path'', False, is_boolean)]"

definition lifecycle_ok :: "json \<Rightarrow> bool" where
  "lifecycle_ok = shape [(''name'', True, is_str), (''start_unix_nano'', True, is_uint 0), (''end_unix_nano'', True, is_uint 0),
      (''parent'', False, is_str), (''attributes'', False, is_scalar_map)]"

definition identity_ok :: "json \<Rightarrow> bool" where
  "identity_ok = shape [(''target_adapter'', True, is_str), (''target_adapter_version'', True, is_str),
      (''workload_driver'', True, is_str), (''workload_driver_version'', True, is_str),
      (''sut_git_sha'', True, is_text (\<lambda>s. 7 \<le> length s)), (''params'', True, is_scalar_map), (''params_hash'', True, is_str),
      (''benchmark_def_sha'', True, is_str), (''source'', False, is_one_of [''captured'', ''imported''])]"

definition fingerprint_ok :: "json \<Rightarrow> bool" where
  "fingerprint_ok = shape [(''hostname'', True, is_str), (''kernel_version'', True, is_str), (''os_release'', True, is_str),
      (''cpu_model'', True, is_str), (''cpu_count_logical'', True, is_uint 1), (''cpu_count_physical'', True, is_uint 1),
      (''smt_enabled'', True, is_boolean), (''cpu_governor'', True, is_str),
      (''thp_setting'', True, is_one_of [''always'', ''madvise'', ''never'']), (''total_memory_bytes'', True, is_uint 0),
      (''kvm_present'', True, is_boolean), (''tenancy'', True, is_one_of [''single_tenant'', ''density'']),
      (''tuning_requested'', True, is_scalar_map), (''tuning_readback'', True, is_scalar_map),
      (''numa_topology'', False, is_object_of (\<lambda>_. True)), (''pinning_layout'', False, is_object_of (\<lambda>_. True)),
      (''mitigations'', False, is_object_of is_str), (''microcode_version'', False, is_str), (''nested_virt'', False, is_boolean)]"

definition gate_context_ok :: "json \<Rightarrow> bool" where
  "gate_context_ok = shape [(''mode'', True, is_one_of [''ab_permutation'', ''longitudinal_drift'', ''subsystem_triad'']),
      (''baseline_ref'', True, is_str), (''p_threshold'', True, is_number_in (\<lambda>x. 0 < x \<and> x \<le> 1)),
      (''noise_threshold'', True, is_number_in (\<lambda>x. 0 \<le> x \<and> x \<le> 1)), (''resamples'', True, is_uint 1),
      (''ignore'', False, is_list_of is_str), (''tenancy'', True, is_one_of [''single_tenant'', ''density''])]"

definition outcome_ok :: "json \<Rightarrow> bool" where
  "outcome_ok = shape [(''verdict'', True, is_one_of [''pass'', ''fail'', ''contaminated'']),
      (''per_metric'', False, is_object_of (shape [(''delta'', True, is_number), (''p'', True, is_number_in (\<lambda>x. 0 \<le> x \<and> x \<le> 1)),
         (''significant'', True, is_boolean), (''noisy'', True, is_boolean)])),
      (''notes'', False, is_list_of is_str)]"

text \<open>The pattern of a run id: 26 characters of Crockford's alphabet. That of a version: major 0.\<close>

definition ulid_text :: "string \<Rightarrow> bool" where
  "ulid_text s = (length s = 26 \<and> set s \<subseteq> set ''0123456789ABCDEFGHJKMNPQRSTVWXYZ'')"

definition version_text :: "string \<Rightarrow> bool" where
  "version_text s = (case split_on (\<lambda>c. c = CHR ''.'') s of
     [a, b, c] \<Rightarrow> a = ''0'' \<and> b \<noteq> [] \<and> list_all is_ascii_digit b \<and> c \<noteq> [] \<and> list_all is_ascii_digit c | _ \<Rightarrow> False)"

text \<open>The record, with the check of its run id as an argument.\<close>

definition record_shape :: "(json \<Rightarrow> bool) \<Rightarrow> json \<Rightarrow> bool" where
  "record_shape run_id_ok = shape [(''schema_version'', True, is_text version_text), (''run_id'', True, run_id_ok),
      (''grade'', True, is_one_of [''reproducible'', ''valid'', ''invalid'']), (''identity'', True, identity_ok),
      (''fingerprint'', True, fingerprint_ok), (''spans'', False, is_list_of lifecycle_ok), (''series'', False, is_list_of series_ok),
      (''self_metrics'', False, is_list_of cost_ok), (''gate'', True, gate_context_ok), (''outcome'', False, outcome_ok),
      (''workload_report'', False, \<lambda>_. True)]"

definition record_ok :: "json \<Rightarrow> bool" where
  "record_ok = record_shape (is_text ulid_text)"

section \<open>Lemmas\<close>

lemma keys_jobj: "fst ` set (fold (\<lambda>(k, v). bm_insert k v) kvs m) = fst ` set kvs \<union> fst ` set m"
  by (induction kvs arbitrary: m) (simp_all add: case_prod_unfold)

lemma shape_jobj: "shape ps (jobj kvs) \<longleftrightarrow> set (map fst kvs) \<subseteq> set (map fst ps)
    \<and> list_all (\<lambda>(k, required, p). case map_of (rev kvs) k of None \<Rightarrow> \<not> required | Some x \<Rightarrow> p x) ps"
proof -
  have "bm_get (fold (\<lambda>(k, v). bm_insert k v) kvs bm_empty) k = map_of (rev kvs) k" for k
    using jget_jobj [of kvs k] by (simp add: jobj_def)
  moreover have "list_all (\<lambda>k. k \<in> set (map fst ps)) (bm_keys (fold (\<lambda>(k, v). bm_insert k v) kvs bm_empty))
      \<longleftrightarrow> set (map fst kvs) \<subseteq> set (map fst ps)"
    using keys_jobj [of kvs bm_empty] by (auto simp: list_all_iff bm_empty_def)
  ultimately show ?thesis by (simp add: shape_def jobj_def)
qed

text \<open>Field by field: enough that every field written has its property's check, and the required ones are there.\<close>

definition field_ok :: "(string \<times> bool \<times> (json \<Rightarrow> bool)) list \<Rightarrow> string \<times> json \<Rightarrow> bool" where
  "field_ok ps kv = (case map_of ps (fst kv) of None \<Rightarrow> False | Some rp \<Rightarrow> snd rp (snd kv))"

lemma shape_jobjI:
  assumes "distinct (map fst ps)" and "list_all (field_ok ps) kvs"
    and "list_all (\<lambda>(k, required, p). required \<longrightarrow> k \<in> set (map fst kvs)) ps"
  shows "shape ps (jobj kvs)"
proof -
  have "fst kv \<in> set (map fst ps)" if "kv \<in> set kvs" for kv
    using assms(2) that by (force simp: list_all_iff field_ok_def dest: map_of_SomeD split: option.splits)
  moreover have "case map_of (rev kvs) k of None \<Rightarrow> \<not> required | Some x \<Rightarrow> p x" if m: "(k, required, p) \<in> set ps" for k required p
  proof (cases "map_of (rev kvs) k")
    case None
    then have "k \<notin> set (map fst kvs)" by (simp add: map_of_eq_None_iff)
    then show ?thesis using assms(3) m None by (auto simp: list_all_iff)
  next
    case (Some x)
    have "field_ok ps (k, x)" using map_of_SomeD [OF Some] assms(2) by (auto simp: list_all_iff)
    moreover have "map_of ps k = Some (required, p)" using m assms(1) by simp
    ultimately show ?thesis using Some by (simp add: field_ok_def)
  qed
  ultimately show ?thesis unfolding shape_jobj list_all_iff by auto
qed

lemma shapeD: "shape ps v \<Longrightarrow> (k, required, p) \<in> set ps \<Longrightarrow> jget v k = Some x \<Longrightarrow> p x"
  by (cases v) (auto simp: shape_def list_all_iff)

lemmas value_checks = is_str_def is_boolean_def is_one_of_def is_number_def is_uint_def is_list_of_def

lemma rnd_finite: "\<bar>q\<bar> \<le> pow2 1023 \<Longrightarrow> f_finite (rnd q)"
proof -
  assume q: "\<bar>q\<bar> \<le> pow2 1023"
  have "dyadic53 (pow2 1023)" unfolding dyadic53_def by (rule exI [of _ 1], rule exI [of _ 1023]) simp
  then have e: "rnd_fin (pow2 1023) = pow2 1023" by (rule rnd_fin_exact)
  have "rnd_fin q \<le> pow2 1023" "rnd_fin (- q) \<le> pow2 1023"
    using rnd_fin_mono [of q "pow2 1023"] rnd_fin_mono [of "- q" "pow2 1023"] q e by auto
  moreover have "pow2 1023 < pow2 1024" by simp
  ultimately have "\<not> pow2 1024 \<le> rnd_fin q" "\<not> rnd_fin q \<le> - pow2 1024"
    unfolding rnd_fin_minus by linarith+
  then show ?thesis by (simp add: rnd_def Let_def)
qed

lemma is_nonneg_json: "f_finite x \<Longrightarrow> 0 \<le> x \<Longrightarrow> is_nonneg (json_f64 x)"
  by (simp add: is_nonneg_def is_number_in_def json_f64_def)

end
