(* ===== verification/GadgetTypes.thy ===== *)
theory GadgetTypes
  imports GadgetSeries Schema Adapter
begin

text \<open>
  The fragments the capture gadgets write are of the contract's types: every series is a
  \<open>MetricSeries\<close>, every cost a \<open>ProbeCost\<close>, and every series names as its source a probe
  whose cost the fragment carries.
\<close>

section \<open>Lemmas: the values written\<close>

lemma f_of_u64_range:
  shows "\<exists>r. f_of_u64 w = Fin r \<and> 0 \<le> r \<and> r \<le> pow2 64 \<and> (0 < w \<longrightarrow> 1 \<le> r)"
proof -
  define q :: rat where "q = of_int (uint w)"
  have "uint w < 2 ^ 64" using uint_lt2p [of w] by simp
  then have "(of_int (uint w) :: rat) \<le> of_int (2 ^ 64)" by (intro of_int_le_iff [THEN iffD2]) simp
  then have "q \<le> pow2 64" by (simp add: q_def pow2_def)
  moreover have "0 \<le> q" unfolding q_def by (simp only: of_int_0_le_iff uint_ge_0)
  ultimately have q: "0 \<le> q" "q \<le> pow2 64" by simp_all
  have "dyadic53 (pow2 64)" unfolding dyadic53_def by (rule exI [of _ 1], rule exI [of _ 64]) simp
  then have "rnd_fin (pow2 64) = pow2 64" by (rule rnd_fin_exact)
  then have hi: "rnd_fin q \<le> pow2 64" using rnd_fin_mono [OF q(2)] by simp
  have lo: "0 \<le> rnd_fin q" using q(1) by (rule rnd_fin_nonneg)
  have one: "1 \<le> rnd_fin q" if "0 < w"
  proof -
    have "1 \<le> uint w" using that by (simp add: word_less_def)
    then have "(of_int 1 :: rat) \<le> q" unfolding q_def by (simp only: of_int_le_iff)
    then show ?thesis using rnd_fin_mono [of "of_int 1" q] rnd_fin_of_int [of 1] by simp
  qed
  have "pow2 64 < pow2 1024" by simp
  then have "\<not> pow2 1024 \<le> rnd_fin q" using hi by linarith
  moreover have "\<not> rnd_fin q \<le> - pow2 1024" using lo pow2_pos [of 1024] by linarith
  ultimately have "f_of_u64 w = Fin (rnd_fin q)" using q(1) by (simp add: f_of_u64_def rnd_def q_def Let_def)
  then show ?thesis using hi lo one by blast
qed

lemma per_range: "f_finite (per a b) \<and> 0 \<le> per a b"
proof (cases "0 < b")
  case True
  obtain x where x: "f_of_u64 a = Fin x" "0 \<le> x" "x \<le> pow2 64" using f_of_u64_range by blast
  obtain y where y: "f_of_u64 b = Fin y" "1 \<le> y" using f_of_u64_range [of b] True by blast
  have "x / y \<le> x / 1" using x(2) y(2) by (intro divide_left_mono) auto
  moreover have "pow2 64 \<le> pow2 1023" by simp
  ultimately have "x / y \<le> pow2 1023" using x(3) by linarith
  moreover have nonneg: "0 \<le> x / y" using x(2) y(2) by simp
  ultimately have "f_finite (rnd (x / y))" by (intro rnd_finite) simp
  moreover have "0 \<le> rnd (x / y)" using rnd_mono [OF nonneg] by (simp add: f64_defs)
  ultimately show ?thesis using True x(1) y(1,2)
    by (auto simp: per_def f64_defs f_div_def zero_of_def)
next
  case False
  then show ?thesis by (simp add: per_def f_lit_def f64_defs)
qed

lemma cost_typed:
  assumes "attach \<in> {''tp_btf'', ''tracepoint'', ''xdp'', ''tc''}"
  shows "cost_ok (cost_json attach probe hot budget wall r)"
proof (cases r)
  case (Pair time cnt)
  have "is_nonneg (json_f64 (per a b))" for a b using per_range by (blast intro: is_nonneg_json)
  then show ?thesis using assms
    by (auto simp: Pair cost_json_def cost_ok_def shape_jobj value_checks)
qed

lemma bounded_card_typed:
  assumes "0 < n" and "source \<in> {''cgroup_id'', ''device'', ''netdev''}"
  shows "cardinality_ok (bounded_card source n)"
proof -
  have "1 \<le> unat n" using assms(1) by (simp add: word_less_nat_alt)
  then show ?thesis using assms(2)
    by (auto simp: cardinality_ok_def bounded_card_def shape_jobj value_checks get_str_def jget_jobj)
qed

lemma counter_data_typed: "counter_ok (counter_data v)"
  by (simp add: counter_ok_def counter_data_def shape_jobj value_checks)

lemma u32s_typed: "is_list_of (is_uint 0) (u32s_json ws)" "is_list_of is_number (u32s_json ws)"
  by (auto simp: u32s_json_def value_checks list_all_iff)

lemma log2_data_typed: "histogram_ok (log2_data slots n)"
  using u32s_typed by (simp add: histogram_ok_def log2_data_def shape_jobj is_one_of_def is_uint_def get_str_def jget_jobj)

lemma bounds_typed: "is_list_of is_number (JArray (map json_f64 log_linear_bounds))"
  by (simp add: is_list_of_def list_all_iff log_linear_bounds_def log_linear_bound_exact is_number_def json_f64_def)

lemma hist_data_typed: "histogram_ok (hist_data hires slots n)"
proof (cases hires)
  case True
  then show ?thesis using u32s_typed(1) bounds_typed
    by (simp add: hist_data_def histogram_ok_def shape_jobj is_one_of_def is_uint_def get_str_def jget_jobj)
next
  case False
  then show ?thesis by (simp add: hist_data_def log2_data_typed)
qed

lemmas series_typed_simps = series_ok_def shape_jobj is_str_def is_one_of_def get_str_def jget_jobj data_ok_def

lemma kvm_series_typed:
  "ka_per_guest a \<longrightarrow> 0 < ka_max_keys a \<Longrightarrow> series_ok (kvm_series a vendor cgroup reason slots n)"
  using bounded_card_typed [of "ka_max_keys a" "''cgroup_id''"]
  by (auto simp: kvm_series_def kvm_card_def series_typed_simps log2_data_typed cardinality_ok_def)

lemma block_series_typed:
  assumes "0 < n" and "kind = ''histogram'' \<and> histogram_ok d \<or> kind = ''counter'' \<and> counter_ok d"
  shows "series_ok (block_series name u kind key (bounded_card ''device'' n) d)"
  using assms(2) bounded_card_typed [OF assms(1), of "''device''"]
  by (auto simp: block_series_def series_typed_simps)

lemma net_series_typed:
  assumes "0 < n" and "kind = ''histogram'' \<and> histogram_ok d \<or> kind = ''counter'' \<and> counter_ok d"
  shows "series_ok (net_series dir what u kind key (bounded_card ''netdev'' n) d)"
  using assms(2) bounded_card_typed [OF assms(1), of "''netdev''"]
  by (auto simp: net_series_def series_typed_simps)

lemma sched_series_typed:
  assumes "0 < n" and "kind = ''histogram'' \<and> histogram_ok d \<or> kind = ''counter'' \<and> counter_ok d"
  shows "series_ok (sched_series name kind key (bounded_card ''cgroup_id'' n) d)"
  using assms(2) bounded_card_typed [OF assms(1), of "''cgroup_id''"]
  by (auto simp: sched_series_def series_typed_simps)

lemma gauge_typed: "is_number v \<Longrightarrow> series_ok (resident_gauge_json name v)"
  by (simp add: resident_gauge_json_def series_typed_simps gauge_ok_def is_uint_def cardinality_ok_def)

section \<open>Fragments\<close>

text \<open>What the contract says of a fragment's series and costs.\<close>

definition fragment_ok :: "json \<Rightarrow> bool" where
  "fragment_ok v = (is_list_of series_ok (jindex v ''series'') \<and> is_list_of cost_ok (jindex v ''self_metrics''))"

text \<open>The source of an eBPF-sourced series is the probe id of one of the costs.\<close>

definition sources_known :: "json \<Rightarrow> bool" where
  "sources_known v = (case (get_array v ''series'', get_array v ''self_metrics'') of
     (Some ss, Some cs) \<Rightarrow> list_all (\<lambda>s. list_ex (\<lambda>c. get_str s ''source'' \<noteq> None \<and> get_str c ''probe_id'' = get_str s ''source'') cs) ss
   | _ \<Rightarrow> False)"

lemma fragment_parts:
  "jget (fragment_json series costs meta) ''series'' = Some (JArray series)"
  "jget (fragment_json series costs meta) ''self_metrics'' = Some (JArray costs)"
  by (simp_all add: fragment_json_def jget_jobj)

lemma fragment_okI:
  "\<forall>s \<in> set series. series_ok s \<Longrightarrow> \<forall>c \<in> set costs. cost_ok c \<Longrightarrow> fragment_ok (fragment_json series costs meta)"
  by (simp add: fragment_ok_def jindex_def fragment_parts is_list_of_def list_all_iff)

lemma sources_knownI:
  assumes "\<forall>s \<in> set series. \<exists>c \<in> set costs. get_str s ''source'' = Some (src s) \<and> get_str c ''probe_id'' = Some (src s)"
  shows "sources_known (fragment_json series costs meta)"
  using assms by (force simp: sources_known_def get_array_def fragment_parts list_all_iff list_ex_iff)

lemma each_entry_mem: "each_entry g es = Inr ss \<Longrightarrow> s \<in> set ss \<Longrightarrow> \<exists>k v ss'. g k v = Inr ss' \<and> s \<in> set ss'"
  by (induction g es arbitrary: ss rule: each_entry.induct)
    (auto simp: result_simps split: sum.splits option.splits, blast)

lemma probe_cost_Inr: "probe_cost bo attach probe prog wall budget hot w = (Inr c, w') \<Longrightarrow>
    \<exists>r. c = cost_json attach probe hot budget wall r"
  by (auto simp: probe_cost_def io_simps)

lemma cost_probe: "get_str (cost_json attach probe hot budget wall r) ''probe_id'' = Some probe"
  by (cases r) (simp add: cost_json_def get_str_def jget_jobj)

lemma sources:
  "get_str (kvm_series a vendor cgroup reason slots n) ''source'' = Some ''kvm_exit''"
  "get_str (block_series name u kind key limits d) ''source'' = Some ''block_rq_complete''"
  "get_str (net_series dir what u kind key limits d) ''source'' = Some (if dir = ''rx'' then ''tap_rx'' else ''tap_tx'')"
  "get_str (sched_series name kind key limits d) ''source'' = Some ''sched_switch''"
  by (simp_all add: kvm_series_def block_series_def net_series_def sched_series_def get_str_def jget_jobj)

lemma kvm_entry_typed:
  assumes "each_entry (kvm_entry a vendor) es = Inr ss" and "s \<in> set ss" and "ka_per_guest a \<longrightarrow> 0 < ka_max_keys a"
  shows "series_ok s \<and> get_str s ''source'' = Some ''kvm_exit''"
  using each_entry_mem [OF assms(1,2)] kvm_series_typed [OF assms(3)]
  by (auto simp: kvm_entry_def result_simps sources split: if_splits)

lemma block_entry_typed:
  assumes "each_entry (block_entry a) es = Inr ss" and "s \<in> set ss" and "0 < ba_max_keys a"
  shows "series_ok s \<and> get_str s ''source'' = Some ''block_rq_complete''"
  using each_entry_mem [OF assms(1,2)] block_series_typed [OF assms(3)]
  by (auto simp: block_entry_def result_simps sources hist_data_typed counter_data_typed Let_def split: if_splits)

lemma push_dir_typed:
  assumes "s \<in> set (push_dir (bounded_card ''netdev'' n) key dir pkts byts sizes)" and "0 < n"
  shows "series_ok s \<and> get_str s ''source'' = Some (if dir = ''rx'' then ''tap_rx'' else ''tap_tx'')"
proof -
  have "histogram_ok (jobj [(''layout'', JString ''explicit''), (''explicit_bounds'', u32s_json size_bounds),
      (''buckets'', u32s_json sizes), (''count'', JNumber (PosInt (slot_count sizes)))])"
    using u32s_typed by (simp add: histogram_ok_def shape_jobj is_one_of_def is_uint_def get_str_def jget_jobj)
  then show ?thesis using assms(1) net_series_typed [OF assms(2)]
    by (auto simp: push_dir_def sources counter_data_typed split: if_splits)
qed

lemma net_entry_typed:
  assumes "each_entry (net_entry no w a) es = Inr ss" and "s \<in> set ss" and "0 < ta_max_keys a"
  shows "series_ok s \<and> (get_str s ''source'' = Some ''tap_rx'' \<or> ta_tx a \<and> get_str s ''source'' = Some ''tap_tx'')"
proof -
  obtain k v ss' where e: "net_entry no w a k v = Inr ss'" "s \<in> set ss'" using each_entry_mem [OF assms(1,2)] by blast
  then show ?thesis using push_dir_typed [OF _ assms(3), of s _ "''rx''"] push_dir_typed [OF _ assms(3), of s _ "''tx''"]
    by (auto simp: net_entry_def result_simps Let_def split: if_splits) fastforce+
qed

lemma sched_entry_typed:
  assumes "s \<in> set ss" and "0 < n" and "each_entry (runq_entry names (bounded_card ''cgroup_id'' n)) es = Inr ss
     \<or> each_entry (oncpu_entry names (bounded_card ''cgroup_id'' n)) es = Inr ss"
  shows "series_ok s \<and> get_str s ''source'' = Some ''sched_switch''"
  using assms(3)
proof
  assume r: "each_entry (runq_entry names (bounded_card ''cgroup_id'' n)) es = Inr ss"
  show ?thesis using each_entry_mem [OF r assms(1)] sched_series_typed [OF assms(2)]
    by (auto simp: runq_entry_def result_simps sources log2_data_typed split: if_splits)
next
  assume r: "each_entry (oncpu_entry names (bounded_card ''cgroup_id'' n)) es = Inr ss"
  show ?thesis using each_entry_mem [OF r assms(1)] sched_series_typed [OF assms(2)]
    by (auto simp: oncpu_entry_def result_simps sources counter_data_typed split: if_splits)
qed

section \<open>The gadgets\<close>

text \<open>The world a gadget leaves is the one in which it wrote a fragment of the contract's types.\<close>

definition emitted_ok :: "('w, 'x) bpf_ops_scheme \<Rightarrow> string \<Rightarrow> 'w \<Rightarrow> bool" where
  "emitted_ok bo out w' = (\<exists>frag w. fragment_ok frag \<and> sources_known frag \<and> emit_fragment bo out frag w = (Inr (), w'))"

lemma emitted_okI:
  assumes "emit_fragment bo out (fragment_json series costs meta) w = (Inr (), w')"
    and "\<And>s. s \<in> set series \<Longrightarrow> series_ok s \<and> (\<exists>c \<in> set costs. \<exists>p. get_str s ''source'' = Some p \<and> get_str c ''probe_id'' = Some p)"
    and "\<forall>c \<in> set costs. cost_ok c"
  shows "emitted_ok bo out w'"
  unfolding emitted_ok_def
proof (intro exI conjI)
  show "emit_fragment bo out (fragment_json series costs meta) w = (Inr (), w')" by (rule assms(1))
  show "fragment_ok (fragment_json series costs meta)" using assms(2,3) by (intro fragment_okI) auto
  show "sources_known (fragment_json series costs meta)"
    using assms(2) by (intro sources_knownI [of _ _ "\<lambda>s. the (get_str s ''source'')"]) fastforce
qed

lemma kvm_main_typed:
  assumes "kvm_main bo a w = (Inr (), w')" and "ka_per_guest a \<longrightarrow> 0 < ka_max_keys a"
  shows "emitted_ok bo (ka_out a) w'"
proof -
  obtain es ss vendor wall most w1 w2 w3 exit_cost entry_cost where
    ss: "Inr ss = each_entry (kvm_entry a vendor) es"
    and c1: "probe_cost bo ''tracepoint'' ''kvm_exit'' ''handle_kvm_exit'' wall (ka_budget a) True w1 = (Inr exit_cost, w2)"
    and c2: "probe_cost bo ''tracepoint'' ''kvm_entry'' ''handle_kvm_entry'' wall (ka_budget a) True w2 = (Inr entry_cost, w3)"
    and e: "emit_fragment bo (ka_out a) (kvm_fragment a vendor wall most ss [exit_cost, entry_cost]) w3 = (Inr (), w')"
    using assms(1) by (auto simp: kvm_main_def Let_def io_simps prod.case_eq_if)
  obtain r1 r2 where c: "exit_cost = cost_json ''tracepoint'' ''kvm_exit'' True (ka_budget a) wall r1"
    "entry_cost = cost_json ''tracepoint'' ''kvm_entry'' True (ka_budget a) wall r2"
    using probe_cost_Inr [OF c1] probe_cost_Inr [OF c2] by blast
  show ?thesis
    by (rule emitted_okI [OF e [unfolded kvm_fragment_def]])
      (use kvm_entry_typed [OF ss [symmetric] _ assms(2)] in \<open>auto simp: c cost_probe cost_typed\<close>)
qed

lemma block_main_typed:
  assumes "block_main bo a w = (Inr (), w')" and "0 < ba_max_keys a"
  shows "emitted_ok bo (ba_out a) w'"
proof -
  obtain es ss wall w1 w2 w3 c d where ss: "Inr ss = each_entry (block_entry a) es"
    and c1: "probe_cost bo ''tracepoint'' ''block_rq_issue'' ''handle_issue'' wall (ba_budget a) True w1 = (Inr c, w2)"
    and c2: "probe_cost bo ''tracepoint'' ''block_rq_complete'' ''handle_complete'' wall (ba_budget a) True w2 = (Inr d, w3)"
    and e: "emit_fragment bo (ba_out a) (fragment_json ss [c, d]
       [(''gadget'', JString ''assayist-capture-block''), (''window_ns'', JNumber (PosInt wall))]) w3 = (Inr (), w')"
    using assms(1) by (auto simp: block_main_def block_cost_def io_simps prod.case_eq_if)
  show ?thesis
    by (rule emitted_okI [OF e]) (use block_entry_typed [OF ss [symmetric] _ assms(2)] probe_cost_Inr [OF c1] probe_cost_Inr [OF c2]
      in \<open>auto simp: cost_probe cost_typed\<close>)
qed

lemma ctrl_main_typed:
  assumes "ctrl_main co a w = (Inr (), w')" and "0 < ca_max_keys a"
  shows "emitted_ok co (ca_out a) w'"
proof -
  obtain names es es' ss ts wall w1 w2 w3 w4 c d g meta where
    ss: "Inr ss = each_entry (runq_entry names (bounded_card ''cgroup_id'' (ca_max_keys a))) es"
    and ts: "Inr ts = each_entry (oncpu_entry names (bounded_card ''cgroup_id'' (ca_max_keys a))) es'"
    and c1: "probe_cost co ''tp_btf'' ''sched_wakeup'' ''on_wakeup'' wall (ca_budget a) True w1 = (Inr c, w2)"
    and c2: "probe_cost co ''tp_btf'' ''sched_wakeup_new'' ''on_wakeup_new'' wall (ca_budget a) True w2 = (Inr d, w3)"
    and c3: "probe_cost co ''tp_btf'' ''sched_switch'' ''on_switch'' wall (ca_budget a) True w3 = (Inr g, w4)"
    and e: "emit_fragment co (ca_out a) (fragment_json (ss @ ts) [c, d, g] meta) w4 = (Inr (), w')"
    using assms(1) by (auto simp: ctrl_main_def ctrl_cost_def Let_def io_simps prod.case_eq_if)
  have "series_ok s \<and> get_str s ''source'' = Some ''sched_switch''" if "s \<in> set (ss @ ts)" for s
    using that sched_entry_typed [OF _ assms(2) disjI1 [OF ss [symmetric]]]
      sched_entry_typed [OF _ assms(2) disjI2 [OF ts [symmetric]]] by auto
  then show ?thesis
    by (intro emitted_okI [OF e]) (use probe_cost_Inr [OF c1] probe_cost_Inr [OF c2] probe_cost_Inr [OF c3]
      in \<open>auto simp: cost_probe cost_typed\<close>)
qed

lemma net_main_typed:
  assumes "net_main no a w = (Inr (), w')" and "0 < ta_max_keys a"
  shows "emitted_ok no (ta_out a) w'"
proof -
  obtain es ss wall w1 w2 w3 w4 rx tx meta where ss: "Inr ss = each_entry (net_entry no w1 a) es"
    and c1: "probe_cost no ''xdp'' ''tap_rx'' ''tap_rx'' wall (ta_budget a) True w2 = (Inr rx, w3)"
    and c2: "(if ta_tx a then io_map (\<lambda>c. [c]) (probe_cost no ''tc'' ''tap_tx'' ''tap_tx'' wall (ta_budget a) True)
       else io_ok []) w3 = (Inr tx, w4)"
    and e: "emit_fragment no (ta_out a) (fragment_json ss (rx # tx) meta) w4 = (Inr (), w')"
    using assms(1) by (auto simp only: net_main_def net_cost_def io_then_Inr io_values prod.case_eq_if)
  obtain r where rx: "rx = cost_json ''xdp'' ''tap_rx'' True (ta_budget a) wall r" using probe_cost_Inr [OF c1] by blast
  have tx: "(\<exists>r. tx = [cost_json ''tc'' ''tap_tx'' True (ta_budget a) wall r]) \<and> ta_tx a \<or> tx = [] \<and> \<not> ta_tx a"
    using c2 by (auto simp: io_simps probe_cost_def split: if_splits)
  show ?thesis
  proof (rule emitted_okI [OF e])
    fix s assume "s \<in> set ss"
    then show "series_ok s \<and> (\<exists>c \<in> set (rx # tx). \<exists>p. get_str s ''source'' = Some p \<and> get_str c ''probe_id'' = Some p)"
      using net_entry_typed [OF ss [symmetric] _ assms(2), of s] tx by (auto simp: rx cost_probe)
  next
    show "\<forall>c \<in> set (rx # tx). cost_ok c" using tx by (auto simp: rx cost_typed)
  qed
qed

lemma resident_typed: "fragment_ok (residency_fragment a r)"
proof (cases r)
  case (fields resident pages page)
  have "is_number (json_f64 (per resident pages))" using per_range [of resident pages] by (simp add: is_number_def json_f64_def)
  then show ?thesis unfolding residency_fragment_def fields prod.case
    by (intro fragment_okI) (auto simp: gauge_typed is_number_def)
qed

lemma resident_main_typed:
  assumes "resident_main mo a w = (Inr (), w')"
  shows "\<exists>r text w1. fragment_ok (residency_fragment a r) \<and> mo_pretty mo (residency_fragment a r) = Inr text
    \<and> (if ma_out a = ''-'' then w' = mo_print mo (text @ [newline]) w1 else mo_write mo (ma_out a) text w1 = (Inr (), w'))"
  using assms resident_typed
  by (auto simp: resident_main_def Let_def io_simps split: if_splits) (metis)+

section \<open>The series of the orchestrator\<close>

lemma singleton_typed: "cardinality_ok singleton_card"
  by (simp add: singleton_card_def cardinality_ok_def shape_jobj value_checks get_str_def jget_jobj)

lemma gauge_data_typed: "is_number v \<Longrightarrow> gauge_ok (gauge_data v)"
  by (simp add: gauge_data_def gauge_ok_def shape_jobj is_uint_def)

lemma hostmem_typed: "s \<in> set (g_series (hostmem_fragment before after)) \<Longrightarrow> series_ok s"
proof -
  have "is_number (json_i64 v)" for v by (simp add: is_number_def json_i64_def)
  then show "s \<in> set (g_series (hostmem_fragment before after)) \<Longrightarrow> series_ok s"
    by (auto simp: hostmem_fragment_def hostmem_gauge_def series_typed_simps gauge_data_typed singleton_typed)
qed

lemma resident_card_typed: "n < 2 ^ 64 \<Longrightarrow> cardinality_ok (resident_card n label)"
proof -
  assume "n < 2 ^ 64"
  then have "unat (of_nat n :: u64) = n" by (simp add: unsigned_of_nat take_bit_nat_eq_self)
  then show "cardinality_ok (resident_card n label)"
    by (simp add: resident_card_def singleton_typed)
      (simp add: cardinality_ok_def shape_jobj value_checks json_nat_def get_str_def jget_jobj)
qed

lemma resident_fragment_typed:
  assumes "resident_fragment measured = Some fr" and "length measured < 2 ^ 64" and "s \<in> set (g_series fr)"
  shows "series_ok s"
proof -
  have "resident_fraction a b = per a b" for a b by (simp add: resident_fraction_def per_def)
  then have v: "is_number (json_f64 (resident_fraction a b))" for a b
    using per_range [of a b] by (simp add: is_number_def json_f64_def)
  have g: "is_number v \<Longrightarrow> series_ok (resident_gauge (length measured) label name v)" for label name v
    using resident_card_typed [OF assms(2), of label] gauge_data_typed [of v]
    by (auto simp: resident_gauge_def series_typed_simps)
  have num: "is_number (JNumber n)" for n by (simp add: is_number_def)
  show ?thesis using assms(1,3) by (auto simp: resident_fragment_def resident_series_def g v num split: if_splits)
qed

section \<open>Property: the contract of the fragments\<close>

text \<open>C14: Whatever the kernel answers, a gadget that succeeds has written a fragment of the contract's
  types: every series is a \<open>MetricSeries\<close> of the schema, with the data of its kind and a declared
  cardinality; every cost is a \<open>ProbeCost\<close> with numbers that are finite and not negative; and
  the source of every series is the id of a probe whose cost is in the fragment. The keys a
  guest, device, interface or group is bounded by must be at least 1. The series that the
  orchestrator itself adds, of the host's memory and of residency, are of those types too.\<close>

theorem gadgets_write_contract:
  "(kvm_main kb ka w = (Inr (), w') \<and> (ka_per_guest ka \<longrightarrow> 0 < ka_max_keys ka) \<longrightarrow> emitted_ok kb (ka_out ka) w')
   \<and> (block_main kb ba w = (Inr (), w') \<and> 0 < ba_max_keys ba \<longrightarrow> emitted_ok kb (ba_out ba) w')
   \<and> (net_main no na w = (Inr (), w') \<and> 0 < ta_max_keys na \<longrightarrow> emitted_ok no (ta_out na) w')
   \<and> (ctrl_main co ca w = (Inr (), w') \<and> 0 < ca_max_keys ca \<longrightarrow> emitted_ok co (ca_out ca) w')
   \<and> fragment_ok (residency_fragment ma r)
   \<and> (s \<in> set (g_series (hostmem_fragment before after)) \<longrightarrow> series_ok s)
   \<and> (resident_fragment measured = Some fr \<and> length measured < 2 ^ 64 \<and> s \<in> set (g_series fr) \<longrightarrow> series_ok s)"
  using kvm_main_typed [of kb ka w w'] block_main_typed [of kb ba w w'] net_main_typed [of no na w w']
    ctrl_main_typed [of co ca w w'] resident_typed hostmem_typed [of s before after]
    resident_fragment_typed [of measured fr s] by blast

text \<open>A kernel with one entry in every histogram map and nothing to count packets of.\<close>

definition still_kernel :: "string list bpf_ops" where
  "still_kernel = \<lparr>bo_read = \<lambda>_ _. None, bo_enable_stats = \<lambda>w. (3, w), bo_open = io_ok (), bo_load = \<lambda>_. io_ok (),
     bo_attach = io_ok (), bo_allow = \<lambda>_ _. io_ok (), bo_sleep = \<lambda>_ w. w, bo_instant = \<lambda>w. (7, w),
     bo_entries = (\<lambda>m w. if m = ''stats'' then [] else [(replicate 12 0, Inr (Some (1 # replicate 159 0)))]),
     bo_max_entries = \<lambda>_. io_ok 4096, bo_prog_info = \<lambda>_ w. ((0, 10, 2), w), bo_pretty = \<lambda>_. Inr ''fragment'',
     bo_print = \<lambda>s w. w @ [s], bo_eprint = \<lambda>_ w. w, bo_write = \<lambda>_ s w. (Inr (), w @ [s])\<rparr>"

definition any_kvm :: kvm_args where
  "any_kvm = \<lparr>ka_duration = 10, ka_per_guest = True, ka_max_keys = 4096, ka_budget = Fin (1 / 100), ka_out = ''/tmp/kvm.json''\<rparr>"

definition any_block :: block_args where
  "any_block = \<lparr>ba_duration = 10, ba_max_keys = 256, ba_budget = Fin (1 / 100), ba_hires = False, ba_out = ''/tmp/block.json''\<rparr>"

theorem gadgets_write_contract_witness:
  "emitted_ok still_kernel ''/tmp/kvm.json'' [''fragment''] \<and> emitted_ok still_kernel ''/tmp/block.json'' [''fragment'']"
proof -
  have "kvm_main still_kernel any_kvm [] = (Inr (), [''fragment''])"
    "block_main still_kernel any_block [] = (Inr (), [''fragment''])" by code_simp+
  then show ?thesis
    using gadgets_write_contract [of still_kernel any_kvm "[]" "[''fragment'']" any_block]
    by (simp add: any_kvm_def any_block_def)
qed

end
