(* ===== verification/GadgetGate.thy ===== *)
theory GadgetGate
  imports GadgetTypes
begin

text \<open>
  The gate's side of the capture gadgets: every series a gadget gives reduces without a panic,
  and which probe's cost decides whether the metrics of the \<open>kvm\<close> gadget are contaminated.
\<close>

section \<open>Lemmas: the explicit layout has a bucket more than bounds\<close>

lemma u64s_u32s [simp]: "u64s (u32s_json ws) = map ucast ws"
  by (induction ws) (simp_all add: u64s_def u32s_json_def List.map_filter_simps)

lemma f64s_u32s [simp]: "length (f64s (u32s_json ws)) = length ws"
  by (induction ws) (simp_all add: f64s_def u32s_json_def List.map_filter_simps)

lemma f64s_bounds: "length (f64s (JArray (map json_f64 log_linear_bounds))) = MAX_SLOTS - 1"
proof -
  have "List.map_filter as_f64 (map json_f64 xs) = xs" if "\<forall>x \<in> set xs. f_finite x" for xs
    using that by (induction xs) (simp_all add: json_f64_def List.map_filter_simps)
  moreover have "\<forall>x \<in> set log_linear_bounds. f_finite x" by (simp add: log_linear_bounds_def log_linear_bound_exact)
  ultimately have "List.map_filter as_f64 (map json_f64 log_linear_bounds) = log_linear_bounds" by blast
  then show ?thesis by (simp add: f64s_def) (simp add: log_linear_bounds_def)
qed

lemma u32s_at_length: "u32s_at off n bs = Inr ws \<Longrightarrow> length ws = n"
  unfolding u32s_at_def by (drule map_res_Inr_length) simp

lemma parse_lengths:
  "parse_blk_stat bs = Inr (slots, n, b) \<Longrightarrow> length slots = MAX_SLOTS"
  "parse_if_stat bs = Inr st \<Longrightarrow> length (is_rx_size st) = 8 \<and> length (is_tx_size st) = 8"
  by (auto simp: parse_blk_stat_def parse_if_stat_def result_simps dest: u32s_at_length)

text \<open>The data a series of a gadget carries; what reduces of it.\<close>

definition panic_free :: "json \<Rightarrow> bool" where
  "panic_free s = (case jget s ''data'' of None \<Rightarrow> True | Some d \<Rightarrow> is_ok (histogram_estimates d))"

lemma panic_free_data: "jget s ''data'' = Some d \<Longrightarrow> is_ok (histogram_estimates d) \<Longrightarrow> panic_free s"
  by (simp add: panic_free_def)

lemma data_estimates:
  "is_ok (histogram_estimates (log2_data slots n))" "is_ok (histogram_estimates (counter_data v))"
  "length slots = MAX_SLOTS \<Longrightarrow> is_ok (histogram_estimates (hist_data hires slots n))"
  by (rule histogram_estimates_total; simp add: log2_data_def counter_data_def hist_data_def get_str_def jget_jobj f64s_bounds
      split: if_splits)+

lemma size_estimates:
  "length ws = 8 \<Longrightarrow> is_ok (histogram_estimates (jobj [(''layout'', JString ''explicit''),
     (''explicit_bounds'', u32s_json size_bounds), (''buckets'', u32s_json ws), (''count'', c)]))"
  by (rule histogram_estimates_total) (simp add: get_str_def jget_jobj size_bounds_def)

lemma series_data:
  "jget (kvm_series a vendor cgroup reason slots n) ''data'' = Some (log2_data slots n)"
  "jget (block_series name u kind key limits d) ''data'' = Some d"
  "jget (net_series dir what u kind key limits d) ''data'' = Some d"
  "jget (sched_series name kind key limits d) ''data'' = Some d"
  by (simp_all add: kvm_series_def block_series_def net_series_def sched_series_def jget_jobj)

lemma each_entry_all:
  assumes "each_entry g es = Inr ss" and "\<And>k v ss'. g k v = Inr ss' \<Longrightarrow> \<forall>s \<in> set ss'. P s" and "s \<in> set ss"
  shows "P s"
  using each_entry_mem [OF assms(1,3)] assms(2) by blast

section \<open>Property: every series reduces\<close>

text \<open>C18: No series a gadget reads from its maps makes the gate panic: whatever bytes the kernel holds,
  a series of the \<open>kvm\<close>, \<open>block\<close>, \<open>net\<close> or \<open>ctrlplane\<close> gadget reduces to metrics.\<close>

theorem gadget_series_reduce:
  assumes "s \<in> set ss"
    and "each_entry (kvm_entry ka vendor) es = Inr ss \<or> each_entry (block_entry ba) es = Inr ss
      \<or> each_entry (net_entry no w na) es = Inr ss \<or> each_entry (runq_entry names limits) es = Inr ss
      \<or> each_entry (oncpu_entry names limits) es = Inr ss"
  shows "is_ok (reduce_series tt over global win s)"
proof -
  note simps = result_simps Let_def panic_free_def series_data data_estimates parse_lengths
  have "\<forall>s \<in> set ss'. panic_free s" if "kvm_entry ka vendor k v = Inr ss'" for k v ss'
    using that by (auto simp: kvm_entry_def simps split: if_splits)
  moreover have "\<forall>s \<in> set ss'. panic_free s" if "block_entry ba k v = Inr ss'" for k v ss'
    using that by (auto simp: block_entry_def simps split: if_splits)
  moreover have "\<forall>s \<in> set ss'. panic_free s" if "net_entry no w na k v = Inr ss'" for k v ss'
    using that by (auto simp: net_entry_def push_dir_def simps size_estimates split: if_splits)
  moreover have "\<forall>s \<in> set ss'. panic_free s" if "runq_entry names limits k v = Inr ss'" for k v ss'
    using that by (auto simp: runq_entry_def simps split: if_splits)
  moreover have "\<forall>s \<in> set ss'. panic_free s" if "oncpu_entry names limits k v = Inr ss'" for k v ss'
    using that by (auto simp: oncpu_entry_def simps split: if_splits)
  ultimately have "panic_free s" using assms by (elim disjE) (erule each_entry_all; blast)+
  then show ?thesis by (intro reduce_series_total) (simp add: panic_free_def)
qed

theorem gadget_series_reduce_witness:
  "is_ok (reduce_series (\<lambda>_. '''') {} False None (kvm_series any_kvm ''amd'' 7 0x078 (1 # replicate 39 0) 1))"
proof -
  have e: "each_entry (kvm_entry any_kvm ''amd'') [(u64_bytes 7 @ u32_bytes 0x078, Inr (Some (1 # replicate 159 0)))]
      = Inr [kvm_series any_kvm ''amd'' 7 0x078 (1 # replicate 39 0) 1]" by code_simp
  show ?thesis by (rule gadget_series_reduce [OF _ disjI1 [OF e]]) simp
qed

section \<open>Property: whose cost contaminates\<close>

text \<open>The fragment of the \<open>kvm\<close> gadget as the orchestrator reads it back.\<close>

definition kvm_read_back :: "kvm_args \<Rightarrow> string \<Rightarrow> u64 \<Rightarrow> bool \<Rightarrow> json list \<Rightarrow> u64 \<times> u64 \<Rightarrow> u64 \<times> u64 \<Rightarrow> fragment" where
  "kvm_read_back a vendor wall overflow ss exit_stats entry_stats = (let frag = kvm_fragment a vendor wall overflow ss
       [cost_json ''tracepoint'' ''kvm_exit'' True (ka_budget a) wall exit_stats,
        cost_json ''tracepoint'' ''kvm_entry'' True (ka_budget a) wall entry_stats] in
     \<lparr>g_series = or_else (get_array frag ''series'') [], g_self_metrics = or_else (get_array frag ''self_metrics'') [],
      g_capture_meta = jget frag ''capture_meta''\<rparr>)"

lemma cost_over: "get_bool (cost_json attach probe hot budget wall (time, cnt)) ''over_budget'' = Some (budget < per time wall)"
  by (simp add: cost_json_def get_bool_def jget_jobj)

text \<open>C16: In a run assembled from a fragment of the \<open>kvm\<close> gadget the metrics of every series are
  contaminated exactly when the exit probe took more than the budget. What the entry probe
  took, and a map that was full, contaminate none.\<close>

theorem kvm_contamination:
  assumes "each_entry (kvm_entry a vendor) es = Inr ss" and "s \<in> set ss"
    and "r = assemble run_id ident fp gate [kvm_read_back a vendor wall overflow ss (exit_time, n) (entry_time, m)] spans"
    and "reduce_series tt (overbudget_sources (run_json r)) (global_overflow (run_json r)) win s = Inr ms" and "x \<in> set ms"
  shows "m_contaminated x \<longleftrightarrow> ka_budget a < per exit_time wall"
proof -
  obtain cgroup reason slots c where s: "s = kvm_series a vendor cgroup reason slots c"
    using each_entry_mem [OF assms(1,2)] by (auto simp: kvm_entry_def result_simps split: if_splits)
  have "r_self_metrics r = [cost_json ''tracepoint'' ''kvm_exit'' True (ka_budget a) wall (exit_time, n),
      cost_json ''tracepoint'' ''kvm_entry'' True (ka_budget a) wall (entry_time, m)]"
    using assms(3) by (simp add: assemble_def kvm_read_back_def kvm_fragment_def get_array_def fragment_parts Let_def)
  then have "''kvm_exit'' \<in> overbudget_sources (run_json r) \<longleftrightarrow> ka_budget a < per exit_time wall"
    by (simp add: in_overbudget_sources get_array_def run_json_get cost_probe cost_over ex_disj_distrib conj_disj_distribR)
  moreover have "\<not> global_overflow (run_json r)" by (simp add: global_overflow_def run_json_get)
  moreover have "get_bool s ''cardinality_overflow'' = None" by (simp add: s kvm_series_def get_bool_def jget_jobj)
  ultimately show ?thesis using reduce_series_metric [OF assms(4,5)]
    by (simp add: series_contaminated_def s sources)
qed

theorem kvm_contamination_witness:
  "\<exists>r ms. r = assemble ''01'' sample_identity sample_fingerprint JNull
       [kvm_read_back any_kvm ''amd'' 10 False [kvm_series any_kvm ''amd'' 7 0x078 (1 # replicate 39 0) 1] (5, 2) (0, 0)] []
     \<and> reduce_series (\<lambda>_. '''') (overbudget_sources (run_json r)) (global_overflow (run_json r)) None
       (kvm_series any_kvm ''amd'' 7 0x078 (1 # replicate 39 0) 1) = Inr ms
     \<and> ms \<noteq> [] \<and> (\<forall>x \<in> set ms. m_contaminated x)"
proof -
  let ?s = "kvm_series any_kvm ''amd'' 7 0x078 (1 # replicate 39 0) 1"
  define r where "r = assemble ''01'' sample_identity sample_fingerprint JNull
    [kvm_read_back any_kvm ''amd'' 10 False [?s] (5, 2) (0, 0)] []"
  let ?red = "reduce_series (\<lambda>_. '''') (overbudget_sources (run_json r)) (global_overflow (run_json r)) None ?s"
  have e: "each_entry (kvm_entry any_kvm ''amd'') [(u64_bytes 7 @ u32_bytes 0x078, Inr (Some (1 # replicate 159 0)))]
      = Inr [?s]" by code_simp
  have "is_ok ?red" by (rule reduce_series_total) (simp add: series_data data_estimates)
  then obtain ms where ms: "?red = Inr ms" by (auto simp: is_ok_iff)
  have "get_str ?s ''kind'' = Some ''histogram''" by (simp add: kvm_series_def get_str_def jget_jobj)
  then have "ms \<noteq> []" using ms by (auto simp: reduce_series_def Let_def series_data result_simps)
  moreover have "ka_budget any_kvm < per 5 10" by code_simp
  moreover have "\<forall>x \<in> set ms. m_contaminated x \<longleftrightarrow> ka_budget any_kvm < per 5 10"
    using kvm_contamination [OF e _ r_def ms] by simp
  ultimately show ?thesis using ms unfolding r_def by blast
qed

end
