(* ===== verification/OwnerMain.thy ===== *)
theory OwnerMain
  imports AttribOwner Effects
begin

text \<open>
  The rest of \<open>capture/netattrib/src/main.rs\<close>: creating and pinning the map, the serve loop over
  the peers of the control socket until the window closes or a signal arrives, and \<open>main\<close> with
  what it releases on which path. The kernel, the file system, the sockets and the clock are
  \<open>owner_ops\<close>; the map's own operations are \<open>map_ops\<close> of \<open>AttribOwner\<close>.
\<close>

section \<open>The world of the owner\<close>

record owner_args =
  oa_duration :: u64
  oa_out :: string
  oa_attrib_map :: string
  oa_control :: string
  oa_max_vms :: u32

text \<open>
  A read gives the line with its end, the empty string at the end of the stream, or nothing: the
  error of a read that timed out. What such a read had already taken is gone with its buffer.
\<close>

record ('w, 'p, 'm) owner_ops =
  ow_map :: "'m map_ops"
  ow_signals :: "'w \<Rightarrow> 'w"
  ow_exists :: "string \<Rightarrow> 'w \<Rightarrow> bool"
  ow_mkdirs :: "string \<Rightarrow> ('w, unit) io"
  ow_create :: "u32 \<Rightarrow> ('w, 'm) io"
  ow_pin :: "string \<Rightarrow> ('w, unit) io"
  ow_unpin :: "string \<Rightarrow> ('w, unit) io"
  ow_remove :: "string \<Rightarrow> ('w, unit) io"
  ow_bind :: "string \<Rightarrow> ('w, unit) io"
  ow_now :: "'w \<Rightarrow> nat \<times> 'w"
  ow_shutdown :: "'w \<Rightarrow> bool"
  ow_accept :: "'w \<Rightarrow> 'p option \<times> 'w"
  ow_read_line :: "'p \<Rightarrow> 'w \<Rightarrow> string option \<times> 'w"
  ow_reply :: "'p \<Rightarrow> string \<Rightarrow> 'w \<Rightarrow> 'w"
  ow_nap :: "'w \<Rightarrow> 'w"
  ow_pretty :: "json \<Rightarrow> string + string"
  ow_print :: "string \<Rightarrow> 'w \<Rightarrow> 'w"
  ow_write :: "string \<Rightarrow> string \<Rightarrow> ('w, unit) io"

section \<open>Creating the map\<close>

text \<open>
  \<open>Path::parent\<close>: trailing separators and \<open>.\<close> components do not count, then the last component
  goes. The path is read from its end.
\<close>

fun trim_back :: "string \<Rightarrow> string" where
  "trim_back (c # r) = (if c = CHR ''/'' then (if r = [] then [c] else trim_back r)
     else if c = CHR ''.'' \<and> r \<noteq> [] \<and> hd r = CHR ''/'' then trim_back r else c # r)"
| "trim_back [] = []"

definition path_parent :: "string \<Rightarrow> string option" where
  "path_parent p = (let t = trim_back (rev p) in if t = [] \<or> t = [CHR ''/''] then None
     else Some (rev (trim_back (dropWhile (\<lambda>c. c \<noteq> CHR ''/'') t))))"

definition create_and_pin :: "('w, 'p, 'm) owner_ops \<Rightarrow> string \<Rightarrow> u32 \<Rightarrow> ('w, 'm) io" where
  "create_and_pin ow pin max_vms w = (if ow_exists ow pin w
     then (Inl (''pin '' @ pin @ '' already exists (stale from a crashed run?); remove it and retry''), w)
     else io_then (case path_parent pin of None \<Rightarrow> io_ok ()
         | Some dir \<Rightarrow> io_map_err (\<lambda>e. ''creating '' @ dir @ '': '' @ e) (ow_mkdirs ow dir)) (\<lambda>_.
       io_then (io_map_err (\<lambda>e. ''creating vm_by_ifindex: '' @ e) (ow_create ow max_vms)) (\<lambda>m.
       io_map (\<lambda>_. m) (io_map_err (\<lambda>e. ''pinning at '' @ pin @ '': '' @ e) (ow_pin ow pin)))) w)"

section \<open>The serve loop\<close>

text \<open>One peer of one iteration: at the end of its stream, or with nothing to read, it is passed over.\<close>

definition poll_peer :: "('w, 'p, 'm) owner_ops \<Rightarrow> 'p \<Rightarrow> bool \<times> ('m \<times> owner_stats) \<times> 'w \<Rightarrow> bool \<times> ('m \<times> owner_stats) \<times> 'w" where
  "poll_peer ow p s = (case s of (worked, ms, w) \<Rightarrow> (case ow_read_line ow p w of
     (None, w1) \<Rightarrow> (worked, ms, w1)
   | (Some line, w1) \<Rightarrow> if line = [] then (worked, ms, w1)
       else (case serve_line (ow_map ow) line ms of (reply, ms') \<Rightarrow> (True, ms', ow_reply ow p reply w1))))"

text \<open>An iteration: a new peer if one is waiting, then every peer in turn. Only an idle one sleeps.\<close>

definition serve_poll :: "('w, 'p, 'm) owner_ops \<Rightarrow> 'p list \<Rightarrow> 'm \<times> owner_stats \<Rightarrow> 'w \<Rightarrow> 'p list \<times> ('m \<times> owner_stats) \<times> 'w" where
  "serve_poll ow peers ms w = (case ow_accept ow w of (new, w1) \<Rightarrow>
     let peers' = peers @ (case new of None \<Rightarrow> [] | Some p \<Rightarrow> [p]) in
     case foldl (\<lambda>s p. poll_peer ow p s) (new \<noteq> None, ms, w1) peers' of (worked, ms', w2) \<Rightarrow>
       (peers', ms', if worked then w2 else ow_nap ow w2))"

partial_function (option) serve_loop ::
  "('w, 'p, 'm) owner_ops \<Rightarrow> nat \<Rightarrow> 'p list \<Rightarrow> 'm \<times> owner_stats \<Rightarrow> 'w \<Rightarrow> (('m \<times> owner_stats) \<times> 'w) option" where
  "serve_loop ow deadline peers ms w = (case ow_now ow w of (now, w1) \<Rightarrow>
     if now < deadline \<and> \<not> ow_shutdown ow w1
     then (case serve_poll ow peers ms w1 of (peers', ms', w2) \<Rightarrow> serve_loop ow deadline peers' ms' w2)
     else Some (ms, w1))"

section \<open>main\<close>

text \<open>Adding the window to the clock panics past the range of the clock's 64-bit seconds.\<close>

definition window_panic :: string where
  "window_panic = ''panicked: overflow when adding duration to instant''"

definition owner_emit :: "('w, 'p, 'm) owner_ops \<Rightarrow> owner_args \<Rightarrow> json \<Rightarrow> ('w, unit) io" where
  "owner_emit ow a frag = io_then (io_of (ow_pretty ow frag)) (\<lambda>text.
     if oa_out a = ''-'' then (\<lambda>w. (Inr (), ow_print ow (text @ [newline]) w))
     else io_map_err (\<lambda>e. ''writing '' @ oa_out a @ '': '' @ e) (ow_write ow (oa_out a) text))"

definition owner_release :: "('w, 'p, 'm) owner_ops \<Rightarrow> owner_args \<Rightarrow> 'w \<Rightarrow> 'w" where
  "owner_release ow a w = io_ignore (ow_remove ow (oa_control a)) (io_ignore (ow_unpin ow (oa_attrib_map a)) w)"

definition owner_main :: "('w, 'p, 'm) owner_ops \<Rightarrow> owner_args \<Rightarrow> 'w \<Rightarrow> ((string + unit) \<times> 'w) option" where
  "owner_main ow a w = (case create_and_pin ow (oa_attrib_map a) (oa_max_vms a) (ow_signals ow w) of
     (Inl e, w1) \<Rightarrow> Some (Inl e, w1)
   | (Inr m, w1) \<Rightarrow> (case ow_bind ow (oa_control a) (io_ignore (ow_remove ow (oa_control a)) w1) of
       (Inl e, w2) \<Rightarrow> Some (Inl (''binding control socket '' @ oa_control a @ '': '' @ e),
         io_ignore (ow_unpin ow (oa_attrib_map a)) w2)
     | (Inr _, w2) \<Rightarrow> (case ow_now ow w2 of (start, w3) \<Rightarrow>
         if 2 ^ 63 \<le> start div 10 ^ 9 + unat (oa_duration a) then Some (Inl window_panic, w3)
         else (case serve_loop ow (start + unat (oa_duration a) * 10 ^ 9) [] (m, stats_zero) w3 of None \<Rightarrow> None
         | Some ((_, st), w4) \<Rightarrow> (case ow_now ow w4 of (stop, w5) \<Rightarrow>
             Some (owner_emit ow a (owner_fragment st (of_nat (stop - start))) (owner_release ow a w5)))))))"

section \<open>What the world documents\<close>

definition makes_no_pin :: "('w, 'p, 'm) owner_ops \<Rightarrow> string \<Rightarrow> ('w \<Rightarrow> 'w) \<Rightarrow> bool" where
  "makes_no_pin ow pin g = (\<forall>w. ow_exists ow pin (g w) \<longrightarrow> ow_exists ow pin w)"

text \<open>
  A monotone clock that moves between two readings; and a pin that only pinning makes, a failed
  pinning excepted, and that unpinning removes.
\<close>

definition clock_law :: "('w, 'p, 'm) owner_ops \<Rightarrow> ('w \<Rightarrow> nat) \<Rightarrow> bool" where
  "clock_law ow tick = ((\<forall>w. fst (ow_now ow w) = tick w \<and> tick w < tick (snd (ow_now ow w)))
     \<and> (\<forall>w. tick w \<le> tick (snd (ow_accept ow w))) \<and> (\<forall>p w. tick w \<le> tick (snd (ow_read_line ow p w)))
     \<and> (\<forall>p s w. tick w \<le> tick (ow_reply ow p s w)) \<and> (\<forall>w. tick w \<le> tick (ow_nap ow w)))"

definition pin_law :: "('w, 'p, 'm) owner_ops \<Rightarrow> owner_args \<Rightarrow> bool" where
  "pin_law ow a = (let pin = oa_attrib_map a; quiet = makes_no_pin ow pin in
     quiet (ow_signals ow) \<and> (\<forall>d. quiet (io_ignore (ow_mkdirs ow d))) \<and> (\<forall>n. quiet (\<lambda>w. snd (ow_create ow n w)))
     \<and> quiet (io_ignore (ow_remove ow (oa_control a))) \<and> quiet (io_ignore (ow_bind ow (oa_control a)))
     \<and> quiet (\<lambda>w. snd (ow_now ow w)) \<and> quiet (\<lambda>w. snd (ow_accept ow w)) \<and> (\<forall>p. quiet (\<lambda>w. snd (ow_read_line ow p w)))
     \<and> (\<forall>p s. quiet (ow_reply ow p s)) \<and> quiet (ow_nap ow) \<and> (\<forall>s. quiet (ow_print ow s))
     \<and> (\<forall>s. quiet (io_ignore (ow_write ow (oa_out a) s)))
     \<and> (\<forall>w e w'. ow_pin ow pin w = (Inl e, w') \<longrightarrow> ow_exists ow pin w' \<longrightarrow> ow_exists ow pin w)
     \<and> (\<forall>w. \<not> ow_exists ow pin (io_ignore (ow_unpin ow pin) w)))"

section \<open>Lemmas: the loop\<close>

lemma serve_append: "snd (serve ops (xs @ ys) ms) = snd (serve ops ys (snd (serve ops xs ms)))"
  by (induction xs arbitrary: ms) (simp_all add: Let_def prod.case_eq_if)

text \<open>A stretch of serving: the clock does not go back, no pin appears, and the map and the
  bookkeeping are those of a sequence of lines.\<close>

definition served :: "('w, 'p, 'm) owner_ops \<Rightarrow> ('w \<Rightarrow> nat) \<Rightarrow> owner_args \<Rightarrow> ('m \<times> owner_stats) \<times> 'w \<Rightarrow> ('m \<times> owner_stats) \<times> 'w \<Rightarrow> bool" where
  "served ow tick a s s' = (tick (snd s) \<le> tick (snd s')
     \<and> (ow_exists ow (oa_attrib_map a) (snd s') \<longrightarrow> ow_exists ow (oa_attrib_map a) (snd s))
     \<and> (\<exists>lines. snd (serve (ow_map ow) lines (fst s)) = fst s'))"

lemma served_trans: "served ow tick a s s' \<Longrightarrow> served ow tick a s' s'' \<Longrightarrow> served ow tick a s s''"
  unfolding served_def using serve_append by (metis order_trans)

lemma served_world:
  "tick w \<le> tick (g w) \<Longrightarrow> makes_no_pin ow (oa_attrib_map a) g \<Longrightarrow> served ow tick a (ms, w) (ms, g w)"
  by (auto simp: served_def makes_no_pin_def intro: exI [of _ "[]"])

lemma served_line: "serve_line (ow_map ow) line ms = (reply, ms') \<Longrightarrow> served ow tick a (ms, w) (ms', w)"
  by (auto simp: served_def intro!: exI [of _ "[line]"])

lemma served_peer:
  assumes "clock_law ow tick" and "pin_law ow a" and "poll_peer ow p (worked, ms, w) = (worked', ms', w')"
  shows "served ow tick a (ms, w) (ms', w')"
proof -
  obtain r w1 where r: "ow_read_line ow p w = (r, w1)" by (cases "ow_read_line ow p w")
  have "served ow tick a (ms, w) (ms, snd (ow_read_line ow p w))"
    using assms(1,2) by (intro served_world) (simp_all add: clock_law_def pin_law_def Let_def)
  then have read: "served ow tick a (ms, w) (ms, w1)" by (simp add: r)
  have reply: "served ow tick a (ms', w1) (ms', ow_reply ow p s w1)" for s
    using assms(1,2) by (intro served_world) (simp_all add: clock_law_def pin_law_def Let_def)
  show ?thesis
  proof (cases "r = None \<or> r = Some []")
    case True
    then show ?thesis using assms(3) read by (auto simp: poll_peer_def r)
  next
    case False
    then obtain line reply where "r = Some line" and l: "serve_line (ow_map ow) line ms = (reply, ms')"
      and w': "w' = ow_reply ow p reply w1"
      using assms(3) by (auto simp: poll_peer_def r split: option.splits prod.splits if_splits)
    show ?thesis using served_trans [OF read served_trans [OF served_line [OF l] reply]] by (simp add: w')
  qed
qed

lemma served_peers:
  assumes "clock_law ow tick" and "pin_law ow a"
  shows "foldl (\<lambda>s p. poll_peer ow p s) (worked, ms, w) ps = (worked', ms', w') \<Longrightarrow> served ow tick a (ms, w) (ms', w')"
proof (induction ps arbitrary: worked ms w)
  case Nil
  then show ?case by (auto simp: served_def intro: exI [of _ "[]"])
next
  case (Cons p ps)
  obtain b ms1 w1 where p: "poll_peer ow p (worked, ms, w) = (b, ms1, w1)" by (cases "poll_peer ow p (worked, ms, w)")
  show ?case using served_trans [OF served_peer [OF assms p] Cons.IH] Cons.prems p by simp
qed

lemma served_poll:
  assumes "clock_law ow tick" and "pin_law ow a" and "serve_poll ow peers ms w = (peers', ms', w')"
  shows "served ow tick a (ms, w) (ms', w')"
proof -
  obtain new w1 where acc: "ow_accept ow w = (new, w1)" by (cases "ow_accept ow w")
  have "served ow tick a (ms, w) (ms, snd (ow_accept ow w))"
    using assms(1,2) by (intro served_world) (simp_all add: clock_law_def pin_law_def Let_def)
  then have a: "served ow tick a (ms, w) (ms, w1)" by (simp add: acc)
  obtain worked w2 where ps: "foldl (\<lambda>s p. poll_peer ow p s) (new \<noteq> None, ms, w1) peers' = (worked, ms', w2)"
    and w': "w' = (if worked then w2 else ow_nap ow w2)"
    using assms(3) by (auto simp: serve_poll_def acc Let_def split: prod.splits)
  have "served ow tick a (ms', w2) (ms', ow_nap ow w2)"
    using assms(1,2) by (intro served_world) (simp_all add: clock_law_def pin_law_def Let_def)
  then show ?thesis using served_trans [OF a served_peers [OF assms(1,2) ps]] served_trans w' by metis
qed

lemma serve_loop_ends:
  assumes "clock_law ow tick" and "pin_law ow a"
  shows "\<exists>ms' w'. serve_loop ow deadline peers ms w = Some (ms', w') \<and> served ow tick a (ms, w) (ms', w')"
proof (induction "deadline - tick w" arbitrary: peers ms w rule: less_induct)
  case less
  obtain now w1 where n: "ow_now ow w = (now, w1)" by (cases "ow_now ow w")
  have now: "now = tick w" "tick w < tick w1" using assms(1) n unfolding clock_law_def by (metis fst_conv snd_conv)+
  have "served ow tick a (ms, w) (ms, snd (ow_now ow w))"
    using assms by (intro served_world) (simp_all add: clock_law_def pin_law_def Let_def less_imp_le)
  then have s1: "served ow tick a (ms, w) (ms, w1)" by (simp add: n)
  show ?case
  proof (cases "now < deadline \<and> \<not> ow_shutdown ow w1")
    case True
    obtain peers' ms2 w2 where p: "serve_poll ow peers ms w1 = (peers', ms2, w2)" by (cases "serve_poll ow peers ms w1")
    have s2: "served ow tick a (ms, w1) (ms2, w2)" by (rule served_poll [OF assms p])
    then have "tick w1 \<le> tick w2" by (simp add: served_def)
    then have "deadline - tick w2 < deadline - tick w" using True now by linarith
    then obtain ms' w' where "serve_loop ow deadline peers' ms2 w2 = Some (ms', w')" "served ow tick a (ms2, w2) (ms', w')"
      using less by blast
    then show ?thesis using True n p served_trans [OF s1 served_trans [OF s2]]
      by (subst serve_loop.simps) auto
  next
    case False
    then show ?thesis using n s1 by (cases ms) (subst serve_loop.simps, auto)
  qed
qed

section \<open>Lemmas: the pin\<close>

lemma no_pin_at: "makes_no_pin ow pin g \<Longrightarrow> \<not> ow_exists ow pin w \<Longrightarrow> \<not> ow_exists ow pin (g w)"
  by (auto simp: makes_no_pin_def)

lemma pin_lawD:
  assumes "pin_law ow a"
  shows "makes_no_pin ow (oa_attrib_map a) (ow_signals ow)"
    and "makes_no_pin ow (oa_attrib_map a) (io_ignore (ow_mkdirs ow d))"
    and "makes_no_pin ow (oa_attrib_map a) (\<lambda>w. snd (ow_create ow n w))"
    and "makes_no_pin ow (oa_attrib_map a) (io_ignore (ow_remove ow (oa_control a)))"
    and "makes_no_pin ow (oa_attrib_map a) (ow_print ow t)"
    and "makes_no_pin ow (oa_attrib_map a) (io_ignore (ow_write ow (oa_out a) t))"
    and "\<not> ow_exists ow (oa_attrib_map a) (io_ignore (ow_unpin ow (oa_attrib_map a)) v)"
  using assms by (simp_all add: pin_law_def Let_def)

lemma create_pins:
  assumes "pin_law ow a" and "create_and_pin ow (oa_attrib_map a) n w = (Inl e, w')" and "\<not> ow_exists ow (oa_attrib_map a) w"
  shows "\<not> ow_exists ow (oa_attrib_map a) w'"
proof -
  let ?ex = "ow_exists ow (oa_attrib_map a)"
  have dirs: "ow_mkdirs ow d w1 = (r, w2) \<Longrightarrow> ?ex w2 \<Longrightarrow> ?ex w1" for d w1 r w2
    using no_pin_at [OF pin_lawD(2) [OF assms(1)], of w1 d] by (auto simp: io_ignore_def)
  have create: "ow_create ow n w1 = (r, w2) \<Longrightarrow> ?ex w2 \<Longrightarrow> ?ex w1" for w1 r w2
    using no_pin_at [OF pin_lawD(3) [OF assms(1)], of w1 n] by auto
  have pin: "ow_pin ow (oa_attrib_map a) w1 = (Inl d, w2) \<Longrightarrow> ?ex w2 \<Longrightarrow> ?ex w1" for w1 d w2
    using assms(1) unfolding pin_law_def Let_def by blast
  show ?thesis using assms(2,3)
    by (auto simp: create_and_pin_def io_simps split: option.splits dest: dirs create pin)
qed

lemma quiet_release: "pin_law ow a \<Longrightarrow> \<not> ow_exists ow (oa_attrib_map a) (owner_release ow a w)"
  unfolding owner_release_def by (intro no_pin_at [OF pin_lawD(4)] pin_lawD(7))

lemma quiet_emit:
  assumes "pin_law ow a" and "\<not> ow_exists ow (oa_attrib_map a) w"
  shows "\<not> ow_exists ow (oa_attrib_map a) (snd (owner_emit ow a frag w))"
proof (cases "ow_pretty ow frag")
  case (Inl e)
  then show ?thesis using assms(2) by (simp add: owner_emit_def io_then_def io_of_def)
next
  case (Inr t)
  have "snd (io_map_err g m w) = io_ignore m w" for g and m :: "('a, unit) io"
    by (simp add: io_map_err_def io_ignore_def split: prod.split)
  then show ?thesis using Inr no_pin_at [OF pin_lawD(5) [OF assms(1)] assms(2)] no_pin_at [OF pin_lawD(6) [OF assms(1)] assms(2)]
    by (simp add: owner_emit_def io_then_def io_of_def)
qed

lemma emit_result: "pin_law ow a \<Longrightarrow> \<exists>r w'. owner_emit ow a frag (owner_release ow a w) = (r, w')
    \<and> (r = Inl window_panic \<or> \<not> ow_exists ow (oa_attrib_map a) w')"
  using quiet_emit [OF _ quiet_release] by (metis prod.collapse)

section \<open>Properties\<close>


text \<open>A world that is its clock and whether the map is pinned; no peer ever comes.\<close>

definition lone_owner :: "(nat \<times> bool, unit, hash_map) owner_ops" where
  "lone_owner = \<lparr>ow_map = hash_map_ops 2, ow_signals = (\<lambda>w. w), ow_exists = (\<lambda>_ w. snd w), ow_mkdirs = (\<lambda>_. io_ok ()),
     ow_create = (\<lambda>_. io_ok []), ow_pin = (\<lambda>_ w. (Inr (), (fst w, True))), ow_unpin = (\<lambda>_ w. (Inr (), (fst w, False))),
     ow_remove = (\<lambda>_. io_err ''No such file''), ow_bind = (\<lambda>_. io_err ''Permission denied''),
     ow_now = (\<lambda>w. (fst w, (fst w + 1, snd w))), ow_shutdown = (\<lambda>_. False), ow_accept = (\<lambda>w. (None, w)),
     ow_read_line = (\<lambda>_ w. (None, w)), ow_reply = (\<lambda>_ _ w. w), ow_nap = (\<lambda>w. (fst w + 10000000, snd w)),
     ow_pretty = (\<lambda>_. Inr ''fragment''), ow_print = (\<lambda>_ w. w), ow_write = (\<lambda>_ _. io_ok ())\<rparr>"

definition any_owner :: owner_args where
  "any_owner = \<lparr>oa_duration = 30, oa_out = ''-'', oa_attrib_map = ''/sys/fs/bpf/assayist/vm_by_ifindex'',
     oa_control = ''/run/assayist/ctl'', oa_max_vms = 1024\<rparr>"


text \<open>A map that is already pinned is never taken over: the owner reports the stale pin and has
  touched neither the map nor the control socket.\<close>

lemma stale_pin_refused:
  assumes "ow_exists ow (oa_attrib_map a) (ow_signals ow w)"
  shows "owner_main ow a w = Some (Inl (''pin '' @ oa_attrib_map a
    @ '' already exists (stale from a crashed run?); remove it and retry''), ow_signals ow w)"
  using assms by (simp add: owner_main_def create_and_pin_def)

end
