(* ===== verification/RunTypes.thy ===== *)
theory RunTypes
  imports GadgetTypes HostPrep RunBuild
begin

text \<open>
  The record the orchestrator writes against the schema of the contract: what must hold of the
  definition, the host's facts and the fragments for every field to be of its type, and that the
  run id never is.
\<close>

section \<open>Lemmas: the parts of a record\<close>

lemma object_jobj:
  assumes "\<forall>kv \<in> set kvs. p (snd kv)"
  shows "is_object_of p (jobj kvs)"
proof -
  have "\<forall>kv \<in> set (fold (\<lambda>(k, v). bm_insert k v) kvs m). p (snd kv)" if "\<forall>kv \<in> set m. p (snd kv)" for m
    using assms that
  proof (induction kvs arbitrary: m)
    case (Cons kv kvs)
    have "\<forall>x \<in> set (bm_insert (fst kv) (snd kv) m). p (snd x)"
      using Cons.prems bm_insert_values [of "fst kv" "snd kv" m] by fastforce
    then show ?case using Cons by (simp add: case_prod_unfold)
  qed simp
  from this [of bm_empty] show ?thesis by (simp add: is_object_of_def jobj_def list_all_iff bm_empty_def)
qed

lemma knobs_typed: "is_scalar_map (knobs_value t)"
  unfolding is_scalar_map_def knobs_value_def
  by (rule object_jobj) (auto simp: opt_json_def split: option.splits)

definition opt_all :: "('a \<Rightarrow> bool) \<Rightarrow> 'a option \<Rightarrow> bool" where
  "opt_all p x = (case x of None \<Rightarrow> True | Some v \<Rightarrow> p v)"

lemma opt_all_some: "opt_all p x \<longleftrightarrow> (\<forall>v. x = Some v \<longrightarrow> p v)"
  by (simp add: opt_all_def split: option.split)

lemma opt_all_simps [simp]: "opt_all p None" "opt_all p (Some v) = p v"
  by (simp_all add: opt_all_def)

text \<open>What the schema asks of the host's facts.\<close>

definition facts_ok :: "facts \<Rightarrow> bool" where
  "facts_ok f = (0 < fa_cpu_count_logical f \<and> 0 < fa_cpu_count_physical f
     \<and> fa_thp_setting f \<in> {''always'', ''madvise'', ''never''}
     \<and> opt_all (is_object_of (\<lambda>_. True)) (fa_numa_topology f)
     \<and> opt_all (is_object_of is_str) (fa_mitigations f))"

lemma count_pos: "0 < (w :: u32) \<Longrightarrow> Suc 0 \<le> unat (ucast w :: u64)"
proof -
  assume "0 < w"
  moreover have "unat w < 2 ^ 32" using unsigned_less [of w] by simp
  ultimately show ?thesis by (simp add: word_less_nat_alt unsigned_ucast_eq take_bit_nat_eq_self Suc_le_eq)
qed

lemmas text_checks = is_str_def is_boolean_def is_one_of_def is_text_def

lemma opt_field_ok: "list_all p (opt_field k enc x) \<longleftrightarrow> (\<forall>v. x = Some v \<longrightarrow> p (k, enc v))"
  by (simp add: opt_field_def split: option.split)

lemma fingerprint_typed:
  assumes "facts_ok f" and "tenancy \<in> {''single_tenant'', ''density''}" and "opt_all (is_object_of (\<lambda>_. True)) pinning"
  shows "fingerprint_ok (fingerprint_json (build_fingerprint f requested readback tenancy pinning))"
  unfolding fingerprint_ok_def fingerprint_json_def
proof (rule shape_jobjI, goal_cases)
  case 2
  show ?case using assms knobs_typed unfolding list_all_append opt_field_ok
    by (auto simp: field_ok_def build_fingerprint_def facts_ok_def opt_all_some text_checks is_uint_def intro!: count_pos)
qed simp_all

lemma identity_typed:
  assumes "7 \<le> length sut_sha" and "is_scalar_map params"
  shows "identity_ok (identity_json (build_identity d params hash def_sha sut_sha versions))"
  unfolding identity_ok_def identity_json_def
  by (rule shape_jobjI) (use assms in \<open>simp_all add: field_ok_def build_identity_def text_checks\<close>)

text \<open>The thresholds of a definition in the ranges of the schema; loading a definition does not check them.\<close>

definition thresholds_ok :: "gate_spec \<Rightarrow> bool" where
  "thresholds_ok g = (opt_all (\<lambda>x. 0 < x \<and> x \<le> 1) (gs_p_threshold g)
     \<and> opt_all (\<lambda>x. 0 \<le> x \<and> x \<le> 1) (gs_noise_threshold g) \<and> opt_all (\<lambda>n. 0 < n) (gs_resamples g))"

lemma number_in_json: "p x \<Longrightarrow> 0 \<le> x \<and> x \<le> 1 \<Longrightarrow> is_number_in p (json_f64 x)"
  by (cases x) (auto simp: is_number_in_def json_f64_def f64_defs)

lemma gate_context_typed:
  assumes "validate_bench d = Inr ()" and "thresholds_ok (bd_gate d)"
  shows "gate_context_ok (build_gate_context d ref)"
proof -
  have names: "gs_mode (bd_gate d) \<in> set gate_modes" "bd_tenancy d \<in> set tenancies"
    using assms(1) validate_bench_problems [of d] by (auto simp: is_ok_iff gate_problems_def split: if_splits)
  define p x n where "p = or_else (gs_p_threshold (bd_gate d)) (f_lit (1 / 100))"
    and "x = or_else (gs_noise_threshold (bd_gate d)) (f_lit (5 / 100))"
    and "n = or_else (gs_resamples (bd_gate d)) 10000"
  have d: "0 < f_lit (1 / 100) \<and> f_lit (1 / 100) \<le> 1" "0 \<le> f_lit (5 / 100) \<and> f_lit (5 / 100) \<le> 1" by code_simp+
  have p: "0 < p \<and> p \<le> 1" using assms(2) d(1) by (cases "gs_p_threshold (bd_gate d)") (auto simp: p_def thresholds_ok_def)
  have x: "0 \<le> x \<and> x \<le> 1" using assms(2) d(2) by (cases "gs_noise_threshold (bd_gate d)") (auto simp: x_def thresholds_ok_def)
  have n: "0 < n" using assms(2) by (cases "gs_resamples (bd_gate d)") (auto simp: n_def thresholds_ok_def)
  have "is_number_in (\<lambda>y. 0 < y \<and> y \<le> 1) (json_f64 p)" "is_number_in (\<lambda>y. 0 \<le> y \<and> y \<le> 1) (json_f64 x)"
    using p x by (auto intro!: number_in_json simp: less_eq_f64_def less_f64_def)
  moreover have "is_uint 1 (JNumber (PosInt n))" using n by (simp add: is_uint_def word_less_nat_alt)
  ultimately show ?thesis using names
    unfolding gate_context_ok_def build_gate_context_def p_def [symmetric] x_def [symmetric] n_def [symmetric]
    by (intro shape_jobjI) (simp_all add: field_ok_def text_checks is_list_of_def list_all_iff gate_modes_def tenancies_def)
qed

section \<open>Lemmas: the record\<close>

lemma record_typed:
  assumes "id_ok (JString run_id)" and "identity_ok (identity_json ident)" and "fingerprint_ok (fingerprint_json fp)"
    and "gate_context_ok gate" and "list_all lifecycle_ok spans"
    and "\<forall>fr \<in> set frs. list_all series_ok (g_series fr) \<and> list_all cost_ok (g_self_metrics fr)"
  shows "record_shape id_ok (run_json (assemble run_id ident fp gate frs spans))"
proof -
  define g where "g = r_grade (assemble run_id ident fp gate frs spans)"
  have run: "assemble run_id ident fp gate frs spans = \<lparr>r_schema_version = schema_version, r_run_id = run_id, r_identity = ident,
      r_fingerprint = fp, r_spans = spans, r_series = concat (map g_series frs), r_self_metrics = concat (map g_self_metrics frs),
      r_gate = gate, r_outcome = None, r_workload_report = None, r_grade = g\<rparr>"
    by (simp add: g_def assemble_def merged Let_def)
  have v: "version_text schema_version" by code_simp
  have "list_all series_ok (concat (map g_series frs))" "list_all cost_ok (concat (map g_self_metrics frs))"
    using assms(6) by (auto simp: list_all_iff)
  then show ?thesis using assms(1-5) v unfolding run record_shape_def run_json_def
    by (intro shape_jobjI) (cases g, simp_all add: field_ok_def opt_field_def text_checks is_list_of_def)+
qed

lemma run_id_length: "length (run_id_of sha nanos pid counter) = 32"
  by (simp add: run_id_of_def Let_def length_show_hex)

lemma record_run_id: "record_ok (run_json r) \<Longrightarrow> ulid_text (r_run_id r)"
  unfolding record_ok_def record_shape_def
  by (drule shapeD [of _ _ "''run_id''" True "is_text ulid_text" "JString (r_run_id r)"])
    (simp_all add: is_text_def run_json_fields split: option.splits)

section \<open>Property: the record and its schema\<close>

text \<open>C15: The record of a run against the contract's schema. When the definition is a valid one with
  thresholds in range, the commit has at least seven characters, the params are scalars, the
  host reports its facts, and the fragments and spans are of their types, then every field of
  the record is of its type but one: the run id, 32 hexadecimal digits where the schema wants
  26 characters of a ULID. So no record the orchestrator writes is valid as a whole.\<close>

theorem record_valid_but_its_id:
  assumes "validate_bench d = Inr ()" and "thresholds_ok (bd_gate d)" and "7 \<le> length sut_sha" and "is_scalar_map params"
    and "facts_ok f" and "opt_all (is_object_of (\<lambda>_. True)) pinning" and "list_all lifecycle_ok spans"
    and "\<forall>fr \<in> set frs. list_all series_ok (g_series fr) \<and> list_all cost_ok (g_self_metrics fr)"
  shows "let r = assemble (run_id_of sha nanos pid counter) (build_identity d params hash def_sha sut_sha versions)
      (build_fingerprint f requested readback (bd_tenancy d) pinning) (build_gate_context d ref) frs spans in
    record_shape is_str (run_json r) \<and> \<not> record_ok (run_json r)"
proof -
  have "bd_tenancy d \<in> {''single_tenant'', ''density''}"
    using assms(1) validate_bench_problems [of d] by (auto simp: is_ok_iff gate_problems_def tenancies_def split: if_splits)
  then have fp: "fingerprint_ok (fingerprint_json (build_fingerprint f requested readback (bd_tenancy d) pinning))"
    by (rule fingerprint_typed [OF assms(5) _ assms(6)])
  define r where "r = assemble (run_id_of sha nanos pid counter) (build_identity d params hash def_sha sut_sha versions)
      (build_fingerprint f requested readback (bd_tenancy d) pinning) (build_gate_context d ref) frs spans"
  have "record_shape is_str (run_json r)" unfolding r_def
    by (rule record_typed [OF _ identity_typed [OF assms(3,4)] fp gate_context_typed [OF assms(1,2)] assms(7,8)])
      (simp add: is_str_def)
  moreover have "r_run_id r = run_id_of sha nanos pid counter" by (simp add: r_def assemble_def Let_def merged)
  then have "\<not> ulid_text (r_run_id r)" by (simp add: ulid_text_def run_id_length)
  then have "\<not> record_ok (run_json r)" using record_run_id by blast
  ultimately show ?thesis by (simp add: r_def)
qed

definition sample_facts :: facts where
  "sample_facts = \<lparr>fa_hostname = ''lab'', fa_kernel_version = ''6.11.0'', fa_os_release = ''Ubuntu 24.04'',
     fa_cpu_model = ''EPYC'', fa_cpu_count_logical = 16, fa_cpu_count_physical = 8, fa_smt_enabled = True,
     fa_cpu_governor = ''performance'', fa_thp_setting = ''never'', fa_total_memory_bytes = 1024, fa_kvm_present = True,
     fa_numa_topology = None, fa_mitigations = Some (jobj [(''spectre_v2'', JString ''Mitigation'')]),
     fa_microcode_version = Some ''0xa0011d1'', fa_nested_virt = Some False\<rparr>"

definition sample_knobs :: tuning_knobs where
  "sample_knobs = \<lparr>tk_cpu_governor = Some ''performance'', tk_smt = Some True, tk_thp = None\<rparr>"

definition sample_span :: json where
  "sample_span = jobj [(''name'', JString ''steady''), (''start_unix_nano'', JNumber (PosInt 1)),
     (''end_unix_nano'', JNumber (PosInt 9))]"

definition sample_fragment :: fragment where
  "sample_fragment = \<lparr>g_series = [jobj [(''name'', JString ''rss''), (''unit'', JString ''By''), (''kind'', JString ''gauge''),
       (''source'', JString ''hostmem''), (''cardinality'', jobj [(''class'', JString ''singleton'')]),
       (''data'', jobj [(''value'', JNumber (PosInt 7)), (''time_unix_nano'', JNumber (PosInt 9))])]],
     g_self_metrics = [], g_capture_meta = None\<rparr>"

theorem record_valid_but_its_id_witness:
  "let r = assemble (run_id_of (\<lambda>s. map of_char s) 0 1 0)
      (build_identity sample_def (jobj [(''mem'', JNumber (PosInt 256))]) ''h'' ''d'' ''abc1234'' default_versions)
      (build_fingerprint sample_facts sample_knobs sample_knobs (bd_tenancy sample_def) None)
      (build_gate_context sample_def '''') [sample_fragment] [sample_span] in
    record_shape is_str (run_json r) \<and> \<not> record_ok (run_json r)"
proof (rule record_valid_but_its_id)
  show "validate_bench sample_def = Inr ()" "thresholds_ok (bd_gate sample_def)"
    "is_scalar_map (jobj [(''mem'', JNumber (PosInt 256))])" "facts_ok sample_facts"
    "list_all lifecycle_ok [sample_span]"
    "\<forall>fr \<in> set [sample_fragment]. list_all series_ok (g_series fr) \<and> list_all cost_ok (g_self_metrics fr)"
    by code_simp+
qed simp_all

end
