(* ===== verification/Spec2Isabelle.thy ===== *)
theory Spec2Isabelle
  imports RunLink OtlpRoundTrip VsockRun RunMatrix GadgetGate OwnerMain RunTypes
begin

text \<open>
  Assayist measures virtual machines: an orchestrator brings a target up, captures what eBPF
  gadgets and the workload report, assembles one record per run, and a statistical gate compares
  groups of records. This development models the Rust code of the repository, component by
  component, and proves what makes it correct.

  \<^bold>\<open>Foundations.\<close> \<open>Prelude\<close>: machine integers as words, \<open>Result\<close> as a sum with its error on the
  left, panics as the error \<open>fault\<close>, and the collections of rewrite rules (\<open>result_simps\<close>).
  \<open>Text\<close> and \<open>Decimal\<close>: Rust strings as byte strings with the methods the sources call, and the
  printing and parsing of integers (locale \<open>text_codec\<close>). \<open>OrdMap\<close>: \<open>BTreeMap\<close> as its ordered
  entries (locale \<open>ordered_map\<close>, whose clients use only its laws). \<open>F64\<close>: binary64 with
  round-to-nearest-even as exact rationals, infinities, NaN and both zeros, executable, so that the
  statistics are modelled bit for bit. \<open>Json\<close>: \<open>serde_json::Value\<close> and its readers. \<open>Bytes\<close>:
  integers as little-endian bytes. \<open>Effects\<close>: code that acts on the world, as a function of it.

  \<^bold>\<open>The gate\<close> (\<open>crates/gate\<close>). \<open>Stats\<close> (\<open>stats.rs\<close>): the generator and shuffle, the permutation test,
  spread and percentiles. \<open>Reduce\<close> (\<open>reduce.rs\<close>): a run to scalar metrics, with contamination.
  \<open>Gate\<close> (\<open>gate.rs\<close>): admission, the A/B, drift and overhead decisions. \<open>GateCli\<close> (\<open>main.rs\<close>): the
  command line and the exit code. The lemmas show when the verdict is which, for every group of
  runs: what is admitted, that each metric is judged on exactly its samples, that a group never
  fails against itself.

  \<^bold>\<open>The contract\<close> (\<open>crates/contract\<close>, \<open>contract/assay-run.schema.json\<close>). \<open>Contract\<close>: the record, its
  assembly, grade and serialisation, and what the gate reads of it. \<open>Schema\<close>: the JSON
  schema as checks on a value. \<open>RunTypes\<close>: what the schema accepts of the record the orchestrator
  writes: all of it but the run id.

  \<^bold>\<open>The orchestrator\<close> (\<open>crates/orchestrate\<close>). \<open>BenchDef\<close> (\<open>def.rs\<close>): the definition, its
  validation, and the expansion to the product of the parameter lists. \<open>Template\<close>, \<open>Adapter\<close>,
  \<open>ExecuteRun\<close> (\<open>adapter.rs\<close>): command templates, the traits \<open>Target\<close> and \<open>Workload\<close> as records of
  effects, the fan-out over instances, and \<open>execute_run\<close> with every abort path. \<open>Capture\<close>
  (\<open>capture.rs\<close>): launching gadgets and collecting their fragments. \<open>Netattrib\<close> (\<open>netattrib.rs\<close>):
  the handle table, the client of the control socket and the attribution session. \<open>Native\<close>,
  \<open>NativeWorkload\<close>, \<open>NativeRun\<close>, \<open>VsockRun\<close> (\<open>native.rs\<close>): the VMM adapters and the workload
  drivers. \<open>HostPrep\<close> (\<open>hostprep.rs\<close>): the fingerprint and the tuning of the host. \<open>RunBuild\<close>
  (\<open>run.rs\<close>): identities and run ids. \<open>GateHandoff\<close> (\<open>gate.rs\<close>): handing two groups to the gate.
  \<open>Cli\<close>, \<open>Commands\<close>, \<open>RunCmd\<close>, \<open>RunMatrix\<close> (\<open>main.rs\<close>): the front end and every subcommand.
  The lemmas show the order of the protocol of a run, that everything brought up is torn down
  once, that the groups of a comparison match cell by cell, that no file or instance is shared,
  and that success means that the gate passed the run.

  \<^bold>\<open>The exchange\<close> (\<open>crates/otlp\<close>). \<open>Otlp\<close>: export and import; \<open>OtlpRoundTrip\<close>: what survives both.

  \<^bold>\<open>The gadgets\<close> (\<open>capture\<close>). \<open>AttribOwner\<close> and \<open>OwnerMain\<close> (\<open>netattrib\<close>): the owner of the shared
  map from interfaces to VMs, its wire commands, serve loop and the release of its pin.
  \<open>Gadget\<close> and \<open>Gadgets\<close>: the userspace of \<open>kvm\<close>, \<open>block\<close>, \<open>net\<close>, \<open>ctrlplane\<close> and \<open>resident\<close>.
  \<open>GadgetSeries\<close>, \<open>GadgetTypes\<close>, \<open>GadgetGate\<close>: their histograms, that the fragments are of the
  contract's types, and how the gate reads them.

  \<^bold>\<open>How the parts meet.\<close> \<open>AttribLink\<close> puts the client of the orchestrator and the owner of the map at
  the two ends of the wire; \<open>RunLink\<close> drives a whole \<open>execute_run\<close> against the owner: when the
  run is over, no entry it made is left. The kernel's map is the locale \<open>bpf_map\<close>, extended by
  \<open>quiet_map\<close> and \<open>deleting_map\<close>, each interpreted on a bounded hash map. \<open>GateHandoff\<close> composes
  the orchestrator with the gate's own command line, \<open>RunMatrix\<close> the front end with all of it,
  \<open>GadgetGate\<close> a gadget with the assembly and the reduction.

  \<^bold>\<open>Parameters.\<close> Code the repository does not hold is an argument: SHA-256, the YAML reader, the
  JSON printer and parser, the shell, processes, sockets, files, the clocks, libbpf and the
  kernel. Each is a field of a record of operations over a world of any type; what is assumed of
  one is a named predicate or locale in front of the theorem that needs it. The model of a release
  build: unsigned arithmetic wraps, an index out of range panics (a value of the error type).

  \<^bold>\<open>Loops.\<close> Loops over data are structural recursion. A loop that ends only by the clock or by its
  peer is \<open>partial_function (option)\<close>: the connect loop of \<open>Netattrib\<close>, the first invocation of
  the vsock driver, the serve loop of the owner; each has a theorem that it returns on a clock that
  moves. No fuel is used.

  \<^bold>\<open>Not modelled.\<close> The eBPF programs in C, whose maps are arbitrary here; the derived
  deserialisers of serde and the option parsing of clap, whose results are records; the wording of
  third-party errors, which is the string the operation gives; non-ASCII white space and case; build scripts, documents, labs and tests.
\<close>

end
